(* ===== verification/Prelude.thy ===== *)
theory Prelude
  imports Main
begin

text \<open>
  The prelude of the development. It holds the shape in which every stateful Go function is
  modelled (a function from the state before the call to a result and the state after it,
  where the result is a sum with the error on the left), the combinators that mirror Go's
  error idioms, the three ways in which the component theories state what such a program
  does to its state (\<open>triple\<close>, \<open>keeps\<close> and \<open>frame\<close>), and the generic facts
  on lists that several components share.
\<close>

section \<open>Programs with errors and state\<close>

type_synonym ('w, 'e, 'a) program = "'w \<Rightarrow> ('e + 'a) \<times> 'w"

named_theorems prog_defs "unfolding of the program combinators"
named_theorems keeps_intros "rules by which a program keeps a state predicate"
named_theorems frame_intros "rules by which a program leaves a part of the state alone"

definition ret :: "'a \<Rightarrow> ('w, 'e, 'a) program" where [prog_defs]:
  "ret a w = (Inr a, w)"

definition throw :: "'e \<Rightarrow> ('w, 'e, 'a) program" where [prog_defs]:
  "throw e w = (Inl e, w)"

text \<open>\<open>x, err := m(); if err != nil { return err }; f(x)\<close>\<close>

definition andThen ::
  "('w, 'e, 'a) program \<Rightarrow> ('a \<Rightarrow> ('w, 'e, 'b) program) \<Rightarrow> ('w, 'e, 'b) program" where [prog_defs]:
  "andThen m f w = (case m w of (Inl e, w') \<Rightarrow> (Inl e, w') | (Inr a, w') \<Rightarrow> f a w')"

text \<open>\<open>if err != nil { return g(err) }\<close>\<close>

definition mapErr :: "('e \<Rightarrow> 'e) \<Rightarrow> ('w, 'e, 'a) program \<Rightarrow> ('w, 'e, 'a) program" where [prog_defs]:
  "mapErr g m w = (case m w of (Inl e, w') \<Rightarrow> (Inl (g e), w') | (Inr a, w') \<Rightarrow> (Inr a, w'))"

text \<open>A call whose result and error are both inspected by what follows.\<close>

definition attempt ::
  "('w, 'e, 'a) program \<Rightarrow> ('e + 'a \<Rightarrow> ('w, 'e, 'b) program) \<Rightarrow> ('w, 'e, 'b) program" where [prog_defs]:
  "attempt m k w = (case m w of (r, w') \<Rightarrow> k r w')"

text \<open>A state update that cannot fail.\<close>

definition modify :: "('w \<Rightarrow> 'w) \<Rightarrow> ('w, 'e, unit) program" where [prog_defs]:
  "modify f w = (Inr (), f w)"

lemma andThen_Inr: "m w = (Inr a, w') \<Longrightarrow> andThen m f w = f a w'"
  by (simp add: andThen_def)

lemma andThen_Inl: "m w = (Inl e, w') \<Longrightarrow> andThen m f w = (Inl e, w')"
  by (simp add: andThen_def)

lemma andThen_InrE:
  assumes "andThen m f w = (Inr b, w')"
  obtains a w1 where "m w = (Inr a, w1)" and "f a w1 = (Inr b, w')"
  using assms by (auto simp: andThen_def split: prod.splits sum.splits)

lemma andThen_InlE:
  assumes "andThen m f w = (Inl e, w')"
  obtains "m w = (Inl e, w')" | a w1 where "m w = (Inr a, w1)" and "f a w1 = (Inl e, w')"
  using assms by (auto simp: andThen_def split: prod.splits sum.splits)

lemma mapErr_InrD: "mapErr g m w = (Inr a, w') \<Longrightarrow> m w = (Inr a, w')"
  by (auto simp: mapErr_def split: prod.splits sum.splits)

lemma mapErr_InlE:
  assumes "mapErr g m w = (Inl e, w')"
  obtains e' where "m w = (Inl e', w')" and "e = g e'"
  using assms by (auto simp: mapErr_def split: prod.splits sum.splits)

lemma attemptE:
  assumes "attempt m k w = (r, w')"
  obtains q w1 where "m w = (q, w1)" and "k q w1 = (r, w')"
  using assms by (auto simp: attempt_def split: prod.splits)

lemma ret_iff [simp]: "ret a w = (r, w') \<longleftrightarrow> r = Inr a \<and> w' = w"
  by (auto simp: ret_def)

lemma throw_iff [simp]: "throw e w = (r, w') \<longleftrightarrow> r = Inl e \<and> w' = w"
  by (auto simp: throw_def)

section \<open>Triples\<close>

text \<open>
  \<open>triple P m Q E\<close>: from a state with \<open>P\<close>, a successful run of \<open>m\<close> ends with
  \<open>Q\<close> of its value and state, a failed one with \<open>E\<close> of its error and state.
\<close>

definition triple ::
  "('w \<Rightarrow> bool) \<Rightarrow> ('w, 'e, 'a) program \<Rightarrow> ('a \<Rightarrow> 'w \<Rightarrow> bool) \<Rightarrow> ('e \<Rightarrow> 'w \<Rightarrow> bool) \<Rightarrow> bool" where
  "triple P m Q E \<longleftrightarrow>
     (\<forall>w. P w \<longrightarrow> (case m w of (Inl e, w') \<Rightarrow> E e w' | (Inr a, w') \<Rightarrow> Q a w'))"

lemma tripleI:
  assumes "\<And>w a w'. P w \<Longrightarrow> m w = (Inr a, w') \<Longrightarrow> Q a w'"
    and "\<And>w e w'. P w \<Longrightarrow> m w = (Inl e, w') \<Longrightarrow> E e w'"
  shows "triple P m Q E"
  unfolding triple_def by (auto intro: assms split: prod.splits sum.splits)

lemma triple_Inr: "triple P m Q E \<Longrightarrow> P w \<Longrightarrow> m w = (Inr a, w') \<Longrightarrow> Q a w'"
  by (auto simp: triple_def dest: spec [where x = w])

lemma triple_Inl: "triple P m Q E \<Longrightarrow> P w \<Longrightarrow> m w = (Inl e, w') \<Longrightarrow> E e w'"
  by (auto simp: triple_def dest: spec [where x = w])

lemma triple_ret: "(\<And>w. P w \<Longrightarrow> Q a w) \<Longrightarrow> triple P (ret a) Q E"
  by (simp add: triple_def ret_def)

lemma triple_throw: "(\<And>w. P w \<Longrightarrow> E e w) \<Longrightarrow> triple P (throw e) Q E"
  by (simp add: triple_def throw_def)

lemma triple_andThen:
  "triple P m R E \<Longrightarrow> (\<And>a. triple (R a) (f a) Q E) \<Longrightarrow> triple P (andThen m f) Q E"
  unfolding triple_def andThen_def
  by (fastforce split: prod.splits sum.splits)

lemma triple_mapErr:
  "triple P m Q (\<lambda>e. E (g e)) \<Longrightarrow> triple P (mapErr g m) Q E"
  unfolding triple_def mapErr_def
  by (fastforce split: prod.splits sum.splits)

lemma triple_weaken:
  assumes "triple P' m Q' E'"
    and "\<And>w. P w \<Longrightarrow> P' w" and "\<And>a w. Q' a w \<Longrightarrow> Q a w" and "\<And>e w. E' e w \<Longrightarrow> E e w"
  shows "triple P m Q E"
  using assms unfolding triple_def
  by (fastforce split: prod.splits sum.splits)

section \<open>State predicates a program keeps\<close>

definition keeps :: "('w \<Rightarrow> bool) \<Rightarrow> ('w, 'e, 'a) program \<Rightarrow> bool" where
  "keeps I m \<longleftrightarrow> (\<forall>w. I w \<longrightarrow> I (snd (m w)))"

lemma keepsI: "(\<And>w. I w \<Longrightarrow> I (snd (m w))) \<Longrightarrow> keeps I m"
  by (simp add: keeps_def)

lemma keepsD: "keeps I m \<Longrightarrow> m w = (r, w') \<Longrightarrow> I w \<Longrightarrow> I w'"
  by (auto simp: keeps_def dest: spec [where x = w])

lemma keeps_snd: "keeps I m \<Longrightarrow> I w \<Longrightarrow> I (snd (m w))"
  by (simp add: keeps_def)

lemma keeps_iff_triple: "keeps I m \<longleftrightarrow> triple I m (\<lambda>_. I) (\<lambda>_. I)"
proof
  assume "keeps I m"
  then show "triple I m (\<lambda>_. I) (\<lambda>_. I)"
    by (intro tripleI) (auto dest: keepsD)
next
  assume t: "triple I m (\<lambda>_. I) (\<lambda>_. I)"
  show "keeps I m"
  proof (rule keepsI)
    fix w assume "I w"
    with t show "I (snd (m w))"
      by (cases "m w"; cases "fst (m w)") (auto dest: triple_Inr triple_Inl)
  qed
qed

lemma keeps_ret [keeps_intros, simp]: "keeps I (ret a)"
  by (simp add: keeps_def ret_def)

lemma keeps_throw [keeps_intros, simp]: "keeps I (throw e)"
  by (simp add: keeps_def throw_def)

lemma keeps_andThen [keeps_intros]:
  "keeps I m \<Longrightarrow> (\<And>a. keeps I (f a)) \<Longrightarrow> keeps I (andThen m f)"
  unfolding keeps_iff_triple by (rule triple_andThen)

lemma keeps_mapErr [keeps_intros]: "keeps I m \<Longrightarrow> keeps I (mapErr g m)"
  unfolding keeps_iff_triple by (rule triple_mapErr)

lemma keeps_attempt [keeps_intros]:
  "keeps I m \<Longrightarrow> (\<And>r. keeps I (k r)) \<Longrightarrow> keeps I (attempt m k)"
  unfolding keeps_def attempt_def by (simp add: split_beta)

lemma keeps_if [keeps_intros]:
  "(b \<Longrightarrow> keeps I m) \<Longrightarrow> (\<not> b \<Longrightarrow> keeps I n) \<Longrightarrow> keeps I (if b then m else n)"
  by simp

lemma keeps_sum [keeps_intros]:
  "(\<And>e. r = Inl e \<Longrightarrow> keeps I (f e)) \<Longrightarrow> (\<And>a. r = Inr a \<Longrightarrow> keeps I (g a)) \<Longrightarrow>
     keeps I (case r of Inl e \<Rightarrow> f e | Inr a \<Rightarrow> g a)"
  by (cases r) auto

lemma keeps_option [keeps_intros]:
  "(x = None \<Longrightarrow> keeps I m) \<Longrightarrow> (\<And>a. x = Some a \<Longrightarrow> keeps I (g a)) \<Longrightarrow>
     keeps I (case x of None \<Rightarrow> m | Some a \<Rightarrow> g a)"
  by (cases x) auto

lemma keeps_prod [keeps_intros]:
  "(\<And>a b. p = (a, b) \<Longrightarrow> keeps I (f a b)) \<Longrightarrow> keeps I (case p of (a, b) \<Rightarrow> f a b)"
  by (cases p) auto

section \<open>Parts of the state a program leaves alone\<close>

text \<open>\<open>frame v m\<close>: the view \<open>v\<close> of the state is the same after \<open>m\<close>, error or not.\<close>

definition frame :: "('w \<Rightarrow> 'v) \<Rightarrow> ('w, 'e, 'a) program \<Rightarrow> bool" where
  "frame v m \<longleftrightarrow> (\<forall>w. v (snd (m w)) = v w)"

lemma frameI: "(\<And>w. v (snd (m w)) = v w) \<Longrightarrow> frame v m"
  by (simp add: frame_def)

lemma frameD: "frame v m \<Longrightarrow> m w = (r, w') \<Longrightarrow> v w' = v w"
  by (auto simp: frame_def dest: spec [where x = w])

lemma frame_snd: "frame v m \<Longrightarrow> v (snd (m w)) = v w"
  by (simp add: frame_def)

lemma frame_keeps: "frame v m \<Longrightarrow> keeps (\<lambda>w. J (v w)) m"
  by (simp add: frame_def keeps_def)

lemma frame_ret [frame_intros, simp]: "frame v (ret a)"
  by (simp add: frame_def ret_def)

lemma frame_throw [frame_intros, simp]: "frame v (throw e)"
  by (simp add: frame_def throw_def)

lemma frame_andThen [frame_intros]:
  assumes "frame v m" and "\<And>a. frame v (f a)"
  shows "frame v (andThen m f)"
  using assms unfolding frame_def andThen_def
  by (simp add: split_beta split: sum.splits)

lemma frame_mapErr [frame_intros]: "frame v m \<Longrightarrow> frame v (mapErr g m)"
  unfolding frame_def mapErr_def by (simp add: split_beta split: sum.splits)

lemma frame_attempt [frame_intros]:
  "frame v m \<Longrightarrow> (\<And>r. frame v (k r)) \<Longrightarrow> frame v (attempt m k)"
  unfolding frame_def attempt_def by (simp add: split_beta)

lemma frame_if [frame_intros]:
  "(b \<Longrightarrow> frame v m) \<Longrightarrow> (\<not> b \<Longrightarrow> frame v n) \<Longrightarrow> frame v (if b then m else n)"
  by simp

lemma frame_sum [frame_intros]:
  "(\<And>e. r = Inl e \<Longrightarrow> frame v (f e)) \<Longrightarrow> (\<And>a. r = Inr a \<Longrightarrow> frame v (g a)) \<Longrightarrow>
     frame v (case r of Inl e \<Rightarrow> f e | Inr a \<Rightarrow> g a)"
  by (cases r) auto

lemma frame_option [frame_intros]:
  "(x = None \<Longrightarrow> frame v m) \<Longrightarrow> (\<And>a. x = Some a \<Longrightarrow> frame v (g a)) \<Longrightarrow>
     frame v (case x of None \<Rightarrow> m | Some a \<Rightarrow> g a)"
  by (cases x) auto

lemma frame_prod [frame_intros]:
  "(\<And>a b. p = (a, b) \<Longrightarrow> frame v (f a b)) \<Longrightarrow> frame v (case p of (a, b) \<Rightarrow> f a b)"
  by (cases p) auto

section \<open>Generic facts on lists of rows\<close>

text \<open>Rows are updated in place by a condition, as SQL's UPDATE does.\<close>

definition update_where :: "('r \<Rightarrow> bool) \<Rightarrow> ('r \<Rightarrow> 'r) \<Rightarrow> 'r list \<Rightarrow> 'r list" where
  "update_where p f rs = map (\<lambda>r. if p r then f r else r) rs"

lemma length_update_where [simp]: "length (update_where p f rs) = length rs"
  by (simp add: update_where_def)

lemma set_update_where:
  "set (update_where p f rs) = f ` {r \<in> set rs. p r} \<union> {r \<in> set rs. \<not> p r}"
  by (auto simp: update_where_def)

lemma map_update_where:
  "(\<And>r. p r \<Longrightarrow> g (f r) = g r) \<Longrightarrow> map g (update_where p f rs) = map g rs"
  by (simp add: update_where_def)

lemma update_where_Nil [simp]: "update_where p f [] = []"
  by (simp add: update_where_def)

lemma update_where_Cons [simp]:
  "update_where p f (r # rs) = (if p r then f r else r) # update_where p f rs"
  by (simp add: update_where_def)

lemma update_where_none: "(\<And>r. r \<in> set rs \<Longrightarrow> \<not> p r) \<Longrightarrow> update_where p f rs = rs"
  by (induction rs) (auto simp: update_where_def)

lemma update_where_in:
  "r \<in> set (update_where p f rs) \<Longrightarrow>
     (\<exists>q \<in> set rs. r = (if p q then f q else q))"
  by (auto simp: update_where_def)

lemma find_SomeD: "find p rs = Some r \<Longrightarrow> r \<in> set rs \<and> p r"
  by (induction rs) (auto split: if_splits)

lemma find_NoneD: "find p rs = None \<Longrightarrow> r \<in> set rs \<Longrightarrow> \<not> p r"
  by (induction rs) (auto split: if_splits)

lemma distinct_key_unique:
  "distinct (map k rs) \<Longrightarrow> r \<in> set rs \<Longrightarrow> s \<in> set rs \<Longrightarrow> k r = k s \<Longrightarrow> r = s"
  by (metis inj_on_def distinct_map)

lemma find_key_unique:
  assumes "distinct (map k rs)" and "r \<in> set rs"
  shows "find (\<lambda>x. k x = k r) rs = Some r"
  using assms by (induction rs) (auto simp: image_iff)

lemma find_append:
  "find p (xs @ ys) = (case find p xs of Some r \<Rightarrow> Some r | None \<Rightarrow> find p ys)"
  by (induction xs) auto

lemma distinct_map_filter_key: "distinct (map k rs) \<Longrightarrow> distinct (map k (filter p rs))"
  by (simp add: distinct_map_filter)

end
