(* ===== verification/GoStrings.thy ===== *)
theory GoStrings
  imports Prelude "HOL-Library.Sublist" "HOL-Library.Char_ord"
begin

text \<open>
  Go strings and the parts of the standard library the program uses on them. A Go string is
  a sequence of bytes and \<open>len\<close> counts bytes, so a string is a \<open>char list\<close> with one
  \<open>char\<close> per byte. Modelled: \<open>strings.TrimSpace\<close> (with the Unicode White_Space runes
  in their UTF-8 encoding), \<open>strings.ToLower\<close> (its table for non-ASCII letters is a
  parameter), \<open>strings.Split\<close>, \<open>strings.Join\<close>, \<open>strings.HasPrefix\<close>,
  \<open>strings.TrimPrefix\<close>, \<open>strconv.FormatInt\<close>, \<open>strconv.ParseInt\<close> and
  \<open>strconv.Atoi\<close> in base 10 and 64 bits, and \<open>utf8.ValidString\<close>.
\<close>

section \<open>Trimming white space\<close>

text \<open>The runes for which \<open>unicode.IsSpace\<close> holds, in UTF-8.\<close>

definition space_runes :: "string list" where
  "space_runes =
     [[CHR 0x09], [CHR 0x0A], [CHR 0x0B], [CHR 0x0C], [CHR 0x0D], [CHR 0x20],
      [CHR 0xC2, CHR 0x85], [CHR 0xC2, CHR 0xA0], [CHR 0xE1, CHR 0x9A, CHR 0x80],
      [CHR 0xE2, CHR 0x80, CHR 0x80], [CHR 0xE2, CHR 0x80, CHR 0x81],
      [CHR 0xE2, CHR 0x80, CHR 0x82], [CHR 0xE2, CHR 0x80, CHR 0x83],
      [CHR 0xE2, CHR 0x80, CHR 0x84], [CHR 0xE2, CHR 0x80, CHR 0x85],
      [CHR 0xE2, CHR 0x80, CHR 0x86], [CHR 0xE2, CHR 0x80, CHR 0x87],
      [CHR 0xE2, CHR 0x80, CHR 0x88], [CHR 0xE2, CHR 0x80, CHR 0x89],
      [CHR 0xE2, CHR 0x80, CHR 0x8A], [CHR 0xE2, CHR 0x80, CHR 0xA8],
      [CHR 0xE2, CHR 0x80, CHR 0xA9], [CHR 0xE2, CHR 0x80, CHR 0xAF],
      [CHR 0xE2, CHR 0x81, CHR 0x9F], [CHR 0xE3, CHR 0x80, CHR 0x80]]"

text \<open>Strip any of the words of \<open>rs\<close> from the front as often as one is a prefix.\<close>

function trimLeftBy :: "string list \<Rightarrow> string \<Rightarrow> string" where
  "trimLeftBy rs s =
     (case find (\<lambda>r. r \<noteq> [] \<and> prefix r s) rs of
        None \<Rightarrow> s
      | Some r \<Rightarrow> trimLeftBy rs (drop (length r) s))"
  by pat_completeness auto
termination
proof (relation "measure (\<lambda>(rs, s). length s)")
  fix rs :: "string list" and s r :: string
  assume "find (\<lambda>r. r \<noteq> [] \<and> prefix r s) rs = Some r"
  then have "r \<noteq> []" and "prefix r s" by (auto dest: find_SomeD)
  then have "0 < length r" and "length r \<le> length s"
    by (simp_all add: prefix_length_le)
  then have "length (drop (length r) s) < length s"
    unfolding length_drop by linarith
  then show "((rs, drop (length r) s), rs, s) \<in> measure (\<lambda>(rs, s). length s)"
    by simp
qed simp

declare trimLeftBy.simps [simp del]

definition TrimSpace :: "string \<Rightarrow> string" where
  "TrimSpace s = rev (trimLeftBy (map rev space_runes) (rev (trimLeftBy space_runes s)))"

text \<open>No word of \<open>rs\<close> is left at the front.\<close>

definition clean_front :: "string list \<Rightarrow> string \<Rightarrow> bool" where
  "clean_front rs s \<longleftrightarrow> (\<forall>r \<in> set rs. r \<noteq> [] \<longrightarrow> \<not> prefix r s)"

lemma clean_front_trimLeftBy: "clean_front rs (trimLeftBy rs s)"
proof (induction rs s rule: trimLeftBy.induct)
  case (1 rs s)
  show ?case
  proof (cases "find (\<lambda>r. r \<noteq> [] \<and> prefix r s) rs")
    case None
    then have "clean_front rs s" by (auto simp: clean_front_def dest: find_NoneD)
    with None show ?thesis by (simp add: trimLeftBy.simps [of rs s])
  next
    case (Some r)
    with "1.IH" show ?thesis by (simp add: trimLeftBy.simps [of rs s])
  qed
qed

lemma trimLeftBy_clean: "clean_front rs s \<Longrightarrow> trimLeftBy rs s = s"
proof -
  assume "clean_front rs s"
  then have "find (\<lambda>r. r \<noteq> [] \<and> prefix r s) rs = None"
    by (auto simp: clean_front_def find_None_iff)
  then show ?thesis by (simp add: trimLeftBy.simps [of rs s])
qed

lemma suffix_trimLeftBy: "suffix (trimLeftBy rs s) s"
proof (induction rs s rule: trimLeftBy.induct)
  case (1 rs s)
  show ?case
  proof (cases "find (\<lambda>r. r \<noteq> [] \<and> prefix r s) rs")
    case None
    then show ?thesis by (simp add: trimLeftBy.simps [of rs s])
  next
    case (Some r)
    with "1.IH" have "suffix (trimLeftBy rs (drop (length r) s)) (drop (length r) s)" by simp
    then have "suffix (trimLeftBy rs (drop (length r) s)) s"
      by (rule suffix_order.trans [OF _ suffix_drop])
    with Some show ?thesis by (simp add: trimLeftBy.simps [of rs s])
  qed
qed

lemma clean_front_prefix: "clean_front rs s \<Longrightarrow> prefix t s \<Longrightarrow> clean_front rs t"
  unfolding clean_front_def by (meson prefix_order.trans)

lemma TrimSpace_prefix: "prefix (TrimSpace s) (trimLeftBy space_runes s)"
  unfolding TrimSpace_def
  by (metis rev_rev_ident suffix_to_prefix suffix_trimLeftBy)

lemma TrimSpace_clean:
  "clean_front space_runes (TrimSpace s)"
  "clean_front (map rev space_runes) (rev (TrimSpace s))"
  by (rule clean_front_prefix [OF clean_front_trimLeftBy TrimSpace_prefix])
     (simp add: TrimSpace_def clean_front_trimLeftBy)

lemma TrimSpace_idem [simp]: "TrimSpace (TrimSpace s) = TrimSpace s"
  using TrimSpace_clean [of s]
  by (simp add: TrimSpace_def [of "TrimSpace s"] trimLeftBy_clean)

lemma length_TrimSpace: "length (TrimSpace s) \<le> length s"
  by (meson TrimSpace_prefix order_trans prefix_length_le suffix_length_le suffix_trimLeftBy)

lemma TrimSpace_Nil [simp]: "TrimSpace [] = []"
  using length_TrimSpace [of "[]"] by simp

lemma set_TrimSpace: "set (TrimSpace s) \<subseteq> set s"
  by (meson TrimSpace_prefix order_trans set_mono_prefix set_mono_suffix suffix_trimLeftBy)

section \<open>Letter case\<close>

definition is_ascii :: "char \<Rightarrow> bool" where
  "is_ascii c \<longleftrightarrow> (of_char c :: nat) < 128"

definition lower_char :: "char \<Rightarrow> char" where
  "lower_char c = (let n = (of_char c :: nat) in
     if 65 \<le> n \<and> n \<le> 90 then char_of (n + 32) else c)"

text \<open>
  \<open>strings.ToLower\<close>: the ASCII path byte by byte; a string with other bytes goes through
  the Unicode tables, which are the parameter \<open>u\<close>.
\<close>

definition ToLower :: "(string \<Rightarrow> string) \<Rightarrow> string \<Rightarrow> string" where
  "ToLower u s = (if list_all is_ascii s then map lower_char s else u s)"

lemma is_ascii_lower_char [simp]: "is_ascii (lower_char c) \<longleftrightarrow> is_ascii c"
  by (auto simp: is_ascii_def lower_char_def Let_def)

lemma lower_char_idem [simp]: "lower_char (lower_char c) = lower_char c"
  by (auto simp: lower_char_def Let_def)

lemma ToLower_idem_ascii:
  "list_all is_ascii s \<Longrightarrow> ToLower u (ToLower u s) = ToLower u s"
  by (simp add: ToLower_def list_all_iff)

section \<open>Splitting, joining, prefixes\<close>

definition HasPrefix :: "string \<Rightarrow> string \<Rightarrow> bool" where
  "HasPrefix s p \<longleftrightarrow> prefix p s"

definition TrimPrefix :: "string \<Rightarrow> string \<Rightarrow> string" where
  "TrimPrefix s p = (if prefix p s then drop (length p) s else s)"

text \<open>\<open>strings.Split\<close> with a separator of one byte.\<close>

fun Split :: "string \<Rightarrow> char \<Rightarrow> string list" where
  "Split [] d = [[]]"
| "Split (c # cs) d =
     (if c = d then [] # Split cs d
      else (case Split cs d of [] \<Rightarrow> [[c]] | p # ps \<Rightarrow> (c # p) # ps))"

fun Join :: "string list \<Rightarrow> string \<Rightarrow> string" where
  "Join [] sep = []"
| "Join [x] sep = x"
| "Join (x # y # zs) sep = x @ sep @ Join (y # zs) sep"

lemma Split_nonempty [simp]: "Split s d \<noteq> []"
  by (induction s) (auto split: list.splits)

lemma Join_Split [simp]: "Join (Split s d) [d] = s"
proof (induction s)
  case (Cons c cs)
  then show ?case
    by (cases "Split cs d"; cases "tl (Split cs d)") auto
qed simp

lemma Split_no_sep: "p \<in> set (Split s d) \<Longrightarrow> d \<notin> set p"
  by (induction s arbitrary: p) (auto split: if_splits list.splits)

section \<open>Decimal integers\<close>

definition digit_char :: "nat \<Rightarrow> char" where
  "digit_char n = char_of (48 + n)"

definition is_digit :: "char \<Rightarrow> bool" where
  "is_digit c \<longleftrightarrow> 48 \<le> (of_char c :: nat) \<and> (of_char c :: nat) \<le> 57"

definition digit_val :: "char \<Rightarrow> nat" where
  "digit_val c = of_char c - 48"

fun show_nat :: "nat \<Rightarrow> string" where
  "show_nat n = (if n < 10 then [digit_char n] else show_nat (n div 10) @ [digit_char (n mod 10)])"

declare show_nat.simps [simp del]

text \<open>\<open>strconv.FormatInt(n, 10)\<close>, also \<open>strconv.Itoa\<close> and \<open>%d\<close>.\<close>

definition FormatInt :: "int \<Rightarrow> string" where
  "FormatInt n = (if n < 0 then CHR ''-'' # show_nat (nat (- n)) else show_nat (nat n))"

fun read_digits :: "nat \<Rightarrow> string \<Rightarrow> nat" where
  "read_digits acc [] = acc"
| "read_digits acc (c # cs) = read_digits (10 * acc + digit_val c) cs"

definition int64_min :: int where "int64_min = - (2 ^ 63)"
definition int64_max :: int where "int64_max = 2 ^ 63 - 1"

definition in_int64 :: "int \<Rightarrow> bool" where
  "in_int64 n \<longleftrightarrow> int64_min \<le> n \<and> n \<le> int64_max"

text \<open>
  \<open>strconv.ParseInt(s, 10, 64)\<close> and, on a 64-bit platform, \<open>strconv.Atoi\<close>: an
  optional sign, at least one digit, nothing else, and a value in range; \<open>None\<close> is any of
  the two errors (\<open>ErrSyntax\<close>, \<open>ErrRange\<close>).
\<close>

definition ParseInt :: "string \<Rightarrow> int option" where
  "ParseInt s =
     (let (neg, ds) = (case s of [] \<Rightarrow> (False, [])
                        | c # cs \<Rightarrow> if c = CHR ''-'' then (True, cs)
                                     else if c = CHR ''+'' then (False, cs) else (False, s))
      in if ds = [] \<or> \<not> list_all is_digit ds then None
         else let n = (if neg then - int (read_digits 0 ds) else int (read_digits 0 ds))
              in if in_int64 n then Some n else None)"

lemma of_char_digit_char [simp]: "n < 10 \<Longrightarrow> (of_char (digit_char n) :: nat) = 48 + n"
  by (simp add: digit_char_def)

lemma is_digit_digit_char [simp]: "n < 10 \<Longrightarrow> is_digit (digit_char n)"
  by (simp add: is_digit_def)

lemma digit_val_digit_char [simp]: "n < 10 \<Longrightarrow> digit_val (digit_char n) = n"
  by (simp add: digit_val_def)

lemma read_digits_append: "read_digits acc (xs @ ys) = read_digits (read_digits acc xs) ys"
  by (induction xs arbitrary: acc) auto

lemma show_nat_digits: "show_nat n \<noteq> [] \<and> list_all is_digit (show_nat n)"
proof (induction n rule: show_nat.induct)
  case (1 n)
  then show ?case by (cases "n < 10") (simp_all add: show_nat.simps [of n])
qed

lemma read_show_nat [simp]: "read_digits 0 (show_nat n) = n"
proof (induction n rule: show_nat.induct)
  case (1 n)
  then show ?case
    by (cases "n < 10") (simp_all add: show_nat.simps [of n] read_digits_append)
qed

lemma hd_show_nat: "show_nat n = c # cs \<Longrightarrow> c \<noteq> CHR ''-'' \<and> c \<noteq> CHR ''+''"
  using show_nat_digits [of n] by (auto simp: is_digit_def)

lemma ParseInt_FormatInt: "in_int64 n \<Longrightarrow> ParseInt (FormatInt n) = Some n"
proof (cases "n < 0")
  case True
  then show "in_int64 n \<Longrightarrow> ?thesis"
    using show_nat_digits [of "nat (- n)"] by (simp add: ParseInt_def FormatInt_def)
next
  case False
  then show "in_int64 n \<Longrightarrow> ?thesis"
    using show_nat_digits [of "nat n"] hd_show_nat [of "nat n"] read_show_nat [of "nat n"]
    by (cases "show_nat (nat n)") (auto simp: ParseInt_def FormatInt_def Let_def)
qed

lemma ParseInt_range: "ParseInt s = Some n \<Longrightarrow> in_int64 n"
  by (auto simp: ParseInt_def Let_def split: prod.splits if_splits)

lemma FormatInt_inj: "FormatInt m = FormatInt n \<Longrightarrow> m = n"
proof -
  have pos: "show_nat a = show_nat b \<Longrightarrow> a = b" for a b
    by (metis read_show_nat)
  have neg: "show_nat a \<noteq> CHR ''-'' # show_nat b" for a b
    using hd_show_nat [of a] by auto
  assume "FormatInt m = FormatInt n"
  then show ?thesis
    by (auto simp: FormatInt_def neg neg [symmetric] dest!: pos split: if_splits)
qed

section \<open>UTF-8 validity\<close>

definition utf8_cont :: "char \<Rightarrow> bool" where
  "utf8_cont c \<longleftrightarrow> (let n = (of_char c :: nat) in 128 \<le> n \<and> n \<le> 191)"

definition utf8_second3 :: "char \<Rightarrow> char \<Rightarrow> bool" where
  "utf8_second3 a b \<longleftrightarrow> (let m = (of_char a :: nat); n = (of_char b :: nat) in
     utf8_cont b \<and> (m = 224 \<longrightarrow> 160 \<le> n) \<and> (m = 237 \<longrightarrow> n \<le> 159))"

definition utf8_second4 :: "char \<Rightarrow> char \<Rightarrow> bool" where
  "utf8_second4 a b \<longleftrightarrow> (let m = (of_char a :: nat); n = (of_char b :: nat) in
     utf8_cont b \<and> (m = 240 \<longrightarrow> 144 \<le> n) \<and> (m = 244 \<longrightarrow> n \<le> 143))"

definition utf8_lead2 :: "char \<Rightarrow> bool" where
  "utf8_lead2 c \<longleftrightarrow> (let n = (of_char c :: nat) in 194 \<le> n \<and> n \<le> 223)"

definition utf8_lead3 :: "char \<Rightarrow> bool" where
  "utf8_lead3 c \<longleftrightarrow> (let n = (of_char c :: nat) in 224 \<le> n \<and> n \<le> 239)"

definition utf8_lead4 :: "char \<Rightarrow> bool" where
  "utf8_lead4 c \<longleftrightarrow> (let n = (of_char c :: nat) in 240 \<le> n \<and> n \<le> 244)"

fun utf8_valid :: "string \<Rightarrow> bool" where
  "utf8_valid [] = True"
| "utf8_valid (a # xs) =
     (if is_ascii a then utf8_valid xs
      else (case xs of [] \<Rightarrow> False
            | b # ys \<Rightarrow>
                if utf8_lead2 a then utf8_cont b \<and> utf8_valid ys
                else (case ys of [] \<Rightarrow> False
                      | c # zs \<Rightarrow>
                          if utf8_lead3 a then utf8_second3 a b \<and> utf8_cont c \<and> utf8_valid zs
                          else (case zs of [] \<Rightarrow> False
                                | d # us \<Rightarrow>
                                    utf8_lead4 a \<and> utf8_second4 a b \<and> utf8_cont c \<and>
                                    utf8_cont d \<and> utf8_valid us))))"

lemma utf8_valid_ascii: "list_all is_ascii s \<Longrightarrow> utf8_valid s"
  by (induction s) auto

lemma utf8_valid_ascii_Cons: "is_ascii a \<Longrightarrow> utf8_valid (a # s) = utf8_valid s"
  by simp

lemma utf8_valid_ascii_append: "list_all is_ascii s \<Longrightarrow> utf8_valid (s @ t) = utf8_valid t"
  by (induction s) auto

lemma is_ascii_digit: "is_digit c \<Longrightarrow> is_ascii c"
  by (simp add: is_digit_def is_ascii_def)

lemma ascii_FormatInt: "list_all is_ascii (FormatInt n)"
  using show_nat_digits [of "nat n"] show_nat_digits [of "nat (- n)"]
  by (auto simp: FormatInt_def list_all_iff is_ascii_digit) (simp add: is_ascii_def)

end
