(* ===== verification/GoErrors.thy ===== *)
theory GoErrors
  imports GoStrings
begin

text \<open>
  Go error values. An error is a datatype whose constructors are the ways the program makes
  one: a package-level sentinel, \<open>errors.New\<close>, \<open>fmt.Errorf\<close> with and without
  \<open>%w\<close>, the types \<open>apperror.PublicError\<close> and \<open>apperror.FieldValidationError\<close>
  (internal/apperror/error.go), and pgx's \<open>pgconn.PgError\<close>. \<open>errors.Is\<close> and
  \<open>errors.As\<close> walk the chain of wrapped errors. The constructors of the public errors of
  the packages user and auth (internal/user/errors.go, internal/auth/errors.go) are here too.
\<close>

datatype sentinel =
    ErrUserNotFound | ErrEmailAlreadyExists | ErrInvalidUserID | ErrInvalidUserInput
  | ErrInvalidCredentials | ErrUnauthorized | ErrRefreshTokenNotFound
  | PgxErrNoRows | RedisNil | ContextCanceled | DeadlineExceeded

text \<open>The texts given to \<open>errors.New\<close> where the sentinels are declared.\<close>

fun sentinel_text :: "sentinel \<Rightarrow> string" where
  "sentinel_text ErrUserNotFound = ''user not found''"
| "sentinel_text ErrEmailAlreadyExists = ''email already exists''"
| "sentinel_text ErrInvalidUserID = ''invalid user id''"
| "sentinel_text ErrInvalidUserInput = ''invalid user input''"
| "sentinel_text ErrInvalidCredentials = ''invalid credentials''"
| "sentinel_text ErrUnauthorized = ''unauthorized''"
| "sentinel_text ErrRefreshTokenNotFound = ''refresh token not found''"
| "sentinel_text PgxErrNoRows = ''no rows in result set''"
| "sentinel_text RedisNil = ''redis: nil''"
| "sentinel_text ContextCanceled = ''context canceled''"
| "sentinel_text DeadlineExceeded = ''context deadline exceeded''"

text \<open>A \<open>map[string]string\<close> of field messages, as an association list without duplicates.\<close>

type_synonym fields = "(string \<times> string) list"

datatype go_error =
    Sentinel sentinel
  | NewError string                                   \<comment> \<open>\<open>errors.New\<close>, \<open>fmt.Errorf\<close> without \<open>%w\<close>\<close>
  | Errorf string go_error string                     \<comment> \<open>\<open>fmt.Errorf("<prefix>%w<suffix>", err)\<close>\<close>
  | PublicError int string string "go_error option"   \<comment> \<open>\<open>Status\<close>, \<open>Code\<close>, \<open>Message\<close>, \<open>Err\<close>\<close>
  | FieldValidationError fields                       \<comment> \<open>\<open>Fields\<close>\<close>
  | PgError string string                             \<comment> \<open>\<open>Code\<close>, \<open>Message\<close>\<close>

section \<open>internal/apperror\<close>

text \<open>\<open>Error()\<close> of each kind of error.\<close>

fun Error :: "go_error \<Rightarrow> string" where
  "Error (Sentinel s) = sentinel_text s"
| "Error (NewError t) = t"
| "Error (Errorf p e q) = p @ Error e @ q"
| "Error (PublicError st c m None) = m"
| "Error (PublicError st c m (Some e)) = Error e"
| "Error (FieldValidationError fs) = ''validation failed''"
| "Error (PgError c m) = m"

text \<open>\<open>errors.Unwrap\<close>: the next error of the chain.\<close>

fun Unwrap :: "go_error \<Rightarrow> go_error option" where
  "Unwrap (Errorf p e q) = Some e"
| "Unwrap (PublicError st c m e) = e"
| "Unwrap _ = None"

definition WrapPublicError :: "int \<Rightarrow> string \<Rightarrow> string \<Rightarrow> go_error \<Rightarrow> go_error" where
  "WrapPublicError status code message err = PublicError status code message (Some err)"

definition NewFieldValidationError :: "fields \<Rightarrow> go_error" where
  "NewFieldValidationError fs = FieldValidationError fs"

section \<open>errors.Is and errors.As\<close>

fun chain :: "go_error \<Rightarrow> go_error list" where
  "chain (Errorf p e q) = Errorf p e q # chain e"
| "chain (PublicError st c m (Some e)) = PublicError st c m (Some e) # chain e"
| "chain e = [e]"

definition errors_Is :: "go_error \<Rightarrow> sentinel \<Rightarrow> bool" where
  "errors_Is e s \<longleftrightarrow> Sentinel s \<in> set (chain e)"

fun is_PublicError :: "go_error \<Rightarrow> bool" where
  "is_PublicError (PublicError _ _ _ _) = True"
| "is_PublicError _ = False"

fun is_FieldValidationError :: "go_error \<Rightarrow> bool" where
  "is_FieldValidationError (FieldValidationError _) = True"
| "is_FieldValidationError _ = False"

fun is_PgError :: "go_error \<Rightarrow> bool" where
  "is_PgError (PgError _ _) = True"
| "is_PgError _ = False"

definition errors_As :: "(go_error \<Rightarrow> bool) \<Rightarrow> go_error \<Rightarrow> go_error option" where
  "errors_As p e = find p (chain e)"

lemma errors_Is_Sentinel [simp]: "errors_Is (Sentinel s) t \<longleftrightarrow> s = t"
  by (auto simp: errors_Is_def)

lemma errors_Is_NewError [simp]: "\<not> errors_Is (NewError x) t"
  by (simp add: errors_Is_def)

lemma errors_Is_Errorf [simp]: "errors_Is (Errorf p e q) t \<longleftrightarrow> errors_Is e t"
  by (simp add: errors_Is_def)

lemma errors_Is_PublicError [simp]:
  "errors_Is (PublicError st c m (Some e)) t \<longleftrightarrow> errors_Is e t"
  "\<not> errors_Is (PublicError st c m None) t"
  by (simp_all add: errors_Is_def)

lemma errors_Is_other [simp]:
  "\<not> errors_Is (FieldValidationError fs) t" "\<not> errors_Is (PgError x y) t"
  by (simp_all add: errors_Is_def)

lemma errors_As_simps [simp]:
  "errors_As p (Sentinel s) = (if p (Sentinel s) then Some (Sentinel s) else None)"
  "errors_As p (NewError t) = (if p (NewError t) then Some (NewError t) else None)"
  "errors_As p (Errorf a e b) = (if p (Errorf a e b) then Some (Errorf a e b) else errors_As p e)"
  "errors_As p (PublicError st c m (Some e)) =
     (if p (PublicError st c m (Some e)) then Some (PublicError st c m (Some e)) else errors_As p e)"
  "errors_As p (PublicError st c m None) =
     (if p (PublicError st c m None) then Some (PublicError st c m None) else None)"
  "errors_As p (FieldValidationError fs) =
     (if p (FieldValidationError fs) then Some (FieldValidationError fs) else None)"
  "errors_As p (PgError x y) = (if p (PgError x y) then Some (PgError x y) else None)"
  by (simp_all add: errors_As_def)

lemma errors_As_Some: "errors_As p e = Some f \<Longrightarrow> p f \<and> f \<in> set (chain e)"
  by (auto simp: errors_As_def dest: find_SomeD)

section \<open>internal/user/errors.go\<close>

definition NewUserNotFoundError :: go_error where
  "NewUserNotFoundError =
     WrapPublicError 404 ''user_not_found'' ''User not found'' (Sentinel ErrUserNotFound)"

definition NewEmailAlreadyExistsError :: go_error where
  "NewEmailAlreadyExistsError =
     WrapPublicError 409 ''email_already_exists'' ''Email already exists''
       (Sentinel ErrEmailAlreadyExists)"

definition NewInvalidUserIDError :: go_error where
  "NewInvalidUserIDError =
     WrapPublicError 400 ''invalid_user_id'' ''Invalid user id'' (Sentinel ErrInvalidUserID)"

definition NewInvalidUserInputError :: go_error where
  "NewInvalidUserInputError =
     WrapPublicError 400 ''invalid_user_input'' ''Invalid user input'' (Sentinel ErrInvalidUserInput)"

section \<open>internal/auth/errors.go\<close>

definition NewRefreshTokenNotFoundError :: go_error where
  "NewRefreshTokenNotFoundError =
     WrapPublicError 404 ''refresh_token_not_found'' ''Refresh token not found''
       (Sentinel ErrRefreshTokenNotFound)"

definition NewInvalidCredentialsError :: go_error where
  "NewInvalidCredentialsError =
     WrapPublicError 401 ''invalid_credentials'' ''invalid email or password''
       (Sentinel ErrInvalidCredentials)"

definition NewUnauthorizedError :: go_error where
  "NewUnauthorizedError =
     WrapPublicError 401 ''unauthorized'' ''unauthorized'' (Sentinel ErrUnauthorized)"

lemmas public_error_defs =
  WrapPublicError_def NewUserNotFoundError_def NewEmailAlreadyExistsError_def
  NewInvalidUserIDError_def NewInvalidUserInputError_def NewRefreshTokenNotFoundError_def
  NewInvalidCredentialsError_def NewUnauthorizedError_def

section \<open>Wrapping\<close>

text \<open>\<open>fmt.Errorf("<prefix>: %w", err)\<close>\<close>

definition wrapf :: "string \<Rightarrow> go_error \<Rightarrow> go_error" where
  "wrapf p e = Errorf (p @ '': '') e []"

lemma errors_Is_wrapf [simp]: "errors_Is (wrapf p e) s \<longleftrightarrow> errors_Is e s"
  by (simp add: wrapf_def)

lemma errors_As_wrapf [simp]:
  "errors_As is_PublicError (wrapf p e) = errors_As is_PublicError e"
  "errors_As is_FieldValidationError (wrapf p e) = errors_As is_FieldValidationError e"
  "errors_As is_PgError (wrapf p e) = errors_As is_PgError e"
  by (simp_all add: wrapf_def)

end
