(* ===== verification/Json.thy ===== *)
theory Json
  imports GoErrors
begin

text \<open>
  JSON as the program uses encoding/json: a document is the value it denotes, \<open>Marshal\<close> of
  such a value writes its text, and decoding into a struct follows the struct's schema (field
  names and kinds): keys match exactly or up to case folding, \<open>null\<close> leaves a field alone,
  later keys override earlier ones, and the first error is reported at the end. A
  \<open>time.Time\<close> is a value of its own, for its RFC 3339 text.
\<close>

datatype json =
    JNull | JBool bool | JInt int | JFloat string | JString string | JTime int
  | JArray "json list" | JObject "(string \<times> json) list"

section \<open>Writing\<close>

text \<open>Length of the valid UTF-8 sequence a text starts with, 0 if there is none.\<close>

definition rune_len :: "string \<Rightarrow> nat" where
  "rune_len s =
     (if s = [] then 0
      else if utf8_valid (take 1 s) then 1
      else if length s \<ge> 2 \<and> utf8_valid (take 2 s) then 2
      else if length s \<ge> 3 \<and> utf8_valid (take 3 s) then 3
      else if length s \<ge> 4 \<and> utf8_valid (take 4 s) then 4 else 0)"

lemma rune_len_le: "rune_len s \<le> length s"
  by (cases s) (auto simp: rune_len_def)

definition hex_digit :: "nat \<Rightarrow> char" where
  "hex_digit n = ''0123456789abcdef'' ! (n mod 16)"

text \<open>How encoding/json writes one ASCII character of a string.\<close>

definition escape_char :: "char \<Rightarrow> string" where
  "escape_char c =
     (if c = CHR 0x22 then [CHR 0x5C, CHR 0x22]
      else if c = CHR 0x5C then [CHR 0x5C, CHR 0x5C]
      else if c = CHR 0x08 then [CHR 0x5C, CHR ''b'']
      else if c = CHR 0x0C then [CHR 0x5C, CHR ''f'']
      else if c = CHR 0x0A then [CHR 0x5C, CHR ''n'']
      else if c = CHR 0x0D then [CHR 0x5C, CHR ''r'']
      else if c = CHR 0x09 then [CHR 0x5C, CHR ''t'']
      else if (of_char c :: nat) < 32 \<or> c \<in> {CHR ''<'', CHR ''>'', CHR ''&''}
      then CHR 0x5C # ''u00'' @ [hex_digit (of_char c div 16), hex_digit (of_char c)]
      else [c])"

function escape :: "string \<Rightarrow> string" where
  "escape s =
     (if s = [] then []
      else if rune_len s = 0 then CHR 0x5C # ''ufffd'' @ escape (tl s)
      else if rune_len s = 1 then escape_char (hd s) @ escape (tl s)
      else if take 3 s = [CHR 0xE2, CHR 0x80, CHR 0xA8] then CHR 0x5C # ''u2028'' @ escape (drop 3 s)
      else if take 3 s = [CHR 0xE2, CHR 0x80, CHR 0xA9] then CHR 0x5C # ''u2029'' @ escape (drop 3 s)
      else take (rune_len s) s @ escape (drop (rune_len s) s))"
  by pat_completeness auto

termination
  by (relation "measure length") auto

declare escape.simps [simp del]

lemma escape_Nil [simp]: "escape [] = []"
  by (simp add: escape.simps)

lemma escape_ascii [simp]: "is_ascii c \<Longrightarrow> escape (c # s) = escape_char c @ escape s"
  by (subst escape.simps) (simp add: rune_len_def utf8_valid_ascii)

text \<open>A string as its JSON text denotes it: a byte that starts no rune becomes U+FFFD.\<close>

function valid_text :: "string \<Rightarrow> string" where
  "valid_text s =
     (if s = [] then []
      else if rune_len s = 0 then [CHR 0xEF, CHR 0xBF, CHR 0xBD] @ valid_text (tl s)
      else take (rune_len s) s @ valid_text (drop (rune_len s) s))"
  by pat_completeness auto

termination
  by (relation "measure length") auto

declare valid_text.simps [simp del]

lemma utf8_valid_rune:
  assumes "utf8_valid s" "s \<noteq> []"
  shows "rune_len s \<noteq> 0 \<and> utf8_valid (drop (rune_len s) s)"
proof -
  obtain a xs where s: "s = a # xs" using assms(2) by (cases s) auto
  have one: "utf8_valid [a] \<longleftrightarrow> is_ascii a" by simp
  show ?thesis
  proof (cases "is_ascii a")
    case True
    with assms(1) s show ?thesis by (simp add: rune_len_def)
  next
    case na: False
    with assms(1) s obtain b ys where xs: "xs = b # ys" by (cases xs) auto
    have two: "utf8_valid [a, b] \<longleftrightarrow> utf8_lead2 a \<and> utf8_cont b" using na by simp
    show ?thesis
    proof (cases "utf8_lead2 a")
      case True
      with assms(1) s xs na have v: "utf8_cont b" "utf8_valid ys" by auto
      with True two na have "rune_len s = 2" by (simp add: rune_len_def s xs numeral_2_eq_2)
      with v show ?thesis by (simp add: s xs numeral_2_eq_2)
    next
      case n2: False
      with assms(1) s xs na obtain c zs where ys: "ys = c # zs" by (cases ys) auto
      have three: "utf8_valid [a, b, c] \<longleftrightarrow> utf8_lead3 a \<and> utf8_second3 a b \<and> utf8_cont c"
        using na n2 by simp
      show ?thesis
      proof (cases "utf8_lead3 a")
        case True
        with assms(1) s xs ys na n2 have v: "utf8_second3 a b" "utf8_cont c" "utf8_valid zs" by auto
        with True three two na n2 have "rune_len s = 3"
          by (simp add: rune_len_def s xs ys numeral_2_eq_2 numeral_3_eq_3)
        with v show ?thesis by (simp add: s xs ys numeral_3_eq_3)
      next
        case n3: False
        with assms(1) s xs ys na n2 obtain d us where zs: "zs = d # us" by (cases zs) auto
        have v: "utf8_valid [a, b, c, d]" "utf8_valid us"
          using assms(1) s xs ys zs na n2 n3 by auto
        with one three two na n2 n3 have "rune_len s = 4"
          by (simp add: rune_len_def s xs ys zs numeral_2_eq_2 numeral_3_eq_3 eval_nat_numeral del: utf8_valid.simps)
        with v show ?thesis by (simp add: s xs ys zs eval_nat_numeral)
      qed
    qed
  qed
qed

lemma valid_text_valid [simp]: "utf8_valid s \<Longrightarrow> valid_text s = s"
proof (induction s rule: valid_text.induct)
  case (1 s)
  show ?case
  proof (cases "s = []")
    case False
    with utf8_valid_rune [OF 1(3)] 1(2) show ?thesis by (subst valid_text.simps) simp
  qed (simp add: valid_text.simps)
qed

definition quoted :: "string \<Rightarrow> string" where
  "quoted s = CHR 0x22 # escape s @ [CHR 0x22]"

text \<open>\<open>json.Marshal\<close>; the text of a time is a parameter.\<close>

fun Marshal :: "(int \<Rightarrow> string) \<Rightarrow> json \<Rightarrow> string"
  and Marshal_fields :: "(int \<Rightarrow> string) \<Rightarrow> (string \<times> json) list \<Rightarrow> string list"
  and Marshal_items :: "(int \<Rightarrow> string) \<Rightarrow> json list \<Rightarrow> string list" where
  "Marshal tt JNull = ''null''"
| "Marshal tt (JBool b) = (if b then ''true'' else ''false'')"
| "Marshal tt (JInt n) = FormatInt n"
| "Marshal tt (JFloat t) = t"
| "Marshal tt (JString s) = quoted s"
| "Marshal tt (JTime t) = quoted (tt t)"
| "Marshal tt (JArray js) = ''['' @ Join (Marshal_items tt js) '','' @ '']''"
| "Marshal tt (JObject kvs) = CHR 0x7B # Join (Marshal_fields tt kvs) '','' @ [CHR 0x7D]"
| "Marshal_fields tt [] = []"
| "Marshal_fields tt ((k, v) # kvs) = (quoted k @ '':'' @ Marshal tt v) # Marshal_fields tt kvs"
| "Marshal_items tt [] = []"
| "Marshal_items tt (j # js) = Marshal tt j # Marshal_items tt js"

text \<open>A time is marshalled in RFC 3339, which has years 0 to 9999 only.\<close>

definition json_time_ok :: "int \<Rightarrow> bool" where
  "json_time_ok t \<longleftrightarrow> -62167219200 * 10 ^ 9 \<le> t \<and> t < 253402300800 * 10 ^ 9"

section \<open>Decoding into a struct\<close>

datatype kind = KString | KInt nat | KTime

type_synonym struct_schema = "(string \<times> kind) list"

fun kind_ok :: "kind \<Rightarrow> json \<Rightarrow> bool" where
  "kind_ok KString (JString s) = True"
| "kind_ok (KInt bits) (JInt n) = (- (2 ^ (bits - 1)) \<le> n \<and> n < 2 ^ (bits - 1))"
| "kind_ok KTime (JTime t) = True"
| "kind_ok _ _ = False"

text \<open>Case folding of a key: ASCII case, and the two non-ASCII letters that fold to ASCII.\<close>

fun fold_name :: "string \<Rightarrow> string" where
  "fold_name [] = []"
| "fold_name (a # b # c # s) =
     (if [a, b, c] = [CHR 0xE2, CHR 0x84, CHR 0xAA] then CHR ''k'' # fold_name s
      else if [a, b] = [CHR 0xC5, CHR 0xBF] then CHR ''s'' # fold_name (c # s)
      else lower_char a # fold_name (b # c # s))"
| "fold_name (a # s) =
     (if a # s = [CHR 0xC5, CHR 0xBF] then ''s'' else lower_char a # fold_name s)"

definition find_field :: "struct_schema \<Rightarrow> string \<Rightarrow> (string \<times> kind) option" where
  "find_field sch k = (case find (\<lambda>(n, _). n = k) sch of
       Some f \<Rightarrow> Some f | None \<Rightarrow> find (\<lambda>(n, _). fold_name n = fold_name k) sch)"

text \<open>The errors of a decoder; \<open>UnknownField\<close> holds the quoted name.\<close>

datatype decode_error =
    SyntaxError | UnexpectedEOF | UnmarshalTypeError string | IoEOF | MaxBytesError
  | UnknownField string | OtherDecodeError string

type_synonym assignment = "string \<Rightarrow> json option"

definition first_error :: "decode_error option \<Rightarrow> decode_error \<Rightarrow> decode_error option" where
  "first_error err e = (case err of None \<Rightarrow> Some e | Some e' \<Rightarrow> Some e')"

fun decode_fields ::
  "(string \<Rightarrow> string) \<Rightarrow> bool \<Rightarrow> struct_schema \<Rightarrow> assignment \<Rightarrow> decode_error option \<Rightarrow>
     (string \<times> json) list \<Rightarrow> decode_error + assignment" where
  "decode_fields quote strict sch m err [] = (case err of None \<Rightarrow> Inr m | Some e \<Rightarrow> Inl e)"
| "decode_fields quote strict sch m err ((k, v) # kvs) =
     (case find_field sch k of
        None \<Rightarrow> decode_fields quote strict sch m
                  (if strict then first_error err (UnknownField (quote k)) else err) kvs
      | Some (n, kind) \<Rightarrow>
          if v = JNull then decode_fields quote strict sch m err kvs
          else if kind_ok kind v then decode_fields quote strict sch (m(n \<mapsto> v)) err kvs
          else decode_fields quote strict sch m (first_error err (UnmarshalTypeError n)) kvs)"

fun decode_struct :: "(string \<Rightarrow> string) \<Rightarrow> bool \<Rightarrow> struct_schema \<Rightarrow> json \<Rightarrow> decode_error + assignment" where
  "decode_struct quote strict sch (JObject kvs) = decode_fields quote strict sch (\<lambda>_. None) None kvs"
| "decode_struct quote strict sch JNull = Inr (\<lambda>_. None)"
| "decode_struct quote strict sch _ = Inl (UnmarshalTypeError '''')"

text \<open>The value of a field after decoding; the zero value if it was not assigned.\<close>

definition string_field :: "assignment \<Rightarrow> string \<Rightarrow> string" where
  "string_field m n = (case m n of Some (JString s) \<Rightarrow> s | _ \<Rightarrow> '''')"

definition int_field :: "assignment \<Rightarrow> string \<Rightarrow> int" where
  "int_field m n = (case m n of Some (JInt i) \<Rightarrow> i | _ \<Rightarrow> 0)"

definition time_field :: "assignment \<Rightarrow> string \<Rightarrow> int" where
  "time_field m n = (case m n of Some (JTime t) \<Rightarrow> t | _ \<Rightarrow> 0)"

lemma decode_fields_error [simp]: "decode_fields quote strict sch m (Some e) kvs \<noteq> Inr m'"
  by (induction kvs arbitrary: m) (auto simp: first_error_def split: option.splits if_splits)

text \<open>One step of a decoding that succeeds.\<close>

lemma decode_fields_step:
  assumes "decode_fields quote strict sch m None ((k, v) # kvs) = Inr m'"
  obtains (unknown) "find_field sch k = None" "\<not> strict" "decode_fields quote strict sch m None kvs = Inr m'"
    | (null) n kd where "find_field sch k = Some (n, kd)" "v = JNull"
        "decode_fields quote strict sch m None kvs = Inr m'"
    | (assigned) n kd where "find_field sch k = Some (n, kd)" "kind_ok kd v"
        "decode_fields quote strict sch (m(n \<mapsto> v)) None kvs = Inr m'"
  using assms by (auto simp: first_error_def split: option.splits if_splits)

text \<open>With unknown fields disallowed, a decoded object has known keys only.\<close>

lemma decode_fields_known:
  "decode_fields quote True sch m None kvs = Inr m' \<Longrightarrow> (k, v) \<in> set kvs \<Longrightarrow> find_field sch k \<noteq> None"
proof (induction kvs arbitrary: m)
  case (Cons kv kvs)
  obtain k' v' where kv: "kv = (k', v')" by (cases kv)
  from Cons.prems(1) show ?case unfolding kv
    by (cases rule: decode_fields_step) (use Cons.prems(2) Cons.IH kv in auto)
qed simp

text \<open>Every assigned field has the kind of the schema.\<close>

definition well_kinded :: "struct_schema \<Rightarrow> assignment \<Rightarrow> bool" where
  "well_kinded sch m \<longleftrightarrow> (\<forall>n v. m n = Some v \<longrightarrow> (\<exists>kd. (n, kd) \<in> set sch \<and> kind_ok kd v))"

lemma find_field_in: "find_field sch k = Some (n, kd) \<Longrightarrow> (n, kd) \<in> set sch"
  by (auto simp: find_field_def split: option.splits dest: find_SomeD)

lemma decode_fields_kinds:
  "decode_fields quote strict sch m None kvs = Inr m' \<Longrightarrow> well_kinded sch m \<Longrightarrow> well_kinded sch m'"
proof (induction kvs arbitrary: m)
  case (Cons kv kvs)
  obtain k' v' where kv: "kv = (k', v')" by (cases kv)
  from Cons.prems(1) show ?case unfolding kv
  proof (cases rule: decode_fields_step)
    case (assigned n kd)
    have "well_kinded sch (m(n \<mapsto> v'))"
      using Cons.prems(2) find_field_in [OF assigned(1)] assigned(2) by (auto simp: well_kinded_def)
    with Cons.IH assigned(3) show ?thesis by blast
  qed (use Cons in auto)
qed simp

lemma decode_struct_kinds: "decode_struct quote strict sch j = Inr m \<Longrightarrow> well_kinded sch m"
proof (cases j)
  case (JObject kvs)
  moreover assume "decode_struct quote strict sch j = Inr m"
  ultimately have "decode_fields quote strict sch (\<lambda>_. None) None kvs = Inr m" by simp
  then show ?thesis by (rule decode_fields_kinds) (simp add: well_kinded_def)
qed (auto simp: well_kinded_def)

end
