(* ===== verification/Model.thy ===== *)
theory Model
  imports Json
begin

text \<open>
  The data model: the Go structs that are stored or passed between components, one record
  each with the struct's fields in their order (field \<open>F\<close> of struct \<open>S\<close> is
  \<open>S_F\<close>), and the string constants of their packages. A \<open>time.Time\<close> is an
  integer number of nanoseconds, a nil pointer is \<open>None\<close>, an \<open>int64\<close>,
  \<open>int32\<close> or \<open>int\<close> that is only stored and compared is an integer.
\<close>

section \<open>internal/user: model.go, profile.go\<close>

type_synonym Role = string

definition RoleUser :: Role where "RoleUser = ''USER''"
definition RoleAdmin :: Role where "RoleAdmin = ''ADMIN''"

definition Role_IsValid :: "Role \<Rightarrow> bool" where
  "Role_IsValid r \<longleftrightarrow> r = RoleUser \<or> r = RoleAdmin"

record User =
  User_ID :: int
  User_Name :: string
  User_Email :: string
  User_Age :: int
  User_Role :: Role
  User_PasswordHash :: string
  User_CreatedAt :: int
  User_UpdatedAt :: int

record Profile =
  Profile_ID :: int
  Profile_UserID :: int
  Profile_Bio :: string
  Profile_CreatedAt :: int
  Profile_UpdatedAt :: int

text \<open>The zero values, from which a struct literal with omitted fields starts.\<close>

definition zero_User :: User where
  "zero_User = \<lparr>User_ID = 0, User_Name = '''', User_Email = '''', User_Age = 0, User_Role = '''',
     User_PasswordHash = '''', User_CreatedAt = 0, User_UpdatedAt = 0\<rparr>"

definition zero_Profile :: Profile where
  "zero_Profile = \<lparr>Profile_ID = 0, Profile_UserID = 0, Profile_Bio = '''',
     Profile_CreatedAt = 0, Profile_UpdatedAt = 0\<rparr>"

section \<open>internal/user/dto.go: responses\<close>

record UserResponse =
  UserResponse_ID :: int
  UserResponse_Name :: string
  UserResponse_Email :: string
  UserResponse_Age :: int
  UserResponse_Role :: Role
  UserResponse_CreatedAt :: int
  UserResponse_UpdatedAt :: int

record ProfileResponse =
  ProfileResponse_ID :: int
  ProfileResponse_UserID :: int
  ProfileResponse_Bio :: string
  ProfileResponse_CreatedAt :: int
  ProfileResponse_UpdatedAt :: int

definition ToResponse :: "User \<Rightarrow> UserResponse" where
  "ToResponse u = \<lparr>UserResponse_ID = User_ID u, UserResponse_Name = User_Name u,
     UserResponse_Email = User_Email u, UserResponse_Age = User_Age u,
     UserResponse_Role = User_Role u, UserResponse_CreatedAt = User_CreatedAt u,
     UserResponse_UpdatedAt = User_UpdatedAt u\<rparr>"

definition ProfileToResponse :: "Profile \<Rightarrow> ProfileResponse" where
  "ProfileToResponse p = \<lparr>ProfileResponse_ID = Profile_ID p,
     ProfileResponse_UserID = Profile_UserID p, ProfileResponse_Bio = Profile_Bio p,
     ProfileResponse_CreatedAt = Profile_CreatedAt p,
     ProfileResponse_UpdatedAt = Profile_UpdatedAt p\<rparr>"

text \<open>The loop appends one response per user, in order.\<close>

fun ToResponseList_loop :: "UserResponse list \<Rightarrow> User list \<Rightarrow> UserResponse list" where
  "ToResponseList_loop res [] = res"
| "ToResponseList_loop res (u # us) = ToResponseList_loop (res @ [ToResponse u]) us"

definition ToResponseList :: "User list \<Rightarrow> UserResponse list" where
  "ToResponseList users = ToResponseList_loop [] users"

lemma ToResponseList_map [simp]: "ToResponseList us = map ToResponse us"
proof -
  have "ToResponseList_loop res us = res @ map ToResponse us" for res
    by (induction us arbitrary: res) auto
  then show ?thesis by (simp add: ToResponseList_def)
qed

section \<open>internal/auth/refresh_token.go\<close>

record RefreshToken =
  RefreshToken_ID :: int
  RefreshToken_UserID :: int
  RefreshToken_TokenHash :: string
  RefreshToken_ExpiresAt :: int
  RefreshToken_RevokedAt :: "int option"
  RefreshToken_CreatedAt :: int

definition zero_RefreshToken :: RefreshToken where
  "zero_RefreshToken = \<lparr>RefreshToken_ID = 0, RefreshToken_UserID = 0,
     RefreshToken_TokenHash = '''', RefreshToken_ExpiresAt = 0, RefreshToken_RevokedAt = None,
     RefreshToken_CreatedAt = 0\<rparr>"

definition RefreshToken_IsExpired :: "RefreshToken \<Rightarrow> int \<Rightarrow> bool" where
  "RefreshToken_IsExpired t now \<longleftrightarrow> \<not> (RefreshToken_ExpiresAt t > now)"

definition RefreshToken_IsRevoked :: "RefreshToken \<Rightarrow> bool" where
  "RefreshToken_IsRevoked t \<longleftrightarrow> RefreshToken_RevokedAt t \<noteq> None"

definition RefreshToken_IsActive :: "RefreshToken \<Rightarrow> int \<Rightarrow> bool" where
  "RefreshToken_IsActive t now \<longleftrightarrow> \<not> RefreshToken_IsRevoked t \<and> \<not> RefreshToken_IsExpired t now"

section \<open>internal/outbox/model.go\<close>

text \<open>
  \<open>type Status string\<close> with its four constants, and the empty string, which is the zero
  value of the type; the column's check constraint admits the four constants only.
\<close>

datatype Status = StatusUnset | StatusNew | StatusProcessing | StatusProcessed | StatusFailed

fun Status_text :: "Status \<Rightarrow> string" where
  "Status_text StatusUnset = []"
| "Status_text StatusNew = ''NEW''"
| "Status_text StatusProcessing = ''PROCESSING''"
| "Status_text StatusProcessed = ''PROCESSED''"
| "Status_text StatusFailed = ''FAILED''"

definition AggregateUser :: string where "AggregateUser = ''user''"
definition ContentTypeJSON :: string where "ContentTypeJSON = ''application/json''"
definition ContentTypeProtobuf :: string where "ContentTypeProtobuf = ''application/x-protobuf''"
definition EventTypeUserRegistered :: string where "EventTypeUserRegistered = ''user.registered''"
definition EventTypeUserUpdated :: string where "EventTypeUserUpdated = ''user.updated''"
definition EventTypeUserDeleted :: string where "EventTypeUserDeleted = ''user.deleted''"

record OutboxEvent =
  OutboxEvent_ID :: int
  OutboxEvent_EventType :: string
  OutboxEvent_AggregateType :: string
  OutboxEvent_AggregateID :: string
  OutboxEvent_Payload :: string
  OutboxEvent_ContentType :: string
  OutboxEvent_ProtoMessage :: string
  OutboxEvent_EventVersion :: string
  OutboxEvent_Status :: Status
  OutboxEvent_Attempts :: int
  OutboxEvent_LastError :: "string option"
  OutboxEvent_LockedAt :: "int option"
  OutboxEvent_ProcessedAt :: "int option"
  OutboxEvent_CreatedAt :: int

text \<open>A literal \<open>outbox.Event\<close> with the fields the writers set; the rest is zero.\<close>

definition new_OutboxEvent ::
  "string \<Rightarrow> string \<Rightarrow> string \<Rightarrow> string \<Rightarrow> string \<Rightarrow> string \<Rightarrow> string \<Rightarrow> OutboxEvent" where
  "new_OutboxEvent eventType aggregateType aggregateID payload contentType protoMessage eventVersion =
     \<lparr>OutboxEvent_ID = 0, OutboxEvent_EventType = eventType,
      OutboxEvent_AggregateType = aggregateType, OutboxEvent_AggregateID = aggregateID,
      OutboxEvent_Payload = payload, OutboxEvent_ContentType = contentType,
      OutboxEvent_ProtoMessage = protoMessage, OutboxEvent_EventVersion = eventVersion,
      OutboxEvent_Status = StatusUnset, OutboxEvent_Attempts = 0, OutboxEvent_LastError = None,
      OutboxEvent_LockedAt = None, OutboxEvent_ProcessedAt = None, OutboxEvent_CreatedAt = 0\<rparr>"

section \<open>internal/audit/model.go, internal/kafkaconsumer/model.go\<close>

record UserAuditEvent =
  UserAuditEvent_ID :: int
  UserAuditEvent_SourceEventID :: string
  UserAuditEvent_UserID :: int
  UserAuditEvent_EventType :: string
  UserAuditEvent_Payload :: string
  UserAuditEvent_CreatedAt :: int

record KafkaEvent =
  KafkaEvent_EventID :: string
  KafkaEvent_EventType :: string
  KafkaEvent_AggregateType :: string
  KafkaEvent_AggregateID :: string
  KafkaEvent_ContentType :: string
  KafkaEvent_ProtoMessage :: string
  KafkaEvent_EventVersion :: string
  KafkaEvent_Payload :: string
  KafkaEvent_Topic :: string
  KafkaEvent_Partition :: int
  KafkaEvent_Offset :: int

text \<open>A row of \<open>processed_kafka_events\<close> (migrations/007).\<close>

record ProcessedRow =
  ProcessedRow_EventID :: string
  ProcessedRow_Topic :: string
  ProcessedRow_Partition :: int
  ProcessedRow_Offset :: int
  ProcessedRow_EventType :: string
  ProcessedRow_ProcessedAt :: int

section \<open>Kafka records\<close>

text \<open>\<open>kgo.Record\<close>: the fields the program writes and reads.\<close>

record KafkaRecord =
  Record_Topic :: string
  Record_Key :: string
  Record_Value :: string
  Record_Headers :: "(string \<times> string) list"
  Record_Timestamp :: int
  Record_Partition :: int
  Record_Offset :: int

section \<open>internal/eventcodec, internal/gen/events/user/v1\<close>

record UserRegistered =
  UserRegistered_UserId :: int
  UserRegistered_Email :: string
  UserRegistered_Role :: string

definition ProtoMessageUserRegistered :: string where
  "ProtoMessageUserRegistered = ''events.user.v1.UserRegistered''"

definition EventVersionV1 :: string where "EventVersionV1 = ''v1''"

text \<open>\<open>proto.Marshal\<close> and \<open>proto.Unmarshal\<close> on this message are parameters.\<close>

definition MarshalUserRegistered ::
  "(UserRegistered \<Rightarrow> go_error + string) \<Rightarrow> int \<Rightarrow> string \<Rightarrow> string \<Rightarrow> go_error + string" where
  "MarshalUserRegistered marshal userID email role =
     (case marshal \<lparr>UserRegistered_UserId = userID, UserRegistered_Email = email,
                     UserRegistered_Role = role\<rparr> of
        Inl err \<Rightarrow> Inl (wrapf ''marshal user registered protobuf'' err)
      | Inr data \<Rightarrow> Inr data)"

definition UnmarshalUserRegistered ::
  "(string \<Rightarrow> go_error + UserRegistered) \<Rightarrow> string \<Rightarrow> go_error + UserRegistered" where
  "UnmarshalUserRegistered unmarshal data =
     (case unmarshal data of
        Inl err \<Rightarrow> Inl (wrapf ''unmarshal user registered protobuf'' err)
      | Inr payload \<Rightarrow> Inr payload)"

end
