(* ===== verification/Database.thy ===== *)
theory Database
  imports Model
begin

text \<open>
  The world the program runs against, and how a call to an external service behaves. The
  PostgreSQL tables of migrations/ are lists of rows (the Go structs with the columns'
  values), the sequences behind their bigserial keys are kept apart because an aborted
  transaction does not give its numbers back, Redis is a map with expiry times, Kafka is
  the log of the produced records and the committed offsets.

  Every call to a service first takes the next entry of \<open>plan\<close>, which says how much time
  passes and whether the call succeeds, is lost before it is executed, or is executed
  without its reply arriving. Theorems quantify over the plan, so they hold for every
  timing and every failure of the services; an empty plan is a run without failures.
\<close>

section \<open>Tables\<close>

record tables =
  users :: "User list"
  user_profiles :: "Profile list"
  refresh_tokens :: "RefreshToken list"
  outbox_events :: "OutboxEvent list"
  processed_kafka_events :: "ProcessedRow list"
  user_audit_events :: "UserAuditEvent list"

text \<open>The last value each sequence has given.\<close>

record sequences =
  users_id_seq :: int
  user_profiles_id_seq :: int
  refresh_tokens_id_seq :: int
  outbox_events_id_seq :: int
  user_audit_events_id_seq :: int

section \<open>The world\<close>

text \<open>
  What happens to a call: it is answered, it does not reach the service, or the service
  executes it and the answer does not come back (a broken connection, a timeout). The client
  sees an error with the given text, which is none of the program's own errors.
\<close>

datatype fault = Fine | Lost string | Unacked string

definition io_error :: "string \<Rightarrow> go_error" where [simp]:
  "io_error t = NewError t"

record outcome =
  elapsed :: nat
  fault :: fault

text \<open>
  A Redis value: a string (GET, SET), for a JSON text the document it denotes, or the integer
  kept by INCR; and its expiry time.
\<close>

datatype redis_value = RedisString string | RedisJson json | RedisInt int

record redis_entry =
  redis_value :: redis_value
  redis_expires :: "int option"

record world =
  db :: tables
  seqs :: sequences
  tx :: "(int \<times> tables) option"   \<comment> \<open>open transaction: its start time, the tables to go back to\<close>
  clock :: int
  plan :: "outcome list"
  entropy :: "(string + string) list"   \<comment> \<open>the next reads of crypto/rand: the text of an error or the bytes\<close>
  redis :: "string \<Rightarrow> redis_entry option"
  topic_log :: "KafkaRecord list"
  committed :: "string \<times> int \<Rightarrow> int option"   \<comment> \<open>offset a partition is consumed up to\<close>
  counters :: "string \<times> string list \<Rightarrow> nat"   \<comment> \<open>Prometheus counters by name and labels\<close>

type_synonym 'a prog = "(world, go_error, 'a) program"

definition empty_tables :: tables where
  "empty_tables = \<lparr>users = [], user_profiles = [], refresh_tokens = [], outbox_events = [],
     processed_kafka_events = [], user_audit_events = []\<rparr>"

definition empty_world :: world where
  "empty_world = \<lparr>db = empty_tables,
     seqs = \<lparr>users_id_seq = 0, user_profiles_id_seq = 0, refresh_tokens_id_seq = 0,
             outbox_events_id_seq = 0, user_audit_events_id_seq = 0\<rparr>,
     tx = None, clock = 0, plan = [], entropy = [], redis = (\<lambda>_. None), topic_log = [],
     committed = (\<lambda>_. None), counters = (\<lambda>_. 0)\<rparr>"

definition upd_db :: "(tables \<Rightarrow> tables) \<Rightarrow> world \<Rightarrow> world" where [simp]:
  "upd_db f w = w\<lparr>db := f (db w)\<rparr>"

section \<open>Calls to a service\<close>

definition next_outcome :: "world \<Rightarrow> fault \<times> world" where
  "next_outcome w = (case plan w of [] \<Rightarrow> (Fine, w)
     | oc # ocs \<Rightarrow> (fault oc, w\<lparr>clock := clock w + int (elapsed oc), plan := ocs\<rparr>))"

definition external :: "'a prog \<Rightarrow> 'a prog" where
  "external f w =
     (case next_outcome w of (oc, w') \<Rightarrow>
        (case oc of Fine \<Rightarrow> f w' | Lost t \<Rightarrow> (Inl (io_error t), w')
         | Unacked t \<Rightarrow> (Inl (io_error t), snd (f w'))))"

text \<open>
  PostgreSQL refuses a text parameter that is not valid UTF-8 or holds a zero byte
  (SQLSTATE 22021); otherwise the statement \<open>f\<close> runs.
\<close>

definition pg_text :: "string \<Rightarrow> bool" where
  "pg_text s \<longleftrightarrow> utf8_valid s \<and> CHR 0x00 \<notin> set s"

definition bad_text_error :: go_error where
  "bad_text_error = PgError ''22021'' ''invalid byte sequence for encoding''"

definition sql :: "string list \<Rightarrow> 'a prog \<Rightarrow> 'a prog" where
  "sql params f =
     external (\<lambda>w. if list_all pg_text params then f w else (Inl bad_text_error, w))"

text \<open>\<open>now()\<close> is the start of the transaction, or of the statement outside one.\<close>

definition pg_now :: "world \<Rightarrow> int" where
  "pg_now w = (case tx w of Some (t, _) \<Rightarrow> t | None \<Rightarrow> clock w)"

section \<open>Transactions\<close>

definition abort_tx :: "world \<Rightarrow> world" where
  "abort_tx w = (case tx w of None \<Rightarrow> w | Some (_, saved) \<Rightarrow> w\<lparr>db := saved, tx := None\<rparr>)"

text \<open>A connection whose BEGIN was not acknowledged is closed, and its transaction with it.\<close>

definition pg_Begin :: "unit prog" where
  "pg_Begin w =
     (case next_outcome w of (oc, w') \<Rightarrow>
        (case oc of Fine \<Rightarrow> (Inr (), w'\<lparr>tx := Some (clock w', db w')\<rparr>)
         | Lost t \<Rightarrow> (Inl (io_error t), w') | Unacked t \<Rightarrow> (Inl (io_error t), w')))"

text \<open>A lost COMMIT aborts with the connection; an unacknowledged one has committed.\<close>

definition pg_Commit :: "unit prog" where
  "pg_Commit w =
     (case next_outcome w of (oc, w') \<Rightarrow>
        (case oc of Fine \<Rightarrow> (Inr (), w'\<lparr>tx := None\<rparr>)
         | Lost t \<Rightarrow> (Inl (io_error t), abort_tx w')
         | Unacked t \<Rightarrow> (Inl (io_error t), w'\<lparr>tx := None\<rparr>)))"

text \<open>Whether or not the ROLLBACK gets through, the transaction is over.\<close>

definition pg_Rollback :: "unit prog" where
  "pg_Rollback w =
     (case next_outcome w of (oc, w') \<Rightarrow>
        (case oc of Fine \<Rightarrow> (Inr (), abort_tx w')
         | Lost t \<Rightarrow> (Inl (io_error t), abort_tx w')
         | Unacked t \<Rightarrow> (Inl (io_error t), abort_tx w')))"

section \<open>Facts about calls\<close>

lemma next_outcome_empty: "plan w = [] \<Longrightarrow> next_outcome w = (Fine, w)"
  by (simp add: next_outcome_def)

lemma next_outcome_form: "\<exists>oc c p. next_outcome w = (oc, w\<lparr>clock := c, plan := p\<rparr>) \<and> clock w \<le> c"
proof (cases "plan w")
  case Nil
  then have "next_outcome w = (Fine, w\<lparr>clock := clock w, plan := plan w\<rparr>)"
    by (simp add: next_outcome_def)
  then show ?thesis by (metis order_refl)
next
  case (Cons oc ocs)
  then show ?thesis by (auto simp: next_outcome_def)
qed

lemma next_outcome_same:
  "v (snd (next_outcome w)) = v w" if "\<And>w c p. v (w\<lparr>clock := c, plan := p\<rparr>) = v w"
  using next_outcome_form [of w] that by auto

lemma external_empty: "plan w = [] \<Longrightarrow> external f w = f w"
  by (simp add: external_def next_outcome_empty)

lemma sql_empty:
  "plan w = [] \<Longrightarrow> sql ps f w = (if list_all pg_text ps then f w else (Inl bad_text_error, w))"
  by (simp add: sql_def external_empty)

lemma external_InrD:
  assumes "external f w = (Inr a, w')"
  obtains c p where "f (w\<lparr>clock := c, plan := p\<rparr>) = (Inr a, w')" and "clock w \<le> c"
  using assms next_outcome_form [of w]
  by (auto simp: external_def split: fault.splits)

lemma external_cases:
  assumes "external f w = (r, w')"
  obtains (run) c p where "f (w\<lparr>clock := c, plan := p\<rparr>) = (r, w')" and "clock w \<le> c"
    | (lost) c p t where "r = Inl (io_error t)" and "w' = w\<lparr>clock := c, plan := p\<rparr>" and "clock w \<le> c"
    | (unacked) c p t where "r = Inl (io_error t)" and "w' = snd (f (w\<lparr>clock := c, plan := p\<rparr>))"
        and "clock w \<le> c"
  using assms next_outcome_form [of w]
  by (auto simp: external_def split: fault.splits)

lemma sql_InrD:
  assumes "sql ps f w = (Inr a, w')"
  obtains c p where "f (w\<lparr>clock := c, plan := p\<rparr>) = (Inr a, w')" and "clock w \<le> c"
    and "list_all pg_text ps"
  using assms unfolding sql_def
  by (auto elim!: external_InrD split: if_splits)

text \<open>A predicate that time and the plan do not matter to.\<close>

definition timeless :: "(world \<Rightarrow> bool) \<Rightarrow> bool" where
  "timeless I \<longleftrightarrow> (\<forall>w c p. I w \<longrightarrow> I (w\<lparr>clock := c, plan := p\<rparr>))"

lemma timelessI: "(\<And>w c p. I w \<Longrightarrow> I (w\<lparr>clock := c, plan := p\<rparr>)) \<Longrightarrow> timeless I"
  by (simp add: timeless_def)

lemma keeps_external [keeps_intros]:
  assumes "timeless I" and "keeps I f"
  shows "keeps I (external f)"
proof (rule keepsI)
  fix w assume I: "I w"
  from next_outcome_form [of w] obtain oc c p
    where n: "next_outcome w = (oc, w\<lparr>clock := c, plan := p\<rparr>)" by auto
  from I assms(1) have "I (w\<lparr>clock := c, plan := p\<rparr>)" by (simp add: timeless_def)
  with assms(2) n show "I (snd (external f w))"
    by (cases oc) (simp_all add: external_def keeps_def)
qed

lemma keeps_sql [keeps_intros]:
  assumes "timeless I" and "keeps I f"
  shows "keeps I (sql ps f)"
  unfolding sql_def
  by (rule keeps_external [OF assms(1)]) (use assms(2) in \<open>simp add: keeps_def\<close>)

lemma frame_external [frame_intros]:
  assumes "\<And>w c p. v (w\<lparr>clock := c, plan := p\<rparr>) = v w" and "frame v f"
  shows "frame v (external f)"
proof (rule frameI)
  fix w
  from next_outcome_form [of w] obtain oc c p
    where "next_outcome w = (oc, w\<lparr>clock := c, plan := p\<rparr>)" by auto
  with assms show "v (snd (external f w)) = v w"
    by (cases oc) (simp_all add: external_def frame_def)
qed

lemma frame_sql [frame_intros]:
  assumes "\<And>w c p. v (w\<lparr>clock := c, plan := p\<rparr>) = v w" and "frame v f"
  shows "frame v (sql ps f)"
  unfolding sql_def
  by (rule frame_external [OF assms(1)]) (use assms(2) in \<open>simp add: frame_def\<close>)

text \<open>
  An error of a call is the answer of the statement, a refused parameter or an
  \<open>io_error\<close>, so it carries a sentinel only if the statement answered with it.
\<close>

lemma sql_InlE:
  assumes "sql ps f w = (Inl e, w')"
  obtains (run) c p where "f (w\<lparr>clock := c, plan := p\<rparr>) = (Inl e, w')" and "clock w \<le> c"
    | (bad_text) c p where "e = bad_text_error" and "w' = w\<lparr>clock := c, plan := p\<rparr>"
    | (io) t where "e = io_error t"
  using assms unfolding sql_def
  by (auto elim!: external_cases split: if_splits)

section \<open>Programs that touch the database, the clock, the plan and the entropy only\<close>

definition db_step :: "world \<Rightarrow> world \<Rightarrow> bool" where
  "db_step w w' \<longleftrightarrow> tx w' = tx w \<and> redis w' = redis w \<and> topic_log w' = topic_log w \<and>
     committed w' = committed w \<and> counters w' = counters w \<and> clock w \<le> clock w'"

definition db_only :: "'a prog \<Rightarrow> bool" where
  "db_only m \<longleftrightarrow> (\<forall>w. db_step w (snd (m w)))"

named_theorems db_only_intros "rules by which a program touches the database only"

lemma db_step_refl [simp]: "db_step w w"
  by (simp add: db_step_def)

lemma db_step_trans: "db_step a b \<Longrightarrow> db_step b c \<Longrightarrow> db_step a c"
  by (auto simp: db_step_def)

lemma db_onlyI: "(\<And>w. db_step w (snd (m w))) \<Longrightarrow> db_only m"
  by (simp add: db_only_def)

lemma db_onlyD: "db_only m \<Longrightarrow> m w = (r, w') \<Longrightarrow> db_step w w'"
  by (auto simp: db_only_def dest: spec [where x = w])

lemma db_only_ret [db_only_intros, simp]: "db_only (ret a)"
  by (simp add: db_only_def ret_def)

lemma db_only_throw [db_only_intros, simp]: "db_only (throw a)"
  by (simp add: db_only_def throw_def)

lemma db_only_mapErr [db_only_intros]: "db_only m \<Longrightarrow> db_only (mapErr g m)"
  unfolding db_only_def mapErr_def by (simp add: split_beta split: sum.splits)

lemma db_only_attempt [db_only_intros]:
  assumes "db_only m" and "\<And>r. db_only (k r)"
  shows "db_only (attempt m k)"
  using assms unfolding db_only_def attempt_def
  by (simp add: split_beta) (meson db_step_trans)

lemma andThen_attempt:
  "andThen m f = attempt m (\<lambda>r. case r of Inl e \<Rightarrow> throw e | Inr a \<Rightarrow> f a)"
  by (auto simp: andThen_def attempt_def throw_def fun_eq_iff split: prod.splits sum.splits)

lemma db_only_sum [db_only_intros]:
  "(\<And>e. r = Inl e \<Longrightarrow> db_only (f e)) \<Longrightarrow> (\<And>a. r = Inr a \<Longrightarrow> db_only (g a)) \<Longrightarrow>
     db_only (case r of Inl e \<Rightarrow> f e | Inr a \<Rightarrow> g a)"
  by (cases r) auto

lemma db_only_andThen [db_only_intros]:
  "db_only m \<Longrightarrow> (\<And>a. db_only (f a)) \<Longrightarrow> db_only (andThen m f)"
  unfolding andThen_attempt by (intro db_only_attempt db_only_sum) simp_all

lemma db_only_if [db_only_intros]:
  "(b \<Longrightarrow> db_only m) \<Longrightarrow> (\<not> b \<Longrightarrow> db_only n) \<Longrightarrow> db_only (if b then m else n)"
  by simp

lemma db_only_option [db_only_intros]:
  "(x = None \<Longrightarrow> db_only m) \<Longrightarrow> (\<And>a. x = Some a \<Longrightarrow> db_only (g a)) \<Longrightarrow>
     db_only (case x of None \<Rightarrow> m | Some a \<Rightarrow> g a)"
  by (cases x) auto

lemma db_only_prod [db_only_intros]:
  "(\<And>a b. p = (a, b) \<Longrightarrow> db_only (f a b)) \<Longrightarrow> db_only (case p of (a, b) \<Rightarrow> f a b)"
  by (cases p) auto

lemma db_only_external [db_only_intros]:
  assumes "db_only f"
  shows "db_only (external f)"
proof (rule db_onlyI)
  fix w
  from next_outcome_form [of w] obtain oc c p
    where n: "next_outcome w = (oc, w\<lparr>clock := c, plan := p\<rparr>)" and c: "clock w \<le> c" by auto
  let ?w = "w\<lparr>clock := c, plan := p\<rparr>"
  have 0: "db_step w ?w" using c by (simp add: db_step_def)
  from assms have "db_step ?w (snd (f ?w))" by (simp add: db_only_def)
  then have "db_step w (snd (f ?w))" by (rule db_step_trans [OF 0])
  with n 0 show "db_step w (snd (external f w))"
    by (cases oc) (auto simp: external_def)
qed

lemma db_only_sql [db_only_intros]:
  assumes "db_only f"
  shows "db_only (sql ps f)"
  unfolding sql_def
  by (rule db_only_external) (use assms in \<open>simp add: db_only_def\<close>)

lemma db_only_frames:
  assumes "db_only m"
  shows "frame tx m" "frame redis m" "frame topic_log m" "frame committed m" "frame counters m"
  using assms by (simp_all add: db_only_def db_step_def frame_def)

lemma db_only_clock: "db_only m \<Longrightarrow> m w = (r, w') \<Longrightarrow> clock w \<le> clock w'"
  by (auto dest!: db_onlyD simp: db_step_def)

section \<open>Facts about transactions\<close>

lemma pg_Begin_cases:
  assumes "pg_Begin w = (r, w')"
  obtains (begun) c p where "r = Inr ()" "w' = w\<lparr>clock := c, plan := p, tx := Some (c, db w)\<rparr>"
      "clock w \<le> c"
    | (failed) c p t where "r = Inl (io_error t)" and "w' = w\<lparr>clock := c, plan := p\<rparr>" "clock w \<le> c"
  using assms next_outcome_form [of w]
  by (auto simp: pg_Begin_def split: fault.splits)

lemma pg_Begin_empty:
  "plan w = [] \<Longrightarrow> pg_Begin w = (Inr (), w\<lparr>tx := Some (clock w, db w)\<rparr>)"
  by (simp add: pg_Begin_def next_outcome_empty)

lemma pg_Commit_empty: "plan w = [] \<Longrightarrow> pg_Commit w = (Inr (), w\<lparr>tx := None\<rparr>)"
  by (simp add: pg_Commit_def next_outcome_empty)

lemma pg_Rollback_empty: "plan w = [] \<Longrightarrow> pg_Rollback w = (Inr (), abort_tx w)"
  by (simp add: pg_Rollback_def next_outcome_empty)

lemma pg_Commit_cases:
  assumes "pg_Commit w = (r, w')"
  obtains (committed) c p where "w' = w\<lparr>clock := c, plan := p, tx := None\<rparr>" "clock w \<le> c"
    | (aborted) c p t where "r = Inl (io_error t)" "w' = abort_tx (w\<lparr>clock := c, plan := p\<rparr>)" "clock w \<le> c"
  using assms next_outcome_form [of w]
  by (auto simp: pg_Commit_def split: fault.splits)

lemma pg_Commit_InrD:
  assumes "pg_Commit w = (Inr u, w')"
  obtains c p where "w' = w\<lparr>clock := c, plan := p, tx := None\<rparr>" "clock w \<le> c"
  using assms next_outcome_form [of w]
  by (auto simp: pg_Commit_def split: fault.splits)

lemma pg_Rollback_cases:
  assumes "pg_Rollback w = (r, w')"
  obtains c p where "w' = abort_tx (w\<lparr>clock := c, plan := p\<rparr>)" "clock w \<le> c"
  using assms next_outcome_form [of w]
  by (auto simp: pg_Rollback_def split: fault.splits)

lemma abort_tx_Some: "tx w = Some (t, saved) \<Longrightarrow> abort_tx w = w\<lparr>db := saved, tx := None\<rparr>"
  by (simp add: abort_tx_def)

end
