(* ===== verification/Transactions.thy ===== *)
theory Transactions
  imports Database
begin

text \<open>
  Transactions as the program runs them: \<open>run_tx\<close> is the shape the three \<open>WithinTx\<close>
  methods share (begin, run the closure, roll back on its error, commit otherwise), and the
  locale \<open>tx_factory\<close> is the contract their clients rely on. The packages auth, user and
  kafkaconsumer each interpret it on their own method.
\<close>

definition run_tx ::
  "(go_error \<Rightarrow> go_error) \<Rightarrow> (go_error \<Rightarrow> go_error) \<Rightarrow> (go_error + unit \<Rightarrow> go_error \<Rightarrow> go_error) \<Rightarrow>
     'a prog \<Rightarrow> 'a prog" where
  "run_tx onBegin onCommit onRollback body =
     andThen (mapErr onBegin pg_Begin) (\<lambda>_.
       attempt body (\<lambda>r. case r of
           Inl err \<Rightarrow> attempt pg_Rollback (\<lambda>rb. throw (onRollback rb err))
         | Inr a \<Rightarrow> andThen (mapErr onCommit pg_Commit) (\<lambda>_. ret a)))"

text \<open>The state in which the closure starts, and the state after a commit.\<close>

definition started :: "int \<Rightarrow> outcome list \<Rightarrow> world \<Rightarrow> world" where
  "started c p w = w\<lparr>clock := c, plan := p, tx := Some (c, db w)\<rparr>"

definition ended :: "int \<Rightarrow> outcome list \<Rightarrow> world \<Rightarrow> world" where
  "ended c p w = w\<lparr>clock := c, plan := p, tx := None\<rparr>"

lemma started_simps [simp]:
  "db (started c p w) = db w" "seqs (started c p w) = seqs w" "clock (started c p w) = c"
  "tx (started c p w) = Some (c, db w)" "redis (started c p w) = redis w" "plan (started c p w) = p"
  "topic_log (started c p w) = topic_log w" "committed (started c p w) = committed w"
  "counters (started c p w) = counters w" "entropy (started c p w) = entropy w"
  by (simp_all add: started_def)

lemma ended_simps [simp]:
  "db (ended c p w) = db w" "seqs (ended c p w) = seqs w" "clock (ended c p w) = c"
  "tx (ended c p w) = None" "redis (ended c p w) = redis w" "plan (ended c p w) = p"
  "topic_log (ended c p w) = topic_log w" "committed (ended c p w) = committed w"
  "counters (ended c p w) = counters w" "entropy (ended c p w) = entropy w"
  by (simp_all add: ended_def)

section \<open>The contract of a transaction runner\<close>

text \<open>
  \<open>run\<close> is the runner applied to a closure, \<open>uncertain\<close> the errors after which the
  client cannot know whether its transaction was committed.
\<close>

locale tx_factory =
  fixes run :: "'a prog \<Rightarrow> 'a prog"
    and uncertain :: "go_error \<Rightarrow> bool"
  assumes run_Inr: "run body w = (Inr a, w') \<Longrightarrow>
      \<exists>c p w1 c' p'. clock w \<le> c \<and> body (started c p w) = (Inr a, w1) \<and> w' = ended c' p' w1"
    and run_Inl: "frame tx body \<Longrightarrow> run body w = (Inl e, w') \<Longrightarrow> \<not> uncertain e \<Longrightarrow>
      (\<exists>c p. w' = w\<lparr>clock := c, plan := p\<rparr>) \<or>
      (\<exists>c p err w1 c' p'. clock w \<le> c \<and> body (started c p w) = (Inl err, w1) \<and>
         errors_As is_PublicError e = errors_As is_PublicError err \<and>
         (\<forall>s. errors_Is e s = errors_Is err s) \<and>
         w' = (ended c' p' w1)\<lparr>db := db w\<rparr>)"
    and run_uncertain: "frame tx body \<Longrightarrow> run body w = (Inl e, w') \<Longrightarrow> uncertain e \<Longrightarrow>
      (\<exists>c p r w1 c' p'. clock w \<le> c \<and> body (started c p w) = (r, w1) \<and>
         (w' = (ended c' p' w1)\<lparr>db := db w\<rparr> \<or> (w' = ended c' p' w1 \<and> (\<exists>a. r = Inr a))))"
    and run_ok: "plan w = [] \<Longrightarrow> body (started (clock w) [] w) = (Inr a, w1) \<Longrightarrow> plan w1 = [] \<Longrightarrow>
      run body w = (Inr a, w1\<lparr>tx := None\<rparr>)"
    and run_err: "plan w = [] \<Longrightarrow> frame tx body \<Longrightarrow>
      body (started (clock w) [] w) = (Inl err, w1) \<Longrightarrow> plan w1 = [] \<Longrightarrow>
      run body w = (Inl err, w1\<lparr>tx := None, db := db w\<rparr>)"
begin

text \<open>An error that is not about the commit leaves the tables as they were.\<close>

lemma atomic:
  assumes "frame tx body" and "run body w = (Inl e, w')" and "\<not> uncertain e"
  shows "db w' = db w"
  using run_Inl [OF assms] by auto

lemma all_or_nothing:
  assumes "frame tx body" and "run body w = (r, w')"
  shows "db w' = db w \<or>
    (\<exists>c p a w1. clock w \<le> c \<and> body (started c p w) = (Inr a, w1) \<and> db w' = db w1)"
proof (cases r)
  case (Inl e)
  with assms have run: "run body w = (Inl e, w')" by simp
  show ?thesis
  proof (cases "uncertain e")
    case True
    then show ?thesis using run_uncertain [OF assms(1) run] by fastforce
  next
    case False
    then show ?thesis using atomic [OF assms(1) run] by simp
  qed
next
  case (Inr a)
  with assms run_Inr [of body w a w'] show ?thesis by fastforce
qed

text \<open>The result with it: done and answered, done at a commit that failed, or not done and an error.\<close>

lemma run_outcome:
  assumes fr: "frame tx body" and run: "run body w = (r, w')"
  obtains (nothing) e where "r = Inl e" "db w' = db w"
    | (ran) c p a w1 where "clock w \<le> c" "body (started c p w) = (Inr a, w1)" "db w' = db w1"
        "r = Inr a \<or> (\<exists>e. r = Inl e \<and> uncertain e)"
proof (cases r)
  case (Inr a)
  from run_Inr [OF run [unfolded Inr]] obtain c p w1 c' p' where
    "clock w \<le> c" "body (started c p w) = (Inr a, w1)" "w' = ended c' p' w1" by blast
  then show ?thesis using ran [of c p a w1] Inr by simp
next
  case (Inl e)
  show ?thesis
  proof (cases "uncertain e")
    case True
    from all_or_nothing [OF fr run] show ?thesis
    proof (elim disjE exE conjE)
      assume "db w' = db w"
      with Inl show thesis by (rule nothing)
    next
      fix c p a w1
      assume "clock w \<le> c" "body (started c p w) = (Inr a, w1)" "db w' = db w1"
      then show thesis by (rule ran) (use Inl True in auto)
    qed
  next
    case False
    with atomic [OF fr run [unfolded Inl]] have "db w' = db w" by simp
    with Inl show ?thesis by (rule nothing)
  qed
qed

text \<open>
  An invariant of tables and sequences that only asks the sequences to be large enough is
  kept, whatever way the transaction ends.
\<close>

lemma run_keeps:
  assumes fr: "frame tx body"
    and body: "\<And>s. keeps (\<lambda>w. J (db w) (seqs w) \<and> ge (seqs w) s) body"
    and ge: "\<And>s. ge s s"
    and mono: "\<And>d s s'. J d s \<Longrightarrow> ge s' s \<Longrightarrow> J d s'"
  shows "keeps (\<lambda>w. J (db w) (seqs w)) (run body)"
proof (rule keepsI)
  fix w :: world
  assume J: "J (db w) (seqs w)"
  have step: "J (db w1) (seqs w1) \<and> J (db w) (seqs w1)"
    if "body (started c p w) = (r, w1)" for c p r w1
    using keepsD [OF body [of "seqs w"] that] J ge mono by (auto simp: started_def)
  obtain r w' where run: "run body w = (r, w')" by (cases "run body w")
  have "J (db w') (seqs w')"
  proof (cases r)
    case (Inr a)
    with run run_Inr [of body w a w'] show ?thesis using step by (auto simp: ended_def)
  next
    case (Inl e)
    with run have run: "run body w = (Inl e, w')" by simp
    show ?thesis
    proof (cases "uncertain e")
      case True
      from run_uncertain [OF fr run True] show ?thesis using step by (auto simp: ended_def)
    next
      case False
      from run_Inl [OF fr run False] show ?thesis using step J by (auto simp: ended_def)
    qed
  qed
  with run show "J (db (snd (run body w))) (seqs (snd (run body w)))" by simp
qed

text \<open>No transaction is left open.\<close>

lemma run_closes:
  assumes fr: "frame tx body" and run: "run body w = (r, w')" and "tx w = None"
  shows "tx w' = None"
proof (cases r)
  case (Inr a)
  with run run_Inr [of body w a w'] show ?thesis by auto
next
  case (Inl e)
  with run have run: "run body w = (Inl e, w')" by simp
  show ?thesis
  proof (cases "uncertain e")
    case True
    from run_uncertain [OF fr run True] show ?thesis by auto
  next
    case False
    from run_Inl [OF fr run False] assms(3) show ?thesis by auto
  qed
qed

text \<open>Parts of the state that neither the closure nor the transaction touches.\<close>

lemma run_frame:
  assumes fr: "frame tx body" and v: "frame v body"
    and inv: "\<And>w c p. v (w\<lparr>clock := c, plan := p\<rparr>) = v w"
      "\<And>w x. v (w\<lparr>tx := x\<rparr>) = v w" "\<And>w d. v (w\<lparr>db := d\<rparr>) = v w"
  shows "frame v (run body)"
proof (rule frameI)
  fix w
  obtain r w' where run: "run body w = (r, w')" by (cases "run body w")
  have st: "v (started c p w) = v w" for c p
    using inv(2) [where w = "w\<lparr>clock := c, plan := p\<rparr>" and x = "Some (c, db w)"] inv(1) by (simp add: started_def)
  have en: "v (ended c p w1) = v w1" for c p w1
    using inv(2) [where w = "w1\<lparr>clock := c, plan := p\<rparr>" and x = None] inv(1) by (simp add: ended_def)
  have step: "v w1 = v w" if "body (started c p w) = (r, w1)" for c p r w1
    using frameD [OF v that] st by simp
  have "v w' = v w"
  proof (cases r)
    case (Inr a)
    with run run_Inr [of body w a w'] show ?thesis using step en by auto
  next
    case (Inl e)
    with run have run: "run body w = (Inl e, w')" by simp
    show ?thesis
    proof (cases "uncertain e")
      case True
      from run_uncertain [OF fr run True] show ?thesis using step en inv(3) by auto
    next
      case False
      from run_Inl [OF fr run False] show ?thesis using step en inv by auto
    qed
  qed
  with run show "v (snd (run body w)) = v w" by simp
qed

end

section \<open>The shared shape meets the contract\<close>

lemma pg_Begin_started:
  "plan w = [] \<Longrightarrow> pg_Begin w = (Inr (), started (clock w) [] w)"
  by (cases w) (simp add: pg_Begin_def next_outcome_def started_def)

lemma run_tx_InlE:
  assumes fr: "frame tx body" and run: "run_tx onBegin onCommit onRollback body w = (Inl e, w')"
  obtains (nobegin) c p err where "e = onBegin err" "w' = w\<lparr>clock := c, plan := p\<rparr>"
    | (rolled) c p err w1 c' p' rb where "clock w \<le> c" "body (started c p w) = (Inl err, w1)"
        "e = onRollback rb err" "w' = (ended c' p' w1)\<lparr>db := db w\<rparr>"
    | (commit) c p a w1 c' p' err where "clock w \<le> c" "body (started c p w) = (Inr a, w1)"
        "e = onCommit err"
        "w' = (ended c' p' w1)\<lparr>db := db w\<rparr> \<or> w' = ended c' p' w1"
proof -
  obtain r0 w0 where bg: "pg_Begin w = (r0, w0)" by (cases "pg_Begin w")
  then show thesis
  proof (cases rule: pg_Begin_cases)
    case (failed c p err)
    with run bg show ?thesis
      by (auto simp: run_tx_def andThen_def mapErr_def intro: nobegin)
  next
    case (begun c p)
    then have w0: "pg_Begin w = (Inr (), started c p w)"
      using bg by (simp add: started_def)
    obtain r1 w1 where b: "body (started c p w) = (r1, w1)" by (cases "body (started c p w)")
    with fr have t: "tx w1 = Some (c, db w)" by (auto dest: frameD)
    show ?thesis
    proof (cases r1)
      case (Inl err)
      obtain rb w2 where r: "pg_Rollback w1 = (rb, w2)" by (cases "pg_Rollback w1")
      then obtain c' p' where "w2 = abort_tx (w1\<lparr>clock := c', plan := p'\<rparr>)"
        by (rule pg_Rollback_cases)
      with t have "w2 = (ended c' p' w1)\<lparr>db := db w\<rparr>" by (simp add: abort_tx_def ended_def)
      with run w0 b Inl r \<open>clock w \<le> c\<close> show ?thesis
        by (auto simp: run_tx_def andThen_def mapErr_def attempt_def intro: rolled)
    next
      case (Inr a)
      obtain rc w2 where r: "pg_Commit w1 = (rc, w2)" by (cases "pg_Commit w1")
      then obtain c' p' where
        "w2 = abort_tx (w1\<lparr>clock := c', plan := p'\<rparr>) \<or> w2 = w1\<lparr>clock := c', plan := p', tx := None\<rparr>"
        by (cases rule: pg_Commit_cases) auto
      with t have w2: "w2 = (ended c' p' w1)\<lparr>db := db w\<rparr> \<or> w2 = ended c' p' w1"
        by (auto simp: abort_tx_def ended_def)
      from run w0 b Inr have "andThen (mapErr onCommit pg_Commit) (\<lambda>_. ret a) w1 = (Inl e, w')"
        by (simp add: run_tx_def andThen_def [of "mapErr onBegin pg_Begin"] mapErr_def [of onBegin]
            attempt_def)
      with r obtain err where "rc = Inl err" "e = onCommit err" "w' = w2"
        by (auto elim!: andThen_InlE mapErr_InlE)
      with b Inr w2 \<open>clock w \<le> c\<close> show ?thesis by (auto intro: commit)
    qed
  qed
qed

lemma run_tx_factory:
  assumes cm: "\<And>e. uncertain (onCommit e)" and bg: "\<And>e. \<not> uncertain (onBegin e)"
    and rb: "\<And>x e. errors_As is_PublicError (onRollback x e) = errors_As is_PublicError e"
      "\<And>x e s. errors_Is (onRollback x e) s = errors_Is e s"
      "\<And>e. onRollback (Inr ()) e = e"
  shows "tx_factory (run_tx onBegin onCommit onRollback) uncertain"
proof (unfold_locales, goal_cases)
  case (1 body w a w')
  then obtain u w0 r w1 where 0: "pg_Begin w = (Inr u, w0)" and 1: "body w0 = (r, w1)"
    and 2: "(case r of Inl err \<Rightarrow> attempt pg_Rollback (\<lambda>rb. throw (onRollback rb err))
         | Inr a \<Rightarrow> andThen (mapErr onCommit pg_Commit) (\<lambda>_. ret a)) w1 = (Inr a, w')"
    unfolding run_tx_def by (auto elim!: andThen_InrE attemptE dest!: mapErr_InrD)
  then have r: "r = Inr a" and c: "\<exists>v. pg_Commit w1 = (Inr v, w')"
    by (auto elim!: andThen_InrE attemptE dest!: mapErr_InrD split: sum.splits)
  from 0 obtain c p where w0: "w0 = started c p w" "clock w \<le> c"
    by (cases rule: pg_Begin_cases) (auto simp: started_def)
  from c obtain c' p' where "w' = ended c' p' w1"
    by (auto elim: pg_Commit_InrD simp: ended_def)
  with w0 1 r show ?case by blast
next
  case (2 body w e w')
  from 2(1,2) show ?case
  proof (cases rule: run_tx_InlE)
    case (commit c p a w1 c' p' err)
    with cm 2(3) show ?thesis by simp
  next
    case (rolled c p err w1 c' p' rb')
    with rb(1,2) show ?thesis by blast
  qed blast
next
  case (3 body w e w')
  from 3(1,2) show ?case
  proof (cases rule: run_tx_InlE)
    case (nobegin c p err)
    with bg 3(3) show ?thesis by simp
  qed blast+
next
  case (4 w body a w1)
  then show ?case
    by (simp add: run_tx_def andThen_def mapErr_def attempt_def pg_Begin_started pg_Commit_empty
        ret_def)
next
  case (5 w body err w1)
  then have "tx w1 = Some (clock w, db w)" by (auto simp: started_def dest: frameD)
  with 5 rb(3) show ?case
    by (simp add: run_tx_def andThen_def mapErr_def attempt_def pg_Begin_started
        pg_Rollback_empty throw_def abort_tx_def)
qed

end
