(* ===== verification/Schema.thy ===== *)
theory Schema
  imports Transactions
begin

text \<open>
  The constraints of the tables of migrations/ (primary keys, unique columns, foreign keys,
  check constraints) as an executable predicate, with the agreement between the bigserial
  keys and their sequences. Every statement and every operation of the services keeps it;
  \<open>consistent s\<close> adds that the sequences have not gone back below \<open>s\<close>, which is what
  an aborted transaction needs.
\<close>

definition serial_ok :: "int list \<Rightarrow> int \<Rightarrow> bool" where
  "serial_ok ids mx \<longleftrightarrow> distinct ids \<and> 0 \<le> mx \<and> list_all (\<lambda>i. 1 \<le> i \<and> i \<le> mx) ids"

definition users_ok :: "User list \<Rightarrow> int \<Rightarrow> bool" where
  "users_ok us mx \<longleftrightarrow> serial_ok (map User_ID us) mx \<and> distinct (map User_Email us) \<and>
     list_all (\<lambda>u. Role_IsValid (User_Role u)) us"

definition profiles_ok :: "Profile list \<Rightarrow> User list \<Rightarrow> int \<Rightarrow> bool" where
  "profiles_ok ps us mx \<longleftrightarrow> serial_ok (map Profile_ID ps) mx \<and>
     distinct (map Profile_UserID ps) \<and>
     list_all (\<lambda>p. Profile_UserID p \<in> set (map User_ID us)) ps"

definition tokens_ok :: "RefreshToken list \<Rightarrow> User list \<Rightarrow> int \<Rightarrow> bool" where
  "tokens_ok ts us mx \<longleftrightarrow> serial_ok (map RefreshToken_ID ts) mx \<and>
     distinct (map RefreshToken_TokenHash ts) \<and>
     list_all (\<lambda>t. RefreshToken_UserID t \<in> set (map User_ID us)) ts"

definition outbox_row_ok :: "OutboxEvent \<Rightarrow> bool" where
  "outbox_row_ok e \<longleftrightarrow> OutboxEvent_Status e \<noteq> StatusUnset \<and> 0 \<le> OutboxEvent_Attempts e \<and>
     OutboxEvent_ContentType e \<in> {ContentTypeJSON, ContentTypeProtobuf} \<and>
     (OutboxEvent_ContentType e \<noteq> ContentTypeProtobuf \<or> OutboxEvent_ProtoMessage e \<noteq> '''')"

definition outbox_ok :: "OutboxEvent list \<Rightarrow> int \<Rightarrow> bool" where
  "outbox_ok es mx \<longleftrightarrow> serial_ok (map OutboxEvent_ID es) mx \<and> list_all outbox_row_ok es"

definition processed_ok :: "ProcessedRow list \<Rightarrow> bool" where
  "processed_ok rs \<longleftrightarrow> distinct (map ProcessedRow_EventID rs)"

definition audit_ok :: "UserAuditEvent list \<Rightarrow> int \<Rightarrow> bool" where
  "audit_ok as mx \<longleftrightarrow> serial_ok (map UserAuditEvent_ID as) mx \<and>
     distinct (map UserAuditEvent_SourceEventID as)"

definition schema_ok :: "tables \<Rightarrow> sequences \<Rightarrow> bool" where
  "schema_ok d s \<longleftrightarrow>
     users_ok (users d) (users_id_seq s) \<and>
     profiles_ok (user_profiles d) (users d) (user_profiles_id_seq s) \<and>
     tokens_ok (refresh_tokens d) (users d) (refresh_tokens_id_seq s) \<and>
     outbox_ok (outbox_events d) (outbox_events_id_seq s) \<and>
     processed_ok (processed_kafka_events d) \<and>
     audit_ok (user_audit_events d) (user_audit_events_id_seq s)"

definition seq_ge :: "sequences \<Rightarrow> sequences \<Rightarrow> bool" where
  "seq_ge s' s \<longleftrightarrow> users_id_seq s \<le> users_id_seq s' \<and>
     user_profiles_id_seq s \<le> user_profiles_id_seq s' \<and>
     refresh_tokens_id_seq s \<le> refresh_tokens_id_seq s' \<and>
     outbox_events_id_seq s \<le> outbox_events_id_seq s' \<and>
     user_audit_events_id_seq s \<le> user_audit_events_id_seq s'"

definition consistent :: "sequences \<Rightarrow> world \<Rightarrow> bool" where
  "consistent s w \<longleftrightarrow> schema_ok (db w) (seqs w) \<and> seq_ge (seqs w) s"

lemmas schema_defs =
  schema_ok_def users_ok_def profiles_ok_def tokens_ok_def outbox_ok_def processed_ok_def audit_ok_def

lemma seq_ge_refl [simp]: "seq_ge s s"
  by (simp add: seq_ge_def)

lemma seq_ge_trans: "seq_ge c b \<Longrightarrow> seq_ge b a \<Longrightarrow> seq_ge c a"
  by (auto simp: seq_ge_def)

lemma serial_ok_mono: "serial_ok ids n \<Longrightarrow> n \<le> m \<Longrightarrow> serial_ok ids m"
  by (auto simp: serial_ok_def list_all_iff)

lemma serial_ok_next: "serial_ok ids n \<Longrightarrow> serial_ok (ids @ [n + 1]) (n + 1)"
  by (auto simp: serial_ok_def list_all_iff)

lemma serial_ok_subset: "serial_ok (map k rs) n \<Longrightarrow> serial_ok (map k (filter p rs)) n"
  by (auto simp: serial_ok_def list_all_iff distinct_map_filter)

lemma schema_ok_mono: "schema_ok d s \<Longrightarrow> seq_ge s' s \<Longrightarrow> schema_ok d s'"
  by (auto simp: schema_defs seq_ge_def elim: serial_ok_mono)

lemma timeless_consistent [simp, keeps_intros]: "timeless (consistent s)"
  by (rule timelessI) (simp add: consistent_def)

lemma consistent_schema: "consistent s w \<Longrightarrow> schema_ok (db w) (seqs w)"
  by (simp add: consistent_def)

lemma schema_consistent: "schema_ok (db w) (seqs w) \<Longrightarrow> consistent (seqs w) w"
  by (simp add: consistent_def)

lemma empty_world_schema [simp]: "schema_ok (db empty_world) (seqs empty_world)"
  by (simp add: empty_world_def empty_tables_def schema_defs serial_ok_def)

text \<open>A program that only reads, or changes neither tables nor sequences, is consistent.\<close>

lemma consistent_frame: "frame db m \<Longrightarrow> frame seqs m \<Longrightarrow> keeps (consistent s) m"
  by (simp add: keeps_def frame_def consistent_def)

context tx_factory
begin

lemma run_consistent:
  assumes "frame tx body" and body: "\<And>s. keeps (consistent s) body"
  shows "keeps (consistent s) (run body)"
proof -
  have "keeps (\<lambda>w. (schema_ok (db w) (seqs w) \<and> seq_ge (seqs w) s) \<and> seq_ge (seqs w) s') body" for s'
    using body unfolding keeps_def consistent_def by blast
  then have "keeps (\<lambda>w. schema_ok (db w) (seqs w) \<and> seq_ge (seqs w) s) (run body)"
    by (rule run_keeps [OF assms(1), where J = "\<lambda>d q. schema_ok d q \<and> seq_ge q s" and ge = seq_ge])
      (auto elim: schema_ok_mono seq_ge_trans)
  then show ?thesis by (simp add: keeps_def consistent_def)
qed

end

end
