(* ===== verification/User_Repository.thy ===== *)
theory User_Repository
  imports Schema
begin

text \<open>
  internal/user/repository.go and internal/user/postgres_repository.go: the interface
  \<open>Repository\<close> as a record of its methods, and the PostgreSQL implementation, each method
  as the effect of its statement on the table \<open>users\<close> (or \<open>user_profiles\<close>), the scan
  of the returned columns and the translation of the error. The database's ILIKE and the
  order of its collation are the parameter \<open>pg_locale\<close>.
\<close>

record pg_locale =
  pg_ilike :: "string \<Rightarrow> string \<Rightarrow> bool"   \<comment> \<open>text, pattern\<close>
  pg_collate :: "string \<Rightarrow> int"           \<comment> \<open>rank of a text in the collation order\<close>

section \<open>The interface\<close>

record ListUsersFilter =
  ListUsersFilter_Limit :: int
  ListUsersFilter_Offset :: int
  ListUsersFilter_Email :: string
  ListUsersFilter_Sort :: string

record ListUsersResult =
  ListUsersResult_Users :: "User list"
  ListUsersResult_Total :: int

record Repository =
  Repository_Create :: "User \<Rightarrow> User prog"
  Repository_FindByID :: "int \<Rightarrow> User prog"
  Repository_FindAll :: "User list prog"
  Repository_List :: "ListUsersFilter \<Rightarrow> ListUsersResult prog"
  Repository_Update :: "User \<Rightarrow> User prog"
  Repository_Delete :: "int \<Rightarrow> unit prog"
  Repository_ExistsByEmail :: "string \<Rightarrow> bool prog"
  Repository_FindByEmail :: "string \<Rightarrow> User prog"
  Repository_CreateProfile :: "Profile \<Rightarrow> Profile prog"

section \<open>The statements\<close>

definition unique_violation :: "string \<Rightarrow> go_error" where
  "unique_violation m = PgError ''23505'' m"

definition foreign_key_violation :: "string \<Rightarrow> go_error" where
  "foreign_key_violation m = PgError ''23503'' m"

definition check_violation :: "string \<Rightarrow> go_error" where
  "check_violation m = PgError ''23514'' m"

text \<open>\<open>insert into users (name, email, age, password_hash, role) values (...)\<close>\<close>

definition insert_users :: "string \<Rightarrow> string \<Rightarrow> int \<Rightarrow> string \<Rightarrow> Role \<Rightarrow> User prog" where
  "insert_users name email age password_hash role w =
     (let i = users_id_seq (seqs w) + 1;
          w1 = w\<lparr>seqs := (seqs w)\<lparr>users_id_seq := i\<rparr>\<rparr>;
          row = \<lparr>User_ID = i, User_Name = name, User_Email = email, User_Age = age,
                 User_Role = role, User_PasswordHash = password_hash,
                 User_CreatedAt = pg_now w, User_UpdatedAt = pg_now w\<rparr>
      in if \<not> Role_IsValid role then (Inl (check_violation ''users_role_check''), w1)
         else if email \<in> set (map User_Email (users (db w)))
         then (Inl (unique_violation ''users_email_key''), w1)
         else (Inr row, upd_db (\<lambda>d. d\<lparr>users := users d @ [row]\<rparr>) w1))"

text \<open>\<open>returning/select id, name, email, age, role, created_at, updated_at\<close>: no password hash.\<close>

definition scan_user :: "User \<Rightarrow> User" where
  "scan_user row = row\<lparr>User_PasswordHash := ''''\<rparr>"

definition select_user :: "(User \<Rightarrow> bool) \<Rightarrow> User prog" where
  "select_user p w = (case find p (users (db w)) of
     None \<Rightarrow> (Inl (Sentinel PgxErrNoRows), w) | Some u \<Rightarrow> (Inr u, w))"

text \<open>\<open>UPDATE users SET name, email, age, updated_at = now() WHERE id = $4\<close>\<close>

definition update_users :: "string \<Rightarrow> string \<Rightarrow> int \<Rightarrow> int \<Rightarrow> User prog" where
  "update_users name email age i w =
     (let upd = (\<lambda>u. u\<lparr>User_Name := name, User_Email := email, User_Age := age,
                       User_UpdatedAt := pg_now w\<rparr>)
      in case find (\<lambda>u. User_ID u = i) (users (db w)) of
           None \<Rightarrow> (Inl (Sentinel PgxErrNoRows), w)
         | Some u \<Rightarrow>
             if list_ex (\<lambda>v. User_ID v \<noteq> i \<and> User_Email v = email) (users (db w))
             then (Inl (unique_violation ''users_email_key''), w)
             else (Inr (upd u),
                   upd_db (\<lambda>d. d\<lparr>users := update_where (\<lambda>v. User_ID v = i) upd (users d)\<rparr>) w))"

text \<open>
  \<open>delete from users where id = $1\<close>, with the cascades of user_profiles and
  refresh_tokens; the result is the number of rows affected.
\<close>

definition delete_users :: "int \<Rightarrow> nat prog" where
  "delete_users i w =
     (Inr (length (filter (\<lambda>u. User_ID u = i) (users (db w)))),
      upd_db (\<lambda>d. d\<lparr>users := filter (\<lambda>u. User_ID u \<noteq> i) (users d),
                    user_profiles := filter (\<lambda>p. Profile_UserID p \<noteq> i) (user_profiles d),
                    refresh_tokens := filter (\<lambda>t. RefreshToken_UserID t \<noteq> i) (refresh_tokens d)\<rparr>) w)"

definition insert_user_profiles :: "int \<Rightarrow> string \<Rightarrow> Profile prog" where
  "insert_user_profiles user_id bio w =
     (let i = user_profiles_id_seq (seqs w) + 1;
          w1 = w\<lparr>seqs := (seqs w)\<lparr>user_profiles_id_seq := i\<rparr>\<rparr>;
          row = \<lparr>Profile_ID = i, Profile_UserID = user_id, Profile_Bio = bio,
                 Profile_CreatedAt = pg_now w, Profile_UpdatedAt = pg_now w\<rparr>
      in if user_id \<in> set (map Profile_UserID (user_profiles (db w)))
         then (Inl (unique_violation ''idx_user_profiles_user_id''), w1)
         else if user_id \<notin> set (map User_ID (users (db w)))
         then (Inl (foreign_key_violation ''user_profiles_user_id_fkey''), w1)
         else (Inr row, upd_db (\<lambda>d. d\<lparr>user_profiles := user_profiles d @ [row]\<rparr>) w1))"

text \<open>\<open>where ($1 = '' or email ilike '%' || $1 || '%')\<close>\<close>

definition email_matches :: "pg_locale \<Rightarrow> string \<Rightarrow> User \<Rightarrow> bool" where
  "email_matches pg email u \<longleftrightarrow> email = '''' \<or> pg_ilike pg (User_Email u) (''%'' @ email @ ''%'')"

definition count_users :: "pg_locale \<Rightarrow> string \<Rightarrow> int prog" where
  "count_users pg email w = (Inr (int (length (filter (email_matches pg email) (users (db w))))), w)"

text \<open>The ORDER BY clause: the fragments \<open>usersOrderBy\<close> can return.\<close>

definition order_key :: "pg_locale \<Rightarrow> string \<Rightarrow> User \<Rightarrow> int" where
  "order_key pg orderBy u =
     (if orderBy = ''id ASC'' then User_ID u
      else if orderBy = ''id DESC'' then - User_ID u
      else if orderBy = ''email ASC'' then pg_collate pg (User_Email u)
      else if orderBy = ''email DESC'' then - pg_collate pg (User_Email u)
      else if orderBy = ''created_at ASC'' then User_CreatedAt u
      else - User_CreatedAt u)"

definition select_users_page :: "pg_locale \<Rightarrow> string \<Rightarrow> string \<Rightarrow> int \<Rightarrow> int \<Rightarrow> User list prog" where
  "select_users_page pg email orderBy lim off w =
     (if lim < 0 then (Inl (PgError ''2201W'' ''LIMIT must not be negative''), w)
      else if off < 0 then (Inl (PgError ''2201X'' ''OFFSET must not be negative''), w)
      else (Inr (take (nat lim) (drop (nat off)
              (sort_key (order_key pg orderBy) (filter (email_matches pg email) (users (db w)))))), w))"

section \<open>The methods of PostgresRepository\<close>

definition isUniqueViolation :: "go_error \<Rightarrow> bool" where
  "isUniqueViolation err =
     (case errors_As is_PgError err of
        Some (PgError code m) \<Rightarrow> code = ''23505''
      | _ \<Rightarrow> False)"

definition user_PostgresRepository_Create :: "User \<Rightarrow> User prog" where
  "user_PostgresRepository_Create user =
     (let user = (if User_Role user = '''' then user\<lparr>User_Role := RoleUser\<rparr> else user)
      in mapErr (\<lambda>err. if isUniqueViolation err then Sentinel ErrEmailAlreadyExists
                       else wrapf ''insert user'' err)
           (andThen
              (sql [User_Name user, User_Email user, User_PasswordHash user, User_Role user]
                 (insert_users (User_Name user) (User_Email user) (User_Age user)
                    (User_PasswordHash user) (User_Role user)))
              (\<lambda>row. ret (scan_user row))))"

definition user_PostgresRepository_FindByID :: "int \<Rightarrow> User prog" where
  "user_PostgresRepository_FindByID i =
     mapErr (\<lambda>err. if errors_Is err PgxErrNoRows then Sentinel ErrUserNotFound
                   else wrapf ''select user by id'' err)
       (andThen (sql [] (select_user (\<lambda>u. User_ID u = i))) (\<lambda>row. ret (scan_user row)))"

definition select_all_users :: "User list prog" where
  "select_all_users w = (Inr (sort_key User_ID (users (db w))), w)"

definition user_PostgresRepository_FindAll :: "User list prog" where
  "user_PostgresRepository_FindAll =
     mapErr (wrapf ''select all users'')
       (andThen (sql [] select_all_users) (\<lambda>rows. ret (map scan_user rows)))"

definition usersOrderBy :: "string \<Rightarrow> string" where
  "usersOrderBy s =
     (if s = ''id_asc'' then ''id ASC''
      else if s = ''id_desc'' then ''id DESC''
      else if s = ''email_asc'' then ''email ASC''
      else if s = ''email_desc'' then ''email DESC''
      else if s = ''created_at_asc'' then ''created_at ASC''
      else if s = ''created_at_desc'' then ''created_at DESC''
      else ''id ASC'')"

definition user_PostgresRepository_List :: "pg_locale \<Rightarrow> ListUsersFilter \<Rightarrow> ListUsersResult prog" where
  "user_PostgresRepository_List pg filter' =
     (let email = TrimSpace (ListUsersFilter_Email filter')
      in andThen (mapErr (wrapf ''count users'') (sql [email] (count_users pg email))) (\<lambda>total.
         let orderBy = usersOrderBy (ListUsersFilter_Sort filter')
         in andThen (sql [email] (select_users_page pg email orderBy
                       (ListUsersFilter_Limit filter') (ListUsersFilter_Offset filter'))) (\<lambda>rows.
            ret \<lparr>ListUsersResult_Users = map scan_user rows, ListUsersResult_Total = total\<rparr>)))"

definition user_PostgresRepository_Update :: "User \<Rightarrow> User prog" where
  "user_PostgresRepository_Update user =
     mapErr (\<lambda>err. if errors_Is err PgxErrNoRows then Sentinel ErrUserNotFound
                   else if isUniqueViolation err then Sentinel ErrEmailAlreadyExists
                   else wrapf ''update user'' err)
       (andThen
          (sql [User_Name user, User_Email user]
             (update_users (User_Name user) (User_Email user) (User_Age user) (User_ID user)))
          (\<lambda>row. ret (scan_user row)))"

definition user_PostgresRepository_FindByEmail :: "string \<Rightarrow> User prog" where
  "user_PostgresRepository_FindByEmail email =
     mapErr (\<lambda>err. if errors_Is err PgxErrNoRows then Sentinel ErrUserNotFound
                   else wrapf ''select user by email'' err)
       (sql [email] (select_user (\<lambda>u. User_Email u = email)))"

definition user_PostgresRepository_Delete :: "int \<Rightarrow> unit prog" where
  "user_PostgresRepository_Delete i =
     andThen (mapErr (wrapf ''delete user'') (sql [] (delete_users i))) (\<lambda>rowsAffected.
       if rowsAffected = 0 then throw (Sentinel ErrUserNotFound) else ret ())"

definition select_exists_email :: "string \<Rightarrow> bool prog" where
  "select_exists_email email w = (Inr (list_ex (\<lambda>u. User_Email u = email) (users (db w))), w)"

definition user_PostgresRepository_ExistsByEmail :: "string \<Rightarrow> bool prog" where
  "user_PostgresRepository_ExistsByEmail email =
     mapErr (wrapf ''check user exists by email'') (sql [email] (select_exists_email email))"

definition user_PostgresRepository_CreateProfile :: "Profile \<Rightarrow> Profile prog" where
  "user_PostgresRepository_CreateProfile profile =
     mapErr (wrapf ''insert user profile'')
       (sql [Profile_Bio profile] (insert_user_profiles (Profile_UserID profile) (Profile_Bio profile)))"

definition user_NewPostgresRepository :: "pg_locale \<Rightarrow> Repository" where
  "user_NewPostgresRepository pg =
     \<lparr>Repository_Create = user_PostgresRepository_Create,
      Repository_FindByID = user_PostgresRepository_FindByID,
      Repository_FindAll = user_PostgresRepository_FindAll,
      Repository_List = user_PostgresRepository_List pg,
      Repository_Update = user_PostgresRepository_Update,
      Repository_Delete = user_PostgresRepository_Delete,
      Repository_ExistsByEmail = user_PostgresRepository_ExistsByEmail,
      Repository_FindByEmail = user_PostgresRepository_FindByEmail,
      Repository_CreateProfile = user_PostgresRepository_CreateProfile\<rparr>"

section \<open>The contract of the interface\<close>

text \<open>
  What the services rely on: how each method's result relates to the table \<open>users\<close>
  before and after the call, on success and for the sentinel errors the callers test for, that
  readers leave the tables alone, and that every method keeps the schema.
\<close>

definition user_row :: "int \<Rightarrow> User \<Rightarrow> int \<Rightarrow> User" where
  "user_row i u t = \<lparr>User_ID = i, User_Name = User_Name u, User_Email = User_Email u,
     User_Age = User_Age u, User_Role = (if User_Role u = '''' then RoleUser else User_Role u),
     User_PasswordHash = User_PasswordHash u, User_CreatedAt = t, User_UpdatedAt = t\<rparr>"

locale user_repository =
  fixes R :: Repository
  assumes create_Inr: "Repository_Create R u w = (Inr c, w') \<Longrightarrow>
      \<exists>t. c = scan_user (user_row (users_id_seq (seqs w) + 1) u t) \<and>
        User_Email u \<notin> set (map User_Email (users (db w))) \<and>
        seqs w' = (seqs w)\<lparr>users_id_seq := users_id_seq (seqs w) + 1\<rparr> \<and>
        db w' = (db w)\<lparr>users := users (db w) @ [user_row (users_id_seq (seqs w) + 1) u t]\<rparr>"
    and create_unique: "Repository_Create R u w = (Inl e, w') \<Longrightarrow> errors_Is e ErrEmailAlreadyExists \<Longrightarrow>
      User_Email u \<in> set (map User_Email (users (db w)))"
    and create_no_public: "Repository_Create R u w = (Inl e, w') \<Longrightarrow> errors_As is_PublicError e = None"
    and find_by_id_Inr: "Repository_FindByID R i w = (Inr u, w') \<Longrightarrow>
      \<exists>row. find (\<lambda>r. User_ID r = i) (users (db w)) = Some row \<and> u = scan_user row"
    and find_by_id_none: "Repository_FindByID R i w = (Inl e, w') \<Longrightarrow> errors_Is e ErrUserNotFound \<Longrightarrow>
      i \<notin> set (map User_ID (users (db w)))"
    and exists_Inr: "Repository_ExistsByEmail R m w = (Inr b, w') \<Longrightarrow>
      b \<longleftrightarrow> m \<in> set (map User_Email (users (db w)))"
    and find_by_email_Inr: "Repository_FindByEmail R m w = (Inr u, w') \<Longrightarrow>
      find (\<lambda>r. User_Email r = m) (users (db w)) = Some u"
    and find_by_email_none: "Repository_FindByEmail R m w = (Inl e, w') \<Longrightarrow>
      errors_Is e ErrUserNotFound \<Longrightarrow> m \<notin> set (map User_Email (users (db w)))"
    and update_Inr: "Repository_Update R u w = (Inr c, w') \<Longrightarrow>
      \<exists>t row. find (\<lambda>r. User_ID r = User_ID u) (users (db w)) = Some row \<and>
        c = scan_user (row\<lparr>User_Name := User_Name u, User_Email := User_Email u,
              User_Age := User_Age u, User_UpdatedAt := t\<rparr>) \<and>
        db w' = (db w)\<lparr>users := update_where (\<lambda>v. User_ID v = User_ID u)
          (\<lambda>v. v\<lparr>User_Name := User_Name u, User_Email := User_Email u, User_Age := User_Age u,
                User_UpdatedAt := t\<rparr>) (users (db w))\<rparr>"
    and update_unique: "Repository_Update R u w = (Inl e, w') \<Longrightarrow> errors_Is e ErrEmailAlreadyExists \<Longrightarrow>
      User_Email u \<in> set (map User_Email (users (db w)))"
    and delete_Inr: "Repository_Delete R i w = (Inr x, w') \<Longrightarrow>
      i \<in> set (map User_ID (users (db w))) \<and>
      db w' = (db w)\<lparr>users := filter (\<lambda>u. User_ID u \<noteq> i) (users (db w)),
        user_profiles := filter (\<lambda>p. Profile_UserID p \<noteq> i) (user_profiles (db w)),
        refresh_tokens := filter (\<lambda>t. RefreshToken_UserID t \<noteq> i) (refresh_tokens (db w))\<rparr>"
    and create_profile_Inr: "Repository_CreateProfile R q w = (Inr pr, w') \<Longrightarrow>
      Profile_UserID pr = Profile_UserID q \<and> Profile_Bio pr = Profile_Bio q \<and>
      db w' = (db w)\<lparr>user_profiles := user_profiles (db w) @ [pr]\<rparr>"
    and readers: "frame db (Repository_FindByID R i)" "frame db (Repository_FindAll R)"
      "frame db (Repository_List R flt)" "frame db (Repository_ExistsByEmail R m)"
      "frame db (Repository_FindByEmail R m)"
      "frame seqs (Repository_FindByID R i)" "frame seqs (Repository_FindAll R)"
      "frame seqs (Repository_List R flt)" "frame seqs (Repository_ExistsByEmail R m)"
      "frame seqs (Repository_FindByEmail R m)"
    and only_db: "db_only (Repository_Create R u)" "db_only (Repository_FindByID R i)"
      "db_only (Repository_FindAll R)" "db_only (Repository_List R flt)"
      "db_only (Repository_Update R u)" "db_only (Repository_Delete R i)"
      "db_only (Repository_ExistsByEmail R m)" "db_only (Repository_FindByEmail R m)"
      "db_only (Repository_CreateProfile R q)"
    and keeps_schema: "keeps (consistent s) (Repository_Create R u)"
      "keeps (consistent s) (Repository_Update R u)" "keeps (consistent s) (Repository_Delete R i)"
      "keeps (consistent s) (Repository_CreateProfile R q)"
begin

lemma reader_consistent:
  "keeps (consistent s) (Repository_FindByID R i)" "keeps (consistent s) (Repository_FindAll R)"
  "keeps (consistent s) (Repository_List R flt)" "keeps (consistent s) (Repository_ExistsByEmail R m)"
  "keeps (consistent s) (Repository_FindByEmail R m)"
  by (rule consistent_frame; rule readers)+

lemmas repo_consistent = keeps_schema reader_consistent

end

section \<open>The PostgreSQL implementation meets it\<close>

lemma isUniqueViolation_simps [simp]:
  "isUniqueViolation (unique_violation m)" "\<not> isUniqueViolation (check_violation m)"
  "\<not> isUniqueViolation (foreign_key_violation m)" "\<not> isUniqueViolation bad_text_error"
  "\<not> isUniqueViolation (NewError t)" "\<not> isUniqueViolation (Sentinel x)"
  by (simp_all add: isUniqueViolation_def unique_violation_def check_violation_def
      foreign_key_violation_def bad_text_error_def)

lemma pg_errors_plain [simp]:
  "\<not> errors_Is (unique_violation m) s" "\<not> errors_Is (check_violation m) s"
  "\<not> errors_Is (foreign_key_violation m) s" "\<not> errors_Is bad_text_error s"
  "errors_As is_PublicError (unique_violation m) = None"
  "errors_As is_PublicError (check_violation m) = None"
  "errors_As is_PublicError (foreign_key_violation m) = None"
  "errors_As is_PublicError bad_text_error = None"
  by (simp_all add: unique_violation_def check_violation_def foreign_key_violation_def
      bad_text_error_def)

lemmas stmt_defs =
  insert_users_def select_user_def update_users_def delete_users_def insert_user_profiles_def
  count_users_def select_users_page_def select_all_users_def select_exists_email_def

lemmas user_method_defs =
  user_PostgresRepository_Create_def user_PostgresRepository_FindByID_def
  user_PostgresRepository_FindAll_def user_PostgresRepository_List_def
  user_PostgresRepository_Update_def user_PostgresRepository_FindByEmail_def
  user_PostgresRepository_Delete_def user_PostgresRepository_ExistsByEmail_def
  user_PostgresRepository_CreateProfile_def

lemma stmt_db_only [db_only_intros]:
  "db_only (insert_users n m a h r)" "db_only (select_user q)" "db_only (update_users n m a i)"
  "db_only (delete_users i)" "db_only (insert_user_profiles i b)" "db_only (count_users pg m)"
  "db_only (select_users_page pg m ord lim off)" "db_only select_all_users"
  "db_only (select_exists_email m)"
  by (rule db_onlyI; simp add: stmt_defs Let_def db_step_def split: option.splits)+

lemma stmt_readers [frame_intros]:
  "frame db (select_user q)" "frame db (count_users pg m)"
  "frame db (select_users_page pg m ord lim off)" "frame db select_all_users"
  "frame db (select_exists_email m)"
  "frame seqs (select_user q)" "frame seqs (count_users pg m)"
  "frame seqs (select_users_page pg m ord lim off)" "frame seqs select_all_users"
  "frame seqs (select_exists_email m)"
  by (rule frameI; simp add: stmt_defs split: option.splits)+

lemma user_method_db_only [db_only_intros]:
  "db_only (user_PostgresRepository_Create u)" "db_only (user_PostgresRepository_FindByID i)"
  "db_only user_PostgresRepository_FindAll" "db_only (user_PostgresRepository_List pg flt)"
  "db_only (user_PostgresRepository_Update u)" "db_only (user_PostgresRepository_Delete i)"
  "db_only (user_PostgresRepository_ExistsByEmail m)"
  "db_only (user_PostgresRepository_FindByEmail m)"
  "db_only (user_PostgresRepository_CreateProfile q)"
  by (unfold user_method_defs Let_def; intro db_only_intros)+

lemma user_method_readers [frame_intros]:
  "frame db (user_PostgresRepository_FindByID i)" "frame db user_PostgresRepository_FindAll"
  "frame db (user_PostgresRepository_List pg flt)"
  "frame db (user_PostgresRepository_ExistsByEmail m)"
  "frame db (user_PostgresRepository_FindByEmail m)"
  "frame seqs (user_PostgresRepository_FindByID i)" "frame seqs user_PostgresRepository_FindAll"
  "frame seqs (user_PostgresRepository_List pg flt)"
  "frame seqs (user_PostgresRepository_ExistsByEmail m)"
  "frame seqs (user_PostgresRepository_FindByEmail m)"
  by (unfold user_method_defs Let_def; intro frame_intros; simp)+

text \<open>Each statement keeps the schema.\<close>

lemma keeps_insert_users [keeps_intros]: "keeps (consistent s) (insert_users n m a h r)"
  by (rule keepsI)
    (auto simp: insert_users_def Let_def consistent_def schema_defs seq_ge_def serial_ok_next
      list_all_iff intro: serial_ok_mono)

lemma keeps_insert_user_profiles [keeps_intros]: "keeps (consistent s) (insert_user_profiles i b)"
  by (rule keepsI)
    (auto simp: insert_user_profiles_def Let_def consistent_def schema_defs seq_ge_def
      serial_ok_next list_all_iff intro: serial_ok_mono)

lemma keeps_delete_users [keeps_intros]: "keeps (consistent s) (delete_users i)"
  by (rule keepsI)
    (auto simp: delete_users_def consistent_def schema_defs serial_ok_subset list_all_iff
      distinct_map_filter)

lemma distinct_update_key:
  assumes "distinct (map g rs)" and "distinct (map k rs)"
    and "\<And>r. r \<in> set rs \<Longrightarrow> k r \<noteq> i \<Longrightarrow> g r \<noteq> x"
  shows "distinct (map (\<lambda>r. if k r = i then x else g r) rs)"
  using assms by (induction rs) (auto simp: image_iff)

lemma keeps_update_users [keeps_intros]: "keeps (consistent s) (update_users n m a i)"
proof (rule keepsI)
  fix w assume c: "consistent s w"
  let ?f = "\<lambda>u. u\<lparr>User_Name := n, User_Email := m, User_Age := a, User_UpdatedAt := pg_now w\<rparr>"
  let ?us = "update_where (\<lambda>v. User_ID v = i) ?f (users (db w))"
  have ids: "map User_ID ?us = map User_ID (users (db w))"
    by (rule map_update_where) simp
  have mails: "map User_Email ?us = map (\<lambda>u. if User_ID u = i then m else User_Email u) (users (db w))"
    by (simp add: update_where_def)
  have "users_ok ?us (users_id_seq (seqs w))"
    if "\<not> list_ex (\<lambda>v. User_ID v \<noteq> i \<and> User_Email v = m) (users (db w))"
    using c that distinct_update_key [of User_Email "users (db w)" User_ID i m]
    unfolding users_ok_def ids mails
    by (auto simp: consistent_def schema_defs serial_ok_def list_all_iff list_ex_iff
        dest!: update_where_in)
  moreover have "User_ID ` set ?us = User_ID ` set (users (db w))"
    using arg_cong [OF ids, of set] by simp
  ultimately show "consistent s (snd (update_users n m a i w))" using c
    by (simp add: update_users_def Let_def consistent_def schema_ok_def profiles_ok_def tokens_ok_def
        split: option.split)
qed

lemma user_method_keeps [keeps_intros]:
  "keeps (consistent s) (user_PostgresRepository_Create u)"
  "keeps (consistent s) (user_PostgresRepository_Update u)"
  "keeps (consistent s) (user_PostgresRepository_Delete i)"
  "keeps (consistent s) (user_PostgresRepository_CreateProfile q)"
  by (unfold user_method_defs Let_def; intro keeps_intros)+

interpretation pg_users: user_repository "user_NewPostgresRepository pg"
proof (unfold_locales, unfold user_NewPostgresRepository_def Repository.simps, goal_cases)
  case (1 u w c w')
  then show ?case
    unfolding user_PostgresRepository_Create_def Let_def
    by (auto dest!: mapErr_InrD elim!: andThen_InrE sql_InrD
        simp: insert_users_def Let_def user_row_def split: if_splits) blast+
next
  case (2 u w e w')
  then show ?case
    unfolding user_PostgresRepository_Create_def Let_def
    by (auto elim!: mapErr_InlE andThen_InlE sql_InlE simp: insert_users_def Let_def split: if_splits)
next
  case (3 u w e w')
  then show ?case
    unfolding user_PostgresRepository_Create_def Let_def
    by (auto elim!: mapErr_InlE andThen_InlE sql_InlE simp: insert_users_def Let_def split: if_splits)
next
  case (4 i w u w')
  then show ?case
    unfolding user_PostgresRepository_FindByID_def
    by (auto dest!: mapErr_InrD elim!: andThen_InrE sql_InrD simp: select_user_def split: option.splits)
next
  case (5 i w e w')
  then show ?case
    unfolding user_PostgresRepository_FindByID_def
    by (auto elim!: mapErr_InlE andThen_InlE sql_InlE simp: select_user_def find_None_iff
        split: option.splits if_splits)
next
  case (6 m w b w')
  then show ?case
    unfolding user_PostgresRepository_ExistsByEmail_def
    by (auto dest!: mapErr_InrD elim!: sql_InrD simp: select_exists_email_def list_ex_iff)
next
  case (7 m w u w')
  then show ?case
    unfolding user_PostgresRepository_FindByEmail_def
    by (auto dest!: mapErr_InrD elim!: sql_InrD simp: select_user_def split: option.splits)
next
  case (8 m w e w')
  then show ?case
    unfolding user_PostgresRepository_FindByEmail_def
    by (auto elim!: mapErr_InlE sql_InlE simp: select_user_def find_None_iff
        split: option.splits if_splits)
next
  case (9 u w c w')
  then show ?case
    unfolding user_PostgresRepository_Update_def
    by (auto dest!: mapErr_InrD elim!: andThen_InrE sql_InrD simp: update_users_def Let_def
        split: option.splits if_splits) blast
next
  case (10 u w e w')
  then show ?case
    unfolding user_PostgresRepository_Update_def
    by (auto elim!: mapErr_InlE andThen_InlE sql_InlE simp: update_users_def Let_def list_ex_iff
        split: option.splits if_splits) (metis image_eqI)
next
  case (11 i w x w')
  then show ?case
    unfolding user_PostgresRepository_Delete_def
    by (auto dest!: mapErr_InrD elim!: andThen_InrE sql_InrD simp: delete_users_def filter_empty_conv
        split: if_splits)
next
  case (12 q w pr w')
  then show ?case
    unfolding user_PostgresRepository_CreateProfile_def
    by (auto dest!: mapErr_InrD elim!: sql_InrD simp: insert_user_profiles_def Let_def split: if_splits)
qed (intro user_method_readers user_method_db_only user_method_keeps)+

end
