(* ===== verification/Outbox_Store.thy ===== *)
theory Outbox_Store
  imports User_Repository
begin

text \<open>
  internal/outbox/store.go and internal/outbox/postgres_repository.go: the interface
  \<open>Store\<close> as a record of its methods, the four statements on the table
  \<open>outbox_events\<close>, and the contract (locale \<open>outbox_store\<close>) the worker relies on: what
  each call can have done to the rows, whether it returned or failed.
\<close>

record Store =
  Store_Create :: "OutboxEvent \<Rightarrow> OutboxEvent prog"
  Store_FetchBatch :: "int \<Rightarrow> int \<Rightarrow> OutboxEvent list prog"
  Store_MarkProcessed :: "int \<Rightarrow> unit prog"
  Store_MarkFailed :: "int \<Rightarrow> string \<Rightarrow> int \<Rightarrow> unit prog"

section \<open>The statements\<close>

definition outbox_row :: "int \<Rightarrow> OutboxEvent \<Rightarrow> int \<Rightarrow> OutboxEvent" where
  "outbox_row i e t =
     \<lparr>OutboxEvent_ID = i, OutboxEvent_EventType = OutboxEvent_EventType e,
      OutboxEvent_AggregateType = OutboxEvent_AggregateType e,
      OutboxEvent_AggregateID = OutboxEvent_AggregateID e,
      OutboxEvent_Payload = OutboxEvent_Payload e, OutboxEvent_ContentType = OutboxEvent_ContentType e,
      OutboxEvent_ProtoMessage = OutboxEvent_ProtoMessage e,
      OutboxEvent_EventVersion = OutboxEvent_EventVersion e,
      OutboxEvent_Status = StatusNew, OutboxEvent_Attempts = 0, OutboxEvent_LastError = None,
      OutboxEvent_LockedAt = None, OutboxEvent_ProcessedAt = None, OutboxEvent_CreatedAt = t\<rparr>"

definition insert_outbox_events :: "OutboxEvent \<Rightarrow> OutboxEvent prog" where
  "insert_outbox_events e w =
     (let i = outbox_events_id_seq (seqs w) + 1;
          w1 = w\<lparr>seqs := (seqs w)\<lparr>outbox_events_id_seq := i\<rparr>\<rparr>;
          row = outbox_row i e (pg_now w)
      in if OutboxEvent_ContentType e \<notin> {ContentTypeJSON, ContentTypeProtobuf}
         then (Inl (check_violation ''outbox_events_content_type_check''), w1)
         else if OutboxEvent_ContentType e = ContentTypeProtobuf \<and> OutboxEvent_ProtoMessage e = ''''
         then (Inl (check_violation ''outbox_events_proto_message_check''), w1)
         else (Inr row, upd_db (\<lambda>d. d\<lparr>outbox_events := outbox_events d @ [row]\<rparr>) w1))"

text \<open>\<open>status = 'NEW' or (status = 'PROCESSING' and locked_at is not null and locked_at < $2)\<close>\<close>

definition fetchable :: "int \<Rightarrow> OutboxEvent \<Rightarrow> bool" where
  "fetchable lockedBefore e \<longleftrightarrow>
     OutboxEvent_Status e = StatusNew \<or>
     (OutboxEvent_Status e = StatusProcessing \<and>
      (case OutboxEvent_LockedAt e of None \<Rightarrow> False | Some t \<Rightarrow> t < lockedBefore))"

text \<open>\<open>set status = 'PROCESSING', locked_at = now(), attempts = attempts + 1\<close>\<close>

definition claim :: "int \<Rightarrow> OutboxEvent \<Rightarrow> OutboxEvent" where
  "claim now e = e\<lparr>OutboxEvent_Status := StatusProcessing, OutboxEvent_LockedAt := Some now,
     OutboxEvent_Attempts := OutboxEvent_Attempts e + 1\<rparr>"

text \<open>The subselect: \<open>order by created_at limit $1\<close>.\<close>

definition batch_ids :: "nat \<Rightarrow> int \<Rightarrow> OutboxEvent list \<Rightarrow> int list" where
  "batch_ids lim lockedBefore es =
     map OutboxEvent_ID (take lim (sort_key OutboxEvent_CreatedAt (filter (fetchable lockedBefore) es)))"

text \<open>UPDATE ... RETURNING gives the updated rows, in no order of their own: here, the table's.\<close>

definition claim_batch :: "nat \<Rightarrow> int \<Rightarrow> OutboxEvent list prog" where
  "claim_batch lim lockedBefore w =
     (let ids = batch_ids lim lockedBefore (outbox_events (db w));
          es = update_where (\<lambda>e. OutboxEvent_ID e \<in> set ids) (claim (pg_now w)) (outbox_events (db w))
      in (Inr (filter (\<lambda>e. OutboxEvent_ID e \<in> set ids) es), upd_db (\<lambda>d. d\<lparr>outbox_events := es\<rparr>) w))"

definition is_processing :: "int \<Rightarrow> OutboxEvent \<Rightarrow> bool" where
  "is_processing i e \<longleftrightarrow> OutboxEvent_ID e = i \<and> OutboxEvent_Status e = StatusProcessing"

definition mark_processed :: "int \<Rightarrow> OutboxEvent \<Rightarrow> OutboxEvent" where
  "mark_processed now e = e\<lparr>OutboxEvent_Status := StatusProcessed, OutboxEvent_ProcessedAt := Some now,
     OutboxEvent_LockedAt := None, OutboxEvent_LastError := None\<rparr>"

definition mark_failed :: "string \<Rightarrow> int \<Rightarrow> OutboxEvent \<Rightarrow> OutboxEvent" where
  "mark_failed reason maxAttempts e =
     e\<lparr>OutboxEvent_Status := (if maxAttempts \<le> OutboxEvent_Attempts e then StatusFailed else StatusNew),
       OutboxEvent_LockedAt := None, OutboxEvent_LastError := Some reason\<rparr>"

text \<open>An UPDATE of the rows with \<open>p\<close>; the result is the number of rows affected.\<close>

definition update_outbox :: "(OutboxEvent \<Rightarrow> bool) \<Rightarrow> (int \<Rightarrow> OutboxEvent \<Rightarrow> OutboxEvent) \<Rightarrow> nat prog" where
  "update_outbox p f w =
     (Inr (length (filter p (outbox_events (db w)))),
      upd_db (\<lambda>d. d\<lparr>outbox_events := update_where p (f (pg_now w)) (outbox_events d)\<rparr>) w)"

section \<open>The methods of PostgresRepository\<close>

definition outbox_PostgresRepository_Create :: "OutboxEvent \<Rightarrow> OutboxEvent prog" where
  "outbox_PostgresRepository_Create event =
     mapErr (wrapf ''insert outbox event'')
       (sql [OutboxEvent_EventType event, OutboxEvent_AggregateType event, OutboxEvent_AggregateID event,
             OutboxEvent_ContentType event, OutboxEvent_ProtoMessage event, OutboxEvent_EventVersion event]
          (insert_outbox_events event))"

definition outbox_PostgresRepository_FetchBatch :: "int \<Rightarrow> int \<Rightarrow> OutboxEvent list prog" where
  "outbox_PostgresRepository_FetchBatch limit' lockTimeout w =
     (if limit' \<le> 0 then ret [] w
      else let lockedBefore = clock w - lockTimeout
           in mapErr (wrapf ''fetch outbox events'') (sql [] (claim_batch (nat limit') lockedBefore)) w)"

definition outbox_not_processing :: "int \<Rightarrow> go_error" where
  "outbox_not_processing i =
     NewError (''outbox event '' @ FormatInt i @ '' not found or not processing'')"

definition outbox_PostgresRepository_MarkProcessed :: "int \<Rightarrow> unit prog" where
  "outbox_PostgresRepository_MarkProcessed i =
     andThen (mapErr (wrapf ''mark outbox events'')
                (sql [] (update_outbox (is_processing i) mark_processed))) (\<lambda>rowsAffected.
       if rowsAffected = 0 then throw (outbox_not_processing i) else ret ())"

definition outbox_PostgresRepository_MarkFailed :: "int \<Rightarrow> string \<Rightarrow> int \<Rightarrow> unit prog" where
  "outbox_PostgresRepository_MarkFailed i reason maxAttempts =
     andThen (mapErr (wrapf ''mark outbox events'')
                (sql [reason] (update_outbox (is_processing i) (\<lambda>_. mark_failed reason maxAttempts))))
       (\<lambda>rowsAffected. if rowsAffected = 0 then throw (outbox_not_processing i) else ret ())"

definition outbox_NewPostgresRepository :: Store where
  "outbox_NewPostgresRepository =
     \<lparr>Store_Create = outbox_PostgresRepository_Create,
      Store_FetchBatch = outbox_PostgresRepository_FetchBatch,
      Store_MarkProcessed = outbox_PostgresRepository_MarkProcessed,
      Store_MarkFailed = outbox_PostgresRepository_MarkFailed\<rparr>"

lemmas outbox_method_defs =
  outbox_PostgresRepository_Create_def outbox_PostgresRepository_FetchBatch_def
  outbox_PostgresRepository_MarkProcessed_def outbox_PostgresRepository_MarkFailed_def

lemmas outbox_row_updates = claim_def mark_processed_def mark_failed_def

section \<open>Facts about the selection of a batch\<close>

lemma length_batch_ids: "length (batch_ids n b es) \<le> n"
  by (simp add: batch_ids_def)

lemma distinct_batch_ids: "distinct (map OutboxEvent_ID es) \<Longrightarrow> distinct (batch_ids n b es)"
proof -
  assume "distinct (map OutboxEvent_ID es)"
  then have "distinct (map OutboxEvent_ID (filter (fetchable b) es))"
    by (rule distinct_map_filter_key)
  then have "distinct (map OutboxEvent_ID (sort_key OutboxEvent_CreatedAt (filter (fetchable b) es)))"
    by (simp add: distinct_map)
  then show ?thesis
    by (simp add: batch_ids_def take_map [symmetric])
qed

lemma batch_ids_fetchable:
  "i \<in> set (batch_ids n b es) \<Longrightarrow> \<exists>e \<in> set es. OutboxEvent_ID e = i \<and> fetchable b e"
  by (auto simp: batch_ids_def dest!: in_set_takeD)

text \<open>No event that is left out is older than one that is taken.\<close>

lemma batch_oldest_first:
  assumes "e \<in> set es" and "fetchable b e" and "OutboxEvent_ID e \<notin> set (batch_ids n b es)"
    and "f \<in> set (take n (sort_key OutboxEvent_CreatedAt (filter (fetchable b) es)))"
  shows "OutboxEvent_CreatedAt f \<le> OutboxEvent_CreatedAt e"
proof -
  let ?s = "sort_key OutboxEvent_CreatedAt (filter (fetchable b) es)"
  have "e \<in> set ?s" using assms(1,2) by simp
  moreover have "e \<notin> set (take n ?s)" using assms(3) by (auto simp: batch_ids_def)
  ultimately have "e \<in> set (drop n ?s)"
    by (metis Un_iff append_take_drop_id set_append)
  moreover have "sorted (map OutboxEvent_CreatedAt (take n ?s @ drop n ?s))" by simp
  ultimately show ?thesis using assms(4)
    by (simp only: map_append sorted_append) auto
qed

section \<open>The contract of the interface\<close>

text \<open>
  A store may fail before or after it has changed the rows, so what a call may have done is
  stated for any result, and what a caller may conclude from success on top of that.
\<close>

locale outbox_store =
  fixes S :: Store
  assumes fetch: "Store_FetchBatch S lim lt w = (r, w') \<Longrightarrow>
      \<exists>ids t. length ids \<le> nat lim \<and>
        (distinct (map OutboxEvent_ID (outbox_events (db w))) \<longrightarrow> distinct ids) \<and>
        (\<forall>i \<in> set ids. \<exists>e \<in> set (outbox_events (db w)). OutboxEvent_ID e = i \<and> fetchable (clock w - lt) e) \<and>
        outbox_events (db w') =
          update_where (\<lambda>e. OutboxEvent_ID e \<in> set ids) (claim t) (outbox_events (db w)) \<and>
        (\<forall>es. r = Inr es \<longrightarrow> es = filter (\<lambda>e. OutboxEvent_ID e \<in> set ids) (outbox_events (db w')))"
    and processed: "Store_MarkProcessed S i w = (pr, w') \<Longrightarrow>
      \<exists>t. (outbox_events (db w') = outbox_events (db w) \<and> pr \<noteq> Inr ()) \<or>
        outbox_events (db w') = update_where (is_processing i) (mark_processed t) (outbox_events (db w))"
    and processed_Inr: "Store_MarkProcessed S i w = (Inr u, w') \<Longrightarrow>
      \<exists>e \<in> set (outbox_events (db w)). is_processing i e"
    and failed: "Store_MarkFailed S i reason mx w = (pr, w') \<Longrightarrow>
      (outbox_events (db w') = outbox_events (db w) \<and> pr \<noteq> Inr ()) \<or>
      outbox_events (db w') = update_where (is_processing i) (mark_failed reason mx) (outbox_events (db w))"
    and failed_Inr: "Store_MarkFailed S i reason mx w = (Inr u, w') \<Longrightarrow>
      \<exists>e \<in> set (outbox_events (db w)). is_processing i e"
    and only_db: "db_only (Store_FetchBatch S lim lt)" "db_only (Store_MarkProcessed S i)"
      "db_only (Store_MarkFailed S i reason mx)" "db_only (Store_Create S ev)"
    and keeps_schema: "keeps (consistent s) (Store_FetchBatch S lim lt)"
      "keeps (consistent s) (Store_MarkProcessed S i)" "keeps (consistent s) (Store_MarkFailed S i reason mx)"
      "keeps (consistent s) (Store_Create S ev)"
    and create_Inr: "Store_Create S ev w = (Inr c, w') \<Longrightarrow>
      \<exists>t. c = outbox_row (outbox_events_id_seq (seqs w) + 1) ev t \<and>
        db w' = (db w)\<lparr>outbox_events := outbox_events (db w) @ [c]\<rparr>"
    and create_no_public: "Store_Create S ev w = (Inl e, w') \<Longrightarrow> errors_As is_PublicError e = None"

lemma outbox_stmt_db_only [db_only_intros]:
  "db_only (insert_outbox_events e)" "db_only (claim_batch n b)" "db_only (update_outbox p f)"
  by (rule db_onlyI;
      simp add: insert_outbox_events_def claim_batch_def update_outbox_def Let_def db_step_def)+

lemma db_only_FetchBatch [db_only_intros]: "db_only (outbox_PostgresRepository_FetchBatch lim lt)"
proof (rule db_onlyI)
  fix w
  have "db_only (mapErr (wrapf ''fetch outbox events'') (sql [] (claim_batch (nat lim) b)))" for b
    by (intro db_only_intros)
  then show "db_step w (snd (outbox_PostgresRepository_FetchBatch lim lt w))"
    by (auto simp: outbox_PostgresRepository_FetchBatch_def Let_def ret_def db_only_def)
qed

lemma outbox_method_db_only [db_only_intros]:
  "db_only (outbox_PostgresRepository_Create e)" "db_only (outbox_PostgresRepository_MarkProcessed i)"
  "db_only (outbox_PostgresRepository_MarkFailed i r mx)"
  by (unfold outbox_PostgresRepository_Create_def outbox_PostgresRepository_MarkProcessed_def
      outbox_PostgresRepository_MarkFailed_def; intro db_only_intros)+

text \<open>An update of status columns keeps the rows well formed.\<close>

lemma outbox_ok_update:
  assumes "outbox_ok es n" and "\<And>e. outbox_row_ok e \<Longrightarrow> outbox_row_ok (f e)"
    and "\<And>e. OutboxEvent_ID (f e) = OutboxEvent_ID e"
  shows "outbox_ok (update_where p f es) n"
proof -
  have "map OutboxEvent_ID (update_where p f es) = map OutboxEvent_ID es"
    by (rule map_update_where) (rule assms(3))
  with assms show ?thesis
    by (auto simp: outbox_ok_def list_all_iff dest!: update_where_in)
qed

lemma outbox_row_ok_updates [simp]:
  "outbox_row_ok e \<Longrightarrow> outbox_row_ok (claim t e)"
  "outbox_row_ok e \<Longrightarrow> outbox_row_ok (mark_processed t e)"
  "outbox_row_ok e \<Longrightarrow> outbox_row_ok (mark_failed reason mx e)"
  by (simp_all add: outbox_row_ok_def outbox_row_updates)

lemma outbox_id_updates [simp]:
  "OutboxEvent_ID (claim t e) = OutboxEvent_ID e"
  "OutboxEvent_ID (mark_processed t e) = OutboxEvent_ID e"
  "OutboxEvent_ID (mark_failed reason mx e) = OutboxEvent_ID e"
  by (simp_all add: outbox_row_updates)

lemma consistent_outbox:
  "consistent s w \<Longrightarrow> outbox_ok es (outbox_events_id_seq (seqs w)) \<Longrightarrow>
     consistent s (w\<lparr>db := (db w)\<lparr>outbox_events := es\<rparr>\<rparr>)"
  by (simp add: consistent_def schema_ok_def)

lemma consistent_outboxD: "consistent s w \<Longrightarrow> outbox_ok (outbox_events (db w)) (outbox_events_id_seq (seqs w))"
  by (simp add: consistent_def schema_ok_def)

lemma keeps_insert_outbox_events [keeps_intros]: "keeps (consistent s) (insert_outbox_events e)"
  by (rule keepsI)
    (auto simp: insert_outbox_events_def Let_def consistent_def schema_defs seq_ge_def serial_ok_next
      outbox_row_def outbox_row_ok_def intro: serial_ok_mono)

lemma keeps_claim_batch [keeps_intros]: "keeps (consistent s) (claim_batch n b)"
  by (rule keepsI)
    (auto simp: claim_batch_def Let_def intro!: consistent_outbox outbox_ok_update dest: consistent_outboxD)

lemma keeps_update_outbox [keeps_intros]:
  assumes "\<And>t e. outbox_row_ok e \<Longrightarrow> outbox_row_ok (f t e)"
    and "\<And>t e. OutboxEvent_ID (f t e) = OutboxEvent_ID e"
  shows "keeps (consistent s) (update_outbox p f)"
  by (rule keepsI)
    (auto simp: update_outbox_def assms intro!: consistent_outbox outbox_ok_update dest: consistent_outboxD)

lemma outbox_method_keeps [keeps_intros]:
  "keeps (consistent s) (outbox_PostgresRepository_Create e)"
  "keeps (consistent s) (outbox_PostgresRepository_MarkProcessed i)"
  "keeps (consistent s) (outbox_PostgresRepository_MarkFailed i r mx)"
  unfolding outbox_PostgresRepository_Create_def outbox_PostgresRepository_MarkProcessed_def
    outbox_PostgresRepository_MarkFailed_def
  by (auto intro!: keeps_intros)

lemma keeps_FetchBatch [keeps_intros]: "keeps (consistent s) (outbox_PostgresRepository_FetchBatch lim lt)"
proof (rule keepsI)
  fix w assume c: "consistent s w"
  have "keeps (consistent s) (mapErr (wrapf ''fetch outbox events'') (sql [] (claim_batch (nat lim) b)))" for b
    by (intro keeps_intros)
  with c show "consistent s (snd (outbox_PostgresRepository_FetchBatch lim lt w))"
    by (auto simp: outbox_PostgresRepository_FetchBatch_def Let_def ret_def keeps_def)
qed

section \<open>The PostgreSQL implementation meets it\<close>

lemma claim_batch_spec:
  assumes "claim_batch n b w = (r, w')"
  shows "\<exists>ids t. length ids \<le> n \<and>
    (distinct (map OutboxEvent_ID (outbox_events (db w))) \<longrightarrow> distinct ids) \<and>
    (\<forall>i \<in> set ids. \<exists>e \<in> set (outbox_events (db w)). OutboxEvent_ID e = i \<and> fetchable b e) \<and>
    outbox_events (db w') = update_where (\<lambda>e. OutboxEvent_ID e \<in> set ids) (claim t) (outbox_events (db w)) \<and>
    r = Inr (filter (\<lambda>e. OutboxEvent_ID e \<in> set ids) (outbox_events (db w')))"
  using assms length_batch_ids [of n b] distinct_batch_ids [of "outbox_events (db w)" n b]
    batch_ids_fetchable [of _ n b]
  by (intro exI [of _ "batch_ids n b (outbox_events (db w))"] exI [of _ "pg_now w"])
    (auto simp: claim_batch_def Let_def)

lemma FetchBatch_spec:
  assumes "outbox_PostgresRepository_FetchBatch lim lt w = (r, w')"
  shows "\<exists>ids t. length ids \<le> nat lim \<and>
    (distinct (map OutboxEvent_ID (outbox_events (db w))) \<longrightarrow> distinct ids) \<and>
    (\<forall>i \<in> set ids. \<exists>e \<in> set (outbox_events (db w)).
       OutboxEvent_ID e = i \<and> fetchable (clock w - lt) e) \<and>
    outbox_events (db w') = update_where (\<lambda>e. OutboxEvent_ID e \<in> set ids) (claim t) (outbox_events (db w)) \<and>
    (\<forall>es. r = Inr es \<longrightarrow> es = filter (\<lambda>e. OutboxEvent_ID e \<in> set ids) (outbox_events (db w')))"
    (is "?P r w'")
proof (cases "lim \<le> 0")
  case True
  with assms show ?thesis
    by (intro exI [of _ "[]"]) (auto simp: outbox_PostgresRepository_FetchBatch_def update_where_none)
next
  case False
  let ?c = "claim_batch (nat lim) (clock w - lt)"
  obtain r0 where s: "sql [] ?c w = (r0, w')" and r: "r = map_sum (wrapf ''fetch outbox events'') id r0"
    using assms False by (cases "sql [] ?c w")
      (auto simp: outbox_PostgresRepository_FetchBatch_def Let_def mapErr_def split: sum.splits)
  from s have "external ?c w = (r0, w')" by (simp add: sql_def)
  then have "?P r0 w'"
  proof (cases rule: external_cases)
    case (run c p)
    from claim_batch_spec [OF run(1)] show ?thesis by auto
  next
    case (lost c p t)
    then show ?thesis by (intro exI [of _ "[]"]) (auto simp: update_where_none)
  next
    case (unacked c p t)
    obtain r1 where "?c (w\<lparr>clock := c, plan := p\<rparr>) = (r1, w')" using unacked(2) by (metis prod.collapse)
    from claim_batch_spec [OF this] unacked(1) show ?thesis by auto
  qed
  then show ?thesis using r by (cases r0) auto
qed

lemma sql_update_outbox_spec:
  assumes "sql ps (update_outbox p f) w = (r, w')"
  shows "\<exists>t. (outbox_events (db w') = outbox_events (db w) \<and> (\<forall>n. r \<noteq> Inr n)) \<or>
    outbox_events (db w') = update_where p (f t) (outbox_events (db w))"
  using assms unfolding sql_def
  by (cases rule: external_cases) (auto simp: update_outbox_def split: if_splits)

lemma sql_update_outbox_Inr:
  assumes "sql ps (update_outbox p f) w = (Inr n, w')"
  shows "n = length (filter p (outbox_events (db w)))"
  using assms by (auto elim!: sql_InrD simp: update_outbox_def)

lemma marking_spec:
  assumes "andThen (mapErr g (sql ps (update_outbox p f)))
      (\<lambda>rows. if rows = 0 then throw err else ret ()) w = (r, w')"
  shows "\<exists>t. (outbox_events (db w') = outbox_events (db w) \<and> r \<noteq> Inr ()) \<or>
    outbox_events (db w') = update_where p (f t) (outbox_events (db w))"
proof -
  obtain r0 where s: "sql ps (update_outbox p f) w = (r0, w')" and r: "\<forall>n. r0 \<noteq> Inr n \<Longrightarrow> r \<noteq> Inr ()"
    using assms by (cases "sql ps (update_outbox p f) w")
      (auto simp: andThen_def mapErr_def split: sum.splits if_splits)
  from sql_update_outbox_spec [OF s] r show ?thesis by blast
qed

lemma marking_Inr:
  assumes "andThen (mapErr g (sql ps (update_outbox p f)))
      (\<lambda>rows. if rows = 0 then throw err else ret ()) w = (Inr u, w')"
  shows "\<exists>e \<in> set (outbox_events (db w)). p e"
proof -
  from assms obtain n where "sql ps (update_outbox p f) w = (Inr n, w')" "n \<noteq> 0"
    by (auto elim!: andThen_InrE dest!: mapErr_InrD split: if_splits)
  with sql_update_outbox_Inr [OF this(1)] show ?thesis by (auto simp: filter_empty_conv)
qed

interpretation pg_outbox: outbox_store outbox_NewPostgresRepository
proof (unfold_locales, unfold outbox_NewPostgresRepository_def Store.simps, goal_cases)
  case (1 lim lt w r w')
  then show ?case by (rule FetchBatch_spec)
next
  case (2 i w pr w')
  then show ?case unfolding outbox_PostgresRepository_MarkProcessed_def by (rule marking_spec)
next
  case (3 i w u w')
  then show ?case unfolding outbox_PostgresRepository_MarkProcessed_def by (rule marking_Inr)
next
  case (4 i reason mx w pr w')
  then show ?case
    unfolding outbox_PostgresRepository_MarkFailed_def by (auto dest: marking_spec)
next
  case (5 i reason mx w u w')
  then show ?case unfolding outbox_PostgresRepository_MarkFailed_def by (rule marking_Inr)
next
  case (14 ev w c w')
  then show ?case
    unfolding outbox_PostgresRepository_Create_def
    by (auto dest!: mapErr_InrD elim!: sql_InrD simp: insert_outbox_events_def Let_def split: if_splits)
next
  case (15 ev w e w')
  then show ?case
    unfolding outbox_PostgresRepository_Create_def
    by (auto elim!: mapErr_InlE sql_InlE simp: insert_outbox_events_def Let_def split: if_splits)
qed (intro outbox_method_db_only db_only_FetchBatch outbox_method_keeps keeps_FetchBatch)+

end
