(* ===== verification/Metrics.thy ===== *)
theory Metrics
  imports Outbox_Store
begin

text \<open>
  internal/metrics: the metrics the process registers and the observers that count outcomes,
  with the interface \<open>Observer\<close> of the packages outbox and kafkaconsumer and the interface
  \<open>CacheObserver\<close> of the package user. A counter is a number per metric name and list of
  label values; the locales say that an observer touches the counters and nothing else.
\<close>

record Observer =
  Observer_EventProcessed :: "string \<Rightarrow> unit prog"
  Observer_EventFailed :: "string \<Rightarrow> unit prog"

record CacheObserver =
  CacheObserver_Hit :: "string \<Rightarrow> unit prog"
  CacheObserver_Miss :: "string \<Rightarrow> unit prog"

definition NoopObserver :: Observer where
  "NoopObserver = \<lparr>Observer_EventProcessed = (\<lambda>_. ret ()), Observer_EventFailed = (\<lambda>_. ret ())\<rparr>"

section \<open>metrics.New\<close>

datatype metric_kind = CounterVec | HistogramVec

text \<open>Each metric with its name and labels, in the order of registration.\<close>

definition metrics_New :: "(metric_kind \<times> string \<times> string list) list" where
  "metrics_New =
     [(CounterVec, ''http_requests_total'', [''method'', ''route'', ''status'']),
      (HistogramVec, ''http_request_duration_seconds'', [''method'', ''route'', ''status'']),
      (CounterVec, ''grpc_requests_total'', [''method'', ''status'']),
      (HistogramVec, ''grpc_request_duration_seconds'', [''method'', ''status'']),
      (CounterVec, ''outbox_events_processed_total'', [''event_type'']),
      (CounterVec, ''outbox_events_failed_total'', [''event_type'']),
      (CounterVec, ''kafka_consumer_events_processed_total'', [''event_type'']),
      (CounterVec, ''kafka_consumer_events_failed_total'', [''event_type'']),
      (CounterVec, ''redis_cache_hits_total'', [''cache'']),
      (CounterVec, ''redis_cache_misses_total'', [''cache''])]"

text \<open>\<open>MustRegister\<close> panics when a name is registered twice.\<close>

fun MustRegister :: "string set \<Rightarrow> (metric_kind \<times> string \<times> string list) list \<Rightarrow> bool" where
  "MustRegister seen [] = True"
| "MustRegister seen ((k, name, labels) # ms) =
     (if name \<in> seen then False else MustRegister (insert name seen) ms)"

text \<open>\<open>WithLabelValues(ls...)\<close> panics unless the metric has as many labels.\<close>

definition WithLabelValues_ok :: "string \<Rightarrow> string list \<Rightarrow> bool" where
  "WithLabelValues_ok name ls \<longleftrightarrow>
     list_ex (\<lambda>(k, n, labels). n = name \<and> length labels = length ls) metrics_New"

definition metric_inc :: "string \<Rightarrow> string list \<Rightarrow> unit prog" where
  "metric_inc name ls =
     modify (\<lambda>w. w\<lparr>counters := (counters w)((name, ls) := counters w (name, ls) + 1)\<rparr>)"

lemma metrics_registered [simp]: "MustRegister {} metrics_New"
  by (simp add: metrics_New_def)

section \<open>The observers\<close>

definition OutboxObserver :: Observer where
  "OutboxObserver =
     \<lparr>Observer_EventProcessed = (\<lambda>eventType. metric_inc ''outbox_events_processed_total'' [eventType]),
      Observer_EventFailed = (\<lambda>eventType. metric_inc ''outbox_events_failed_total'' [eventType])\<rparr>"

definition KafkaConsumerObserver :: Observer where
  "KafkaConsumerObserver =
     \<lparr>Observer_EventProcessed =
        (\<lambda>eventType. metric_inc ''kafka_consumer_events_processed_total'' [eventType]),
      Observer_EventFailed =
        (\<lambda>eventType. metric_inc ''kafka_consumer_events_failed_total'' [eventType])\<rparr>"

definition metrics_CacheObserver :: CacheObserver where
  "metrics_CacheObserver =
     \<lparr>CacheObserver_Hit = (\<lambda>cacheName. metric_inc ''redis_cache_hits_total'' [cacheName]),
      CacheObserver_Miss = (\<lambda>cacheName. metric_inc ''redis_cache_misses_total'' [cacheName])\<rparr>"

text \<open>A call that cannot fail and changes the counters only.\<close>

definition counts_only :: "unit prog \<Rightarrow> bool" where
  "counts_only m \<longleftrightarrow> (\<forall>w. \<exists>c. m w = (Inr (), w\<lparr>counters := c\<rparr>))"

lemma counts_onlyD: "counts_only m \<Longrightarrow> m w = (r, w') \<Longrightarrow> r = Inr () \<and> (\<exists>c. w' = w\<lparr>counters := c\<rparr>)"
  by (metis counts_only_def prod.inject)

lemma counts_only_ret [simp]: "counts_only (ret ())"
  unfolding counts_only_def by (intro allI, rule_tac x = "counters w" in exI) simp

lemma counts_only_inc [simp]: "counts_only (metric_inc n ls)"
  by (auto simp: counts_only_def metric_inc_def modify_def)

lemma counts_only_frame:
  assumes "counts_only m" and "\<And>w c. v (w\<lparr>counters := c\<rparr>) = v w"
  shows "frame v m"
proof (rule frameI)
  fix w
  from assms(1) obtain c where "m w = (Inr (), w\<lparr>counters := c\<rparr>)" by (auto simp: counts_only_def)
  with assms(2) show "v (snd (m w)) = v w" by simp
qed

locale event_observer =
  fixes obs :: Observer
  assumes counts: "counts_only (Observer_EventProcessed obs t)" "counts_only (Observer_EventFailed obs t)"
begin

lemma observer_frame:
  assumes "\<And>w c. v (w\<lparr>counters := c\<rparr>) = v w"
  shows "frame v (Observer_EventProcessed obs t)" "frame v (Observer_EventFailed obs t)"
  using counts assms by (auto intro: counts_only_frame)

end

interpretation noop_obs: event_observer NoopObserver
  by unfold_locales (simp_all add: NoopObserver_def)

interpretation outbox_obs: event_observer OutboxObserver
  by unfold_locales (simp_all add: OutboxObserver_def)

interpretation kafka_obs: event_observer KafkaConsumerObserver
  by unfold_locales (simp_all add: KafkaConsumerObserver_def)

locale cache_observer =
  fixes cobs :: CacheObserver
  assumes cache_counts: "counts_only (CacheObserver_Hit cobs t)" "counts_only (CacheObserver_Miss cobs t)"
begin

lemma cache_observer_frame:
  assumes "\<And>w c. v (w\<lparr>counters := c\<rparr>) = v w"
  shows "frame v (CacheObserver_Hit cobs t)" "frame v (CacheObserver_Miss cobs t)"
  using cache_counts assms by (auto intro: counts_only_frame)

end

interpretation metrics_cache_obs: cache_observer metrics_CacheObserver
  by unfold_locales (simp_all add: metrics_CacheObserver_def)

end
