(* ===== verification/Outbox_Worker.thy ===== *)
theory Outbox_Worker
  imports Metrics
begin

text \<open>
  internal/outbox: the publishers (publisher.go, kafka_publisher.go, log_publisher.go) and the
  worker (worker.go) that claims a batch of events, publishes them and records the outcome.
  The worker is parameterised, as in the code, by its store, publisher and observer; its
  lemmas are proved from the contracts of these interfaces (locale \<open>outbox_pipeline\<close>) and
  rest on the PostgreSQL store and the Kafka publisher by interpretation.
\<close>

section \<open>Publishers\<close>

record Publisher =
  Publisher_Publish :: "OutboxEvent \<Rightarrow> unit prog"

record KafkaPublisherConfig =
  KafkaPublisherConfig_Brokers :: "string list"
  KafkaPublisherConfig_Topic :: string
  KafkaPublisherConfig_ProducerBatchMaxBytes :: int
  KafkaPublisherConfig_ProducerLinger :: int
  KafkaPublisherConfig_ProduceTimeout :: int

record KafkaPublisher =
  KafkaPublisher_topic :: string
  KafkaPublisher_produceTimeout :: int

text \<open>The options of \<open>kgo\<close> the program passes.\<close>

datatype kgo_Opt =
    SeedBrokers "string list" | DefaultProduceTopic string | ClientID string
  | ProducerBatchMaxBytes int | ProducerLinger int
  | ConsumerGroup string | ConsumeTopics "string list" | DisableAutoCommit
  | ConsumeResetOffsetToStart

text \<open>\<open>kgo.NewClient\<close> is a parameter: it accepts the options or refuses them with an error.\<close>

definition NewKafkaPublisher ::
  "(kgo_Opt list \<Rightarrow> go_error option) \<Rightarrow> KafkaPublisherConfig \<Rightarrow> go_error + KafkaPublisher" where
  "NewKafkaPublisher newClient cfg =
     (if KafkaPublisherConfig_Brokers cfg = [] then Inl (NewError ''kafka brokers are required'')
      else if KafkaPublisherConfig_Topic cfg = '''' then Inl (NewError ''kafka topic is required'')
      else
        let opts = [SeedBrokers (KafkaPublisherConfig_Brokers cfg),
                    DefaultProduceTopic (KafkaPublisherConfig_Topic cfg),
                    ClientID ''identity-service''];
            opts = (if KafkaPublisherConfig_ProducerBatchMaxBytes cfg > 0
                    then opts @ [ProducerBatchMaxBytes (KafkaPublisherConfig_ProducerBatchMaxBytes cfg)]
                    else opts);
            opts = (if KafkaPublisherConfig_ProducerLinger cfg > 0
                    then opts @ [ProducerLinger (KafkaPublisherConfig_ProducerLinger cfg)] else opts)
        in case newClient opts of
             Some err \<Rightarrow> Inl (wrapf ''create kafka client'' err)
           | None \<Rightarrow> Inr \<lparr>KafkaPublisher_topic = KafkaPublisherConfig_Topic cfg,
                         KafkaPublisher_produceTimeout = KafkaPublisherConfig_ProduceTimeout cfg\<rparr>)"

text \<open>The record \<open>Publish\<close> builds; the client sets partition and offset.\<close>

definition publisher_record :: "KafkaPublisher \<Rightarrow> OutboxEvent \<Rightarrow> KafkaRecord" where
  "publisher_record p event =
     \<lparr>Record_Topic = KafkaPublisher_topic p,
      Record_Key = OutboxEvent_AggregateType event @ '':'' @ OutboxEvent_AggregateID event,
      Record_Value = OutboxEvent_Payload event,
      Record_Headers =
        [(''event_id'', FormatInt (OutboxEvent_ID event)),
         (''event_type'', OutboxEvent_EventType event),
         (''aggregate_type'', OutboxEvent_AggregateType event),
         (''aggregate_id'', OutboxEvent_AggregateID event),
         (''content_type'', OutboxEvent_ContentType event),
         (''proto_message'', OutboxEvent_ProtoMessage event),
         (''event_version'', OutboxEvent_EventVersion event)],
      Record_Timestamp = OutboxEvent_CreatedAt event,
      Record_Partition = 0, Record_Offset = 0\<rparr>"

text \<open>
  The broker appends the record to the partition that the client's partitioner (a parameter)
  chooses by its key.
\<close>

definition partition_log :: "string \<Rightarrow> int \<Rightarrow> KafkaRecord list \<Rightarrow> KafkaRecord list" where
  "partition_log topic part rs =
     filter (\<lambda>r. Record_Topic r = topic \<and> Record_Partition r = part) rs"

definition broker_append :: "(string \<Rightarrow> int) \<Rightarrow> KafkaRecord \<Rightarrow> unit prog" where
  "broker_append partitioner r w =
     (let part = partitioner (Record_Key r);
          off = int (length (partition_log (Record_Topic r) part (topic_log w)))
      in (Inr (), w\<lparr>topic_log := topic_log w @ [r\<lparr>Record_Partition := part, Record_Offset := off\<rparr>]\<rparr>))"

definition KafkaPublisher_Publish :: "(string \<Rightarrow> int) \<Rightarrow> KafkaPublisher \<Rightarrow> OutboxEvent \<Rightarrow> unit prog" where
  "KafkaPublisher_Publish partitioner p event =
     mapErr (wrapf ''produce kafka record'')
       (external (broker_append partitioner (publisher_record p event)))"

definition kafka_publisher :: "(string \<Rightarrow> int) \<Rightarrow> KafkaPublisher \<Rightarrow> Publisher" where
  "kafka_publisher partitioner p = \<lparr>Publisher_Publish = KafkaPublisher_Publish partitioner p\<rparr>"

definition LogPublisher_Publish :: "OutboxEvent \<Rightarrow> unit prog" where
  "LogPublisher_Publish event = ret ()"

definition log_publisher :: Publisher where
  "log_publisher = \<lparr>Publisher_Publish = LogPublisher_Publish\<rparr>"

section \<open>The worker\<close>

record WorkerConfig =
  WorkerConfig_Interval :: int
  WorkerConfig_BatchSize :: int
  WorkerConfig_MaxAttempts :: int
  WorkerConfig_LockTimeout :: int
  WorkerConfig_ProcessTimeout :: int

record Worker =
  Worker_store :: Store
  Worker_publisher :: Publisher
  Worker_cfg :: WorkerConfig
  Worker_observer :: Observer

type_synonym WorkerOption = "Worker \<Rightarrow> Worker"

definition WithObserver :: "Observer option \<Rightarrow> WorkerOption" where
  "WithObserver observer w =
     (case observer of None \<Rightarrow> w | Some obs \<Rightarrow> w\<lparr>Worker_observer := obs\<rparr>)"

definition NewWorker :: "Store \<Rightarrow> Publisher \<Rightarrow> WorkerConfig \<Rightarrow> WorkerOption list \<Rightarrow> Worker" where
  "NewWorker store publisher cfg opts =
     foldl (\<lambda>w opt. opt w)
       \<lparr>Worker_store = store, Worker_publisher = publisher, Worker_cfg = cfg,
        Worker_observer = NoopObserver\<rparr> opts"

definition failure_reason :: "go_error \<Rightarrow> string" where
  "failure_reason err = (let reason = Error err in
     if length reason > 1000 then take 1000 reason else reason)"

definition Worker_processEvent :: "Worker \<Rightarrow> OutboxEvent \<Rightarrow> unit prog" where
  "Worker_processEvent w event =
     attempt (Publisher_Publish (Worker_publisher w) event) (\<lambda>r. case r of
       Inl err \<Rightarrow>
         attempt (Store_MarkFailed (Worker_store w) (OutboxEvent_ID event) (failure_reason err)
                    (WorkerConfig_MaxAttempts (Worker_cfg w))) (\<lambda>m. case m of
             Inl markErr \<Rightarrow> throw (Errorf ''publish failed: '' err (''; mark failed: '' @ Error markErr))
           | Inr _ \<Rightarrow> andThen (Observer_EventFailed (Worker_observer w) (OutboxEvent_EventType event))
                       (\<lambda>_. throw err))
     | Inr _ \<Rightarrow>
         attempt (Store_MarkProcessed (Worker_store w) (OutboxEvent_ID event)) (\<lambda>m. case m of
             Inl err \<Rightarrow> andThen (Observer_EventFailed (Worker_observer w) (OutboxEvent_EventType event))
                         (\<lambda>_. throw (wrapf ''mark processed'' err))
           | Inr _ \<Rightarrow> Observer_EventProcessed (Worker_observer w) (OutboxEvent_EventType event)))"

text \<open>The loop over the batch: an error of an event is logged and the next one follows.\<close>

fun Worker_processBatch :: "Worker \<Rightarrow> OutboxEvent list \<Rightarrow> unit prog" where
  "Worker_processBatch w [] = ret ()"
| "Worker_processBatch w (event # events) =
     attempt (Worker_processEvent w event) (\<lambda>_. Worker_processBatch w events)"

definition Worker_ProcessOnce :: "Worker \<Rightarrow> unit prog" where
  "Worker_ProcessOnce w =
     andThen (mapErr (wrapf ''fetch outbox batch'')
                (Store_FetchBatch (Worker_store w) (WorkerConfig_BatchSize (Worker_cfg w))
                   (WorkerConfig_LockTimeout (Worker_cfg w)))) (Worker_processBatch w)"

text \<open>
  \<open>Run\<close>: one entry of the schedule per iteration says whether the context is done at the
  first select, how long the wait for the ticker takes, and whether the context ends it. The
  loop is still running (\<open>None\<close>) when the schedule is used up.
\<close>

record iteration =
  done_first :: bool
  waited :: nat
  done_waiting :: bool

fun Worker_Run :: "Worker \<Rightarrow> go_error \<Rightarrow> iteration list \<Rightarrow> world \<Rightarrow> go_error option \<times> world" where
  "Worker_Run wk ctxErr [] w = (None, w)"
| "Worker_Run wk ctxErr (it # its) w =
     (if done_first it then (Some ctxErr, w)
      else let w1 = snd (Worker_ProcessOnce wk w);
               w2 = w1\<lparr>clock := clock w1 + int (waited it)\<rparr>
           in if done_waiting it then (Some ctxErr, w2) else Worker_Run wk ctxErr its w2)"

section \<open>The contracts of a publisher\<close>

text \<open>What a publisher may do: append records to the log, and let time pass.\<close>

definition log_step :: "world \<Rightarrow> world \<Rightarrow> bool" where
  "log_step w w' \<longleftrightarrow> db w' = db w \<and> seqs w' = seqs w \<and> tx w' = tx w \<and> redis w' = redis w \<and>
     committed w' = committed w \<and> counters w' = counters w \<and> clock w \<le> clock w' \<and>
     set (topic_log w) \<subseteq> set (topic_log w')"

text \<open>The part of an event that the worker must not change.\<close>

definition content :: "OutboxEvent \<Rightarrow> OutboxEvent" where
  "content e = e\<lparr>OutboxEvent_Status := StatusNew, OutboxEvent_Attempts := 0,
     OutboxEvent_LastError := None, OutboxEvent_LockedAt := None, OutboxEvent_ProcessedAt := None\<rparr>"

locale publisher =
  fixes P :: Publisher
  assumes only_log: "Publisher_Publish P e w = (r, w') \<Longrightarrow> log_step w w'"

text \<open>
  A publisher whose success means that a record carrying the event is in the log, and whose
  records all carry the event they were published for.
\<close>

locale delivering_publisher = publisher P for P :: Publisher +
  fixes carries :: "OutboxEvent \<Rightarrow> KafkaRecord \<Rightarrow> bool"
  assumes delivers: "Publisher_Publish P e w = (Inr u, w') \<Longrightarrow> \<exists>r \<in> set (topic_log w'). carries e r"
    and appends: "Publisher_Publish P e w = (res, w') \<Longrightarrow>
      \<forall>rec \<in> set (topic_log w') - set (topic_log w). carries e rec"
    and carries_content: "content e = content e' \<Longrightarrow> carries e r = carries e' r"

text \<open>The Kafka publisher's records carry the event's content; partition and offset are free.\<close>

definition kafka_carries :: "KafkaPublisher \<Rightarrow> OutboxEvent \<Rightarrow> KafkaRecord \<Rightarrow> bool" where
  "kafka_carries p e r \<longleftrightarrow> r\<lparr>Record_Partition := 0, Record_Offset := 0\<rparr> = publisher_record p e"

lemma content_eqD:
  assumes "content e = content e'"
  shows "OutboxEvent_ID e = OutboxEvent_ID e'" "OutboxEvent_EventType e = OutboxEvent_EventType e'"
    "OutboxEvent_AggregateType e = OutboxEvent_AggregateType e'"
    "OutboxEvent_AggregateID e = OutboxEvent_AggregateID e'"
    "OutboxEvent_Payload e = OutboxEvent_Payload e'"
    "OutboxEvent_ContentType e = OutboxEvent_ContentType e'"
    "OutboxEvent_ProtoMessage e = OutboxEvent_ProtoMessage e'"
    "OutboxEvent_EventVersion e = OutboxEvent_EventVersion e'"
    "OutboxEvent_CreatedAt e = OutboxEvent_CreatedAt e'"
  using assms unfolding content_def by (cases e; cases e'; simp)+

lemma content_updates [simp]:
  "content (claim t e) = content e" "content (mark_processed t e) = content e"
  "content (mark_failed reason mx e) = content e"
  by (simp_all add: content_def outbox_row_updates)

lemma mark_failed_not_processed: "OutboxEvent_Status (mark_failed reason mx e) \<noteq> StatusProcessed"
  by (simp add: mark_failed_def)

lemma content_ID [simp]: "OutboxEvent_ID (content e) = OutboxEvent_ID e"
  by (simp add: content_def)

lemma kafka_publish_step:
  assumes "external (broker_append pt rec) w = (r, w')"
  shows "log_step w w'"
  using assms
  by (cases rule: external_cases) (auto simp: broker_append_def Let_def log_step_def)

interpretation kafka_pub: delivering_publisher "kafka_publisher pt p" "kafka_carries p"
proof (unfold_locales, unfold kafka_publisher_def Publisher.simps, goal_cases)
  case (1 e w r w')
  then obtain r0 where "external (broker_append pt (publisher_record p e)) w = (r0, w')"
    by (cases "external (broker_append pt (publisher_record p e)) w")
      (auto simp: KafkaPublisher_Publish_def mapErr_def split: sum.splits)
  then show ?case by (rule kafka_publish_step)
next
  case (2 e w u w')
  then show ?case
    unfolding KafkaPublisher_Publish_def
    by (auto dest!: mapErr_InrD elim!: external_InrD
        simp: broker_append_def Let_def kafka_carries_def publisher_record_def)
next
  case (3 e w r w')
  then obtain r0 where "external (broker_append pt (publisher_record p e)) w = (r0, w')"
    by (cases "external (broker_append pt (publisher_record p e)) w")
      (auto simp: KafkaPublisher_Publish_def mapErr_def split: sum.splits)
  then show ?case
    by (cases rule: external_cases)
      (auto simp: broker_append_def Let_def kafka_carries_def publisher_record_def)
next
  case (4 e e' r)
  then have "publisher_record p e = publisher_record p e'"
    by (simp add: publisher_record_def content_eqD [OF 4])
  then show ?case by (simp add: kafka_carries_def)
qed

text \<open>The log publisher accepts everything and delivers nothing.\<close>

interpretation log_pub: publisher log_publisher
  by unfold_locales (simp add: log_publisher_def LogPublisher_Publish_def log_step_def)

section \<open>The life of an event\<close>

text \<open>The transitions of a row; \<open>mx\<close> is the configured number of attempts.\<close>

inductive status_step :: "int \<Rightarrow> OutboxEvent \<Rightarrow> OutboxEvent \<Rightarrow> bool" for mx where
  claim_event: "OutboxEvent_Status e \<in> {StatusNew, StatusProcessing} \<Longrightarrow> status_step mx e (claim t e)"
| event_processed: "OutboxEvent_Status e = StatusProcessing \<Longrightarrow> status_step mx e (mark_processed t e)"
| event_failed: "OutboxEvent_Status e = StatusProcessing \<Longrightarrow> status_step mx e (mark_failed reason mx e)"

inductive_cases status_stepE: "status_step mx e e'"

definition evolves :: "int \<Rightarrow> OutboxEvent list \<Rightarrow> OutboxEvent list \<Rightarrow> bool" where
  "evolves mx = list_all2 (status_step mx)\<^sup>*\<^sup>*"

lemma status_step_content: "status_step mx e e' \<Longrightarrow> content e' = content e"
  by (erule status_stepE) simp_all

lemma status_steps_content: "(status_step mx)\<^sup>*\<^sup>* e e' \<Longrightarrow> content e' = content e"
  by (induction rule: rtranclp_induct) (simp_all add: status_step_content)

lemma final_step: "OutboxEvent_Status e \<in> {StatusProcessed, StatusFailed} \<Longrightarrow> \<not> status_step mx e e'"
  by (auto elim: status_stepE)

lemma final_steps:
  assumes "(status_step mx)\<^sup>*\<^sup>* e e'" and "OutboxEvent_Status e \<in> {StatusProcessed, StatusFailed}"
  shows "e' = e"
  using assms final_step by (metis converse_rtranclpE)

lemma steps_attempts: "(status_step mx)\<^sup>*\<^sup>* e e' \<Longrightarrow> OutboxEvent_Attempts e \<le> OutboxEvent_Attempts e'"
  by (induction rule: rtranclp_induct) (auto elim!: status_stepE simp: outbox_row_updates)

lemma steps_failed:
  "(status_step mx)\<^sup>*\<^sup>* e e' \<Longrightarrow> OutboxEvent_Status e' = StatusFailed \<Longrightarrow>
     OutboxEvent_Status e = StatusFailed \<or> mx \<le> OutboxEvent_Attempts e'"
  by (induction rule: rtranclp_induct)
    (auto elim!: status_stepE simp: outbox_row_updates split: if_splits)

lemma evolves_refl [simp]: "evolves mx es es"
  by (simp add: evolves_def list.rel_refl)

lemma evolves_trans: "evolves mx es fs \<Longrightarrow> evolves mx fs gs \<Longrightarrow> evolves mx es gs"
  unfolding evolves_def by (rule list_all2_trans [OF rtranclp_trans])

lemma evolves_content: "evolves mx es fs \<Longrightarrow> map content fs = map content es"
  unfolding evolves_def
  by (induction rule: list_all2_induct) (simp_all add: status_steps_content)

lemma map_ID_content: "map OutboxEvent_ID es = map OutboxEvent_ID (map content es)"
  by simp

lemma evolves_IDs: "evolves mx es fs \<Longrightarrow> map OutboxEvent_ID fs = map OutboxEvent_ID es"
  by (metis evolves_content map_ID_content)

lemma evolves_update_where:
  assumes "\<And>e. e \<in> set es \<Longrightarrow> p e \<Longrightarrow> status_step mx e (f e)"
  shows "evolves mx es (update_where p f es)"
  using assms unfolding evolves_def by (induction es) auto

lemma evolves_in:
  assumes "evolves mx es fs" and "f \<in> set fs"
  shows "\<exists>e \<in> set es. (status_step mx)\<^sup>*\<^sup>* e f"
  using assms unfolding evolves_def by (metis in_set_conv_nth list_all2_conv_all_nth)

section \<open>The worker over the contracts\<close>

definition rows :: "world \<Rightarrow> OutboxEvent list" where
  "rows w = outbox_events (db w)"

text \<open>An event in hand is a row's content, and ids identify rows.\<close>

definition in_hand :: "OutboxEvent list \<Rightarrow> OutboxEvent list \<Rightarrow> bool" where
  "in_hand evs es \<longleftrightarrow> distinct (map OutboxEvent_ID es) \<and>
     (\<forall>e \<in> set evs. content e \<in> content ` set es)"

text \<open>Every event marked PROCESSED has a record in the log.\<close>

definition sent_ok :: "(OutboxEvent \<Rightarrow> KafkaRecord \<Rightarrow> bool) \<Rightarrow> world \<Rightarrow> bool" where
  "sent_ok carries w \<longleftrightarrow>
     (\<forall>e \<in> set (rows w). OutboxEvent_Status e = StatusProcessed \<longrightarrow> (\<exists>r \<in> set (topic_log w). carries e r))"

definition worker_step ::
  "(OutboxEvent \<Rightarrow> KafkaRecord \<Rightarrow> bool) \<Rightarrow> int \<Rightarrow> world \<Rightarrow> world \<Rightarrow> bool" where
  "worker_step carries mx w w' \<longleftrightarrow> evolves mx (rows w) (rows w') \<and>
     set (topic_log w) \<subseteq> set (topic_log w') \<and> (sent_ok carries w \<longrightarrow> sent_ok carries w') \<and>
     (\<forall>rec \<in> set (topic_log w') - set (topic_log w). \<exists>e \<in> set (rows w'). carries e rec) \<and>
     tx w' = tx w \<and> redis w' = redis w \<and> committed w' = committed w \<and> clock w \<le> clock w'"

lemma worker_step_refl [simp]: "worker_step carries mx w w"
  by (simp add: worker_step_def)

lemma in_hand_evolves: "in_hand evs es \<Longrightarrow> evolves mx es fs \<Longrightarrow> in_hand evs fs"
  unfolding in_hand_def by (metis evolves_IDs evolves_content list.set_map)

lemma worker_step_in_hand:
  "in_hand evs (rows w) \<Longrightarrow> worker_step carries mx w w' \<Longrightarrow> in_hand evs (rows w')"
  by (auto simp: worker_step_def intro: in_hand_evolves)

lemma counts_only_step: "counts_only m \<Longrightarrow> m w = (r, w') \<Longrightarrow> worker_step carries mx w w'"
  by (auto dest!: counts_onlyD simp: worker_step_def rows_def sent_ok_def)

lemma sent_okI:
  assumes "sent_ok carries w" and "set (topic_log w) \<subseteq> set (topic_log w')"
    and "\<And>e. e \<in> set (rows w') \<Longrightarrow> OutboxEvent_Status e = StatusProcessed \<Longrightarrow>
      e \<in> set (rows w) \<or> (\<exists>r \<in> set (topic_log w'). carries e r)"
  shows "sent_ok carries w'"
  using assms unfolding sent_ok_def by (meson subsetD)

text \<open>The worker as internal/app/app.go wires it.\<close>

definition outbox_worker :: "Store \<Rightarrow> Publisher \<Rightarrow> Observer \<Rightarrow> WorkerConfig \<Rightarrow> Worker" where
  "outbox_worker store pub obs cfg =
     NewWorker store pub cfg [WithObserver (Some obs)]"

lemma outbox_worker_simps [simp]:
  "Worker_store (outbox_worker S P obs cfg) = S" "Worker_publisher (outbox_worker S P obs cfg) = P"
  "Worker_cfg (outbox_worker S P obs cfg) = cfg" "Worker_observer (outbox_worker S P obs cfg) = obs"
  by (simp_all add: outbox_worker_def NewWorker_def WithObserver_def)

locale outbox_pipeline = outbox_store S + delivering_publisher P carries + event_observer obs
  for S :: Store and P :: Publisher and carries :: "OutboxEvent \<Rightarrow> KafkaRecord \<Rightarrow> bool"
    and obs :: Observer
begin

text \<open>A record that carries a row still carries it when the row has moved on.\<close>

lemma carries_evolves:
  assumes "\<exists>e \<in> set es. carries e rec" and "evolves mx es fs"
  shows "\<exists>f \<in> set fs. carries f rec"
proof -
  from assms(1) obtain e where e: "e \<in> set es" "carries e rec" by blast
  from e(1) have "content e \<in> set (map content fs)" by (simp add: evolves_content [OF assms(2)])
  then obtain f where "f \<in> set fs" "content f = content e" by auto
  with e(2) show ?thesis using carries_content by blast
qed

lemma worker_step_trans:
  assumes ab: "worker_step carries mx a b" and bc: "worker_step carries mx b c"
  shows "worker_step carries mx a c"
proof -
  have "\<exists>e \<in> set (rows c). carries e rec" if "rec \<in> set (topic_log c) - set (topic_log a)" for rec
  proof (cases "rec \<in> set (topic_log b)")
    case True
    with that ab have "\<exists>e \<in> set (rows b). carries e rec" by (auto simp: worker_step_def)
    then show ?thesis by (rule carries_evolves [where mx = mx]) (use bc in \<open>simp add: worker_step_def\<close>)
  qed (use that bc in \<open>simp add: worker_step_def\<close>)
  with ab bc show ?thesis by (auto simp: worker_step_def intro: evolves_trans)
qed

lemma publish_step:
  assumes "Publisher_Publish P e w = (r, w')" and "in_hand [e] (rows w)"
  shows "worker_step carries mx w w'"
proof -
  have d: "log_step w w'" by (rule only_log [OF assms(1)])
  then have r: "rows w' = rows w" and l: "set (topic_log w) \<subseteq> set (topic_log w')"
    by (simp_all add: log_step_def rows_def)
  have "sent_ok carries w \<Longrightarrow> sent_ok carries w'"
    by (rule sent_okI [OF _ l]) (simp_all add: r)
  moreover from assms(2) obtain f where "f \<in> set (rows w)" "content f = content e"
    by (auto simp: in_hand_def)
  then have "\<forall>rec \<in> set (topic_log w') - set (topic_log w). \<exists>e \<in> set (rows w'). carries e rec"
    using appends [OF assms(1)] carries_content [of f e] by (auto simp: r)
  ultimately show ?thesis using d r l by (simp add: worker_step_def log_step_def)
qed

lemma update_step:
  assumes d: "db_step w w'" and u: "rows w' = update_where p f (rows w)"
    and s: "\<And>e. e \<in> set (rows w) \<Longrightarrow> p e \<Longrightarrow> status_step mx e (f e)"
    and c: "\<And>e. e \<in> set (rows w) \<Longrightarrow> p e \<Longrightarrow> OutboxEvent_Status (f e) = StatusProcessed \<Longrightarrow>
      \<exists>r \<in> set (topic_log w). carries (f e) r"
  shows "worker_step carries mx w w'"
proof -
  have l: "topic_log w' = topic_log w" using d by (simp add: db_step_def)
  have "sent_ok carries w \<Longrightarrow> sent_ok carries w'"
  proof (rule sent_okI)
    fix e' assume "e' \<in> set (rows w')" and pr: "OutboxEvent_Status e' = StatusProcessed"
    then obtain e where e: "e \<in> set (rows w)" "e' = (if p e then f e else e)"
      unfolding u by (auto dest: update_where_in)
    with pr c show "e' \<in> set (rows w) \<or> (\<exists>r \<in> set (topic_log w'). carries e' r)"
      by (cases "p e") (auto simp: l)
  qed (simp_all add: l)
  moreover have "evolves mx (rows w) (rows w')" unfolding u by (rule evolves_update_where) (rule s)
  ultimately show ?thesis using d by (simp add: worker_step_def db_step_def l)
qed

lemma same_rows_step: "db_step w w' \<Longrightarrow> rows w' = rows w \<Longrightarrow> worker_step carries mx w w'"
  by (rule update_step [where p = "\<lambda>_. False" and f = id]) (simp_all add: update_where_none)

lemma mark_failed_step:
  assumes m: "Store_MarkFailed S i reason mx w = (r, w')"
  shows "worker_step carries mx w w'"
proof -
  have d: "db_step w w'" by (rule db_onlyD [OF only_db(3) m])
  from failed [OF m] consider "rows w' = rows w"
    | "rows w' = update_where (is_processing i) (mark_failed reason mx) (rows w)"
    by (auto simp: rows_def)
  then show ?thesis
  proof cases
    case 1 with d show ?thesis by (rule same_rows_step)
  next
    case 2
    show ?thesis
      by (rule update_step [OF d 2]) (auto simp: is_processing_def mark_failed_not_processed intro: event_failed)
  qed
qed

lemma mark_processed_step:
  assumes m: "Store_MarkProcessed S (OutboxEvent_ID e) w = (r, w')"
    and h: "in_hand [e] (rows w)" and c: "\<exists>r \<in> set (topic_log w). carries e r"
  shows "worker_step carries mx w w'"
proof -
  have d: "db_step w w'" by (rule db_onlyD [OF only_db(2) m])
  from processed [OF m] consider "rows w' = rows w"
    | t where "rows w' = update_where (is_processing (OutboxEvent_ID e)) (mark_processed t) (rows w)"
    by (auto simp: rows_def)
  then show ?thesis
  proof cases
    case 1 with d show ?thesis by (rule same_rows_step)
  next
    case 2
    show ?thesis
    proof (rule update_step [OF d 2])
      fix f assume f: "f \<in> set (rows w)" "is_processing (OutboxEvent_ID e) f"
      then show "status_step mx f (mark_processed t f)"
        by (auto simp: is_processing_def intro: event_processed)
      from h obtain g where g: "g \<in> set (rows w)" "content g = content e" "distinct (map OutboxEvent_ID (rows w))"
        by (auto simp: in_hand_def)
      with f have "g = f" by (metis content_eqD(1) distinct_key_unique is_processing_def)
      with g have "content (mark_processed t f) = content e" by simp
      with c show "\<exists>r \<in> set (topic_log w). carries (mark_processed t f) r"
        using carries_content by blast
    qed
  qed
qed

lemma observer_step:
  "Observer_EventFailed obs x w = (r, w') \<Longrightarrow> worker_step carries mx w w'"
  "Observer_EventProcessed obs x w = (r, w') \<Longrightarrow> worker_step carries mx w w'"
  by (erule counts_only_step [OF counts(2)], erule counts_only_step [OF counts(1)])

lemma processEvent_step:
  assumes h: "in_hand [e] (rows w)" and run: "Worker_processEvent (outbox_worker S P obs cfg) e w = (r, w')"
  shows "worker_step carries (WorkerConfig_MaxAttempts cfg) w w'"
proof -
  note tr = worker_step_trans [where mx = "WorkerConfig_MaxAttempts cfg"]
  from run obtain q w1 where 1: "Publisher_Publish P e w = (q, w1)"
    by (auto simp: Worker_processEvent_def elim!: attemptE)
  have s1: "worker_step carries (WorkerConfig_MaxAttempts cfg) w w1" by (rule publish_step [OF 1 h])
  show ?thesis
  proof (cases q)
    case (Inl err)
    with run 1 obtain m w2
      where 2: "Store_MarkFailed S (OutboxEvent_ID e) (failure_reason err)
                 (WorkerConfig_MaxAttempts cfg) w1 = (m, w2)"
        and 3: "w2 = w' \<or> (\<exists>x. Observer_EventFailed obs (OutboxEvent_EventType e) w2 = (x, w'))"
      by (auto simp: Worker_processEvent_def attempt_def andThen_def throw_def
          split: prod.splits sum.splits)
    show ?thesis
      using tr [OF s1 mark_failed_step [OF 2]] 3 observer_step(1) by (blast intro: tr)
  next
    case (Inr u)
    with run 1 obtain m w2 where 2: "Store_MarkProcessed S (OutboxEvent_ID e) w1 = (m, w2)"
        and 3: "(\<exists>x. Observer_EventFailed obs (OutboxEvent_EventType e) w2 = (x, w')) \<or>
                (\<exists>x. Observer_EventProcessed obs (OutboxEvent_EventType e) w2 = (x, w'))"
      by (auto simp: Worker_processEvent_def attempt_def andThen_def throw_def
          split: prod.splits sum.splits)
    have "worker_step carries (WorkerConfig_MaxAttempts cfg) w1 w2"
      by (rule mark_processed_step [OF 2 worker_step_in_hand [OF h s1]])
        (use delivers 1 Inr in blast)
    then show ?thesis using tr [OF s1] 3 observer_step by (blast intro: tr)
  qed
qed

lemma processBatch_step:
  "in_hand es (rows w) \<Longrightarrow> Worker_processBatch (outbox_worker S P obs cfg) es w = (r, w') \<Longrightarrow>
     worker_step carries (WorkerConfig_MaxAttempts cfg) w w'"
proof (induction es arbitrary: w)
  case (Cons e es)
  from Cons.prems(2) obtain q w1 where 1: "Worker_processEvent (outbox_worker S P obs cfg) e w = (q, w1)"
    and 2: "Worker_processBatch (outbox_worker S P obs cfg) es w1 = (r, w')" by (auto elim: attemptE)
  have s: "worker_step carries (WorkerConfig_MaxAttempts cfg) w w1"
    by (rule processEvent_step [OF _ 1]) (use Cons.prems(1) in \<open>simp add: in_hand_def\<close>)
  have "in_hand es (rows w)" using Cons.prems(1) by (simp add: in_hand_def)
  from Cons.IH [OF worker_step_in_hand [OF this s] 2] s show ?case by (blast intro: worker_step_trans)
qed simp

lemma fetch_step:
  assumes f: "Store_FetchBatch S lim lt w = (r, w')" and d: "distinct (map OutboxEvent_ID (rows w))"
  shows "worker_step carries mx w w'" and "r = Inr es \<Longrightarrow> in_hand es (rows w')"
    and "r = Inr es \<Longrightarrow> length es \<le> nat lim"
proof -
  from fetch [OF f] obtain ids t where
    ids: "length ids \<le> nat lim" "distinct ids"
      "\<forall>i \<in> set ids. \<exists>e \<in> set (rows w). OutboxEvent_ID e = i \<and> fetchable (clock w - lt) e"
    and u: "rows w' = update_where (\<lambda>e. OutboxEvent_ID e \<in> set ids) (claim t) (rows w)"
    and r: "r = Inr es \<Longrightarrow> es = filter (\<lambda>e. OutboxEvent_ID e \<in> set ids) (rows w')" for es
    using d by (auto simp: rows_def)
  have fe: "fetchable (clock w - lt) e" if "e \<in> set (rows w)" "OutboxEvent_ID e \<in> set ids" for e
    using ids(3) that d by (metis distinct_key_unique)
  show "worker_step carries mx w w'"
  proof (rule update_step [OF db_onlyD [OF only_db(1) f] u])
    fix e assume "e \<in> set (rows w)" "OutboxEvent_ID e \<in> set ids"
    from fe [OF this] show "status_step mx e (claim t e)"
      by (auto simp: fetchable_def intro: claim_event)
  qed (simp add: claim_def)
  have d': "distinct (map OutboxEvent_ID (rows w'))"
    unfolding u using d by (simp add: map_update_where)
  then show "r = Inr es \<Longrightarrow> in_hand es (rows w')" by (auto dest!: r simp: in_hand_def)
  assume "r = Inr es"
  then have es: "es = filter (\<lambda>e. OutboxEvent_ID e \<in> set ids) (rows w')" by (rule r)
  have "distinct (map OutboxEvent_ID es)" unfolding es using d' by (rule distinct_map_filter_key)
  moreover have "set (map OutboxEvent_ID es) \<subseteq> set ids" unfolding es by auto
  ultimately have "length (map OutboxEvent_ID es) \<le> length ids"
    by (metis card_mono distinct_card finite_set ids(2))
  with ids(1) show "length es \<le> nat lim" by simp
qed

lemma ProcessOnce_step:
  assumes d: "distinct (map OutboxEvent_ID (rows w))" and run: "Worker_ProcessOnce (outbox_worker S P obs cfg) w = (r, w')"
  shows "worker_step carries (WorkerConfig_MaxAttempts cfg) w w'"
proof -
  obtain q w1 where 1: "Store_FetchBatch S (WorkerConfig_BatchSize cfg) (WorkerConfig_LockTimeout cfg) w = (q, w1)"
    by (cases "Store_FetchBatch S (WorkerConfig_BatchSize cfg) (WorkerConfig_LockTimeout cfg) w")
  note s = fetch_step [OF 1 d]
  show ?thesis
  proof (cases q)
    case (Inl e)
    with run 1 have "w' = w1" by (simp add: Worker_ProcessOnce_def andThen_def mapErr_def)
    with s(1) show ?thesis by simp
  next
    case (Inr es)
    with run 1 have "Worker_processBatch (outbox_worker S P obs cfg) es w1 = (r, w')"
      by (simp add: Worker_ProcessOnce_def andThen_def mapErr_def)
    with s(1) s(2) [OF Inr] show ?thesis by (blast intro: worker_step_trans processBatch_step)
  qed
qed

lemma Run_step:
  "distinct (map OutboxEvent_ID (rows w)) \<Longrightarrow> Worker_Run (outbox_worker S P obs cfg) ctxErr its w = (r, w') \<Longrightarrow>
     worker_step carries (WorkerConfig_MaxAttempts cfg) w w'"
proof (induction its arbitrary: w)
  case (Cons it its)
  obtain q w1 where 1: "Worker_ProcessOnce (outbox_worker S P obs cfg) w = (q, w1)" by (cases "Worker_ProcessOnce (outbox_worker S P obs cfg) w")
  let ?w = "w1\<lparr>clock := clock w1 + int (waited it)\<rparr>"
  have "worker_step carries (WorkerConfig_MaxAttempts cfg) w1 ?w"
    by (simp add: worker_step_def rows_def sent_ok_def)
  with ProcessOnce_step [OF Cons.prems(1) 1]
  have s: "worker_step carries (WorkerConfig_MaxAttempts cfg) w ?w" by (rule worker_step_trans)
  then have "distinct (map OutboxEvent_ID (rows ?w))"
    using Cons.prems(1) by (metis evolves_IDs worker_step_def)
  note IH = Cons.IH [OF this]
  show ?case
  proof (cases "done_first it")
    case False
    with Cons.prems(2) 1 s IH show ?thesis
      by (cases "done_waiting it") (auto simp: Let_def intro: worker_step_trans)
  qed (use Cons.prems(2) in simp)
qed simp

end

interpretation pipe: outbox_pipeline outbox_NewPostgresRepository "kafka_publisher pt p" "kafka_carries p"
    OutboxObserver
  by unfold_locales

section \<open>A run without failures\<close>

definition kafka_worker :: "(string \<Rightarrow> int) \<Rightarrow> KafkaPublisher \<Rightarrow> WorkerConfig \<Rightarrow> Worker" where
  "kafka_worker pt p cfg = outbox_worker outbox_NewPostgresRepository (kafka_publisher pt p) OutboxObserver cfg"

definition unplaced :: "KafkaRecord \<Rightarrow> KafkaRecord" where
  "unplaced r = r\<lparr>Record_Partition := 0, Record_Offset := 0\<rparr>"

definition placed :: "(string \<Rightarrow> int) \<Rightarrow> world \<Rightarrow> KafkaRecord \<Rightarrow> KafkaRecord" where
  "placed pt w r = r\<lparr>Record_Partition := pt (Record_Key r),
     Record_Offset := int (length (partition_log (Record_Topic r) (pt (Record_Key r)) (topic_log w)))\<rparr>"

lemma unplaced_placed [simp]: "unplaced (placed pt w (publisher_record p e)) = publisher_record p e"
  by (simp add: unplaced_def placed_def publisher_record_def)

lemma publish_ok:
  "plan w = [] \<Longrightarrow> Publisher_Publish (kafka_publisher pt p) e w =
     (Inr (), w\<lparr>topic_log := topic_log w @ [placed pt w (publisher_record p e)]\<rparr>)"
  by (simp add: kafka_publisher_def KafkaPublisher_Publish_def mapErr_def external_empty
      broker_append_def Let_def placed_def)

lemma MarkProcessed_ok:
  assumes "plan w = []" and "\<exists>f \<in> set (rows w). is_processing i f"
  shows "Store_MarkProcessed outbox_NewPostgresRepository i w = (Inr (), w\<lparr>db := (db w)\<lparr>outbox_events :=
        update_where (is_processing i) (mark_processed (pg_now w)) (rows w)\<rparr>\<rparr>)"
proof -
  from assms(2) have "filter (is_processing i) (outbox_events (db w)) \<noteq> []"
    by (auto simp: filter_empty_conv rows_def)
  with assms(1) show ?thesis
    by (simp add: outbox_NewPostgresRepository_def outbox_PostgresRepository_MarkProcessed_def
        andThen_def mapErr_def sql_empty update_outbox_def ret_def rows_def)
qed

definition sent_world :: "(string \<Rightarrow> int) \<Rightarrow> KafkaPublisher \<Rightarrow> OutboxEvent \<Rightarrow> world \<Rightarrow> world" where
  "sent_world pt p e w =
     w\<lparr>db := (db w)\<lparr>outbox_events :=
         update_where (is_processing (OutboxEvent_ID e)) (mark_processed (pg_now w)) (rows w)\<rparr>,
       topic_log := topic_log w @ [placed pt w (publisher_record p e)],
       counters := (counters w)((''outbox_events_processed_total'', [OutboxEvent_EventType e]) :=
         counters w (''outbox_events_processed_total'', [OutboxEvent_EventType e]) + 1)\<rparr>"

lemma pg_now_updates [simp]:
  "pg_now (w\<lparr>db := d\<rparr>) = pg_now w" "pg_now (w\<lparr>topic_log := l\<rparr>) = pg_now w"
  "pg_now (w\<lparr>counters := c\<rparr>) = pg_now w" "pg_now (w\<lparr>seqs := q\<rparr>) = pg_now w"
  "pg_now (w\<lparr>redis := rd\<rparr>) = pg_now w" "pg_now (w\<lparr>entropy := en\<rparr>) = pg_now w"
  by (simp_all add: pg_now_def split: option.split)

lemma sent_world_simps [simp]:
  "plan (sent_world pt p e w) = plan w" "tx (sent_world pt p e w) = tx w"
  "pg_now (sent_world pt p e w) = pg_now w"
  "rows (sent_world pt p e w) =
     update_where (is_processing (OutboxEvent_ID e)) (mark_processed (pg_now w)) (rows w)"
  "map unplaced (topic_log (sent_world pt p e w)) =
     map unplaced (topic_log w) @ [publisher_record p e]"
  by (simp_all add: sent_world_def rows_def)

lemma processEvent_ok:
  assumes "plan w = []" and "\<exists>f \<in> set (rows w). is_processing (OutboxEvent_ID e) f"
  shows "Worker_processEvent (kafka_worker pt p cfg) e w = (Inr (), sent_world pt p e w)"
  using assms
  by (simp add: Worker_processEvent_def kafka_worker_def attempt_def publish_ok MarkProcessed_ok
      rows_def OutboxObserver_def metric_inc_def modify_def sent_world_def)

text \<open>A batch of claimed events is published in order and every one marked PROCESSED.\<close>

lemma update_where_two:
  assumes "\<And>e. e \<in> set es \<Longrightarrow> p e \<Longrightarrow> \<not> q (f e)"
  shows "update_where q f (update_where p f es) = update_where (\<lambda>e. p e \<or> q e) f es"
  using assms by (induction es) auto

lemma processBatch_ok:
  assumes "plan w = []" and "distinct (map OutboxEvent_ID evs)"
    and "\<And>e. e \<in> set evs \<Longrightarrow> \<exists>f \<in> set (rows w). is_processing (OutboxEvent_ID e) f"
  shows "\<exists>w'. Worker_processBatch (kafka_worker pt p cfg) evs w = (Inr (), w') \<and>
    rows w' = update_where (\<lambda>e. OutboxEvent_ID e \<in> OutboxEvent_ID ` set evs \<and>
        OutboxEvent_Status e = StatusProcessing) (mark_processed (pg_now w)) (rows w) \<and>
    map unplaced (topic_log w') = map unplaced (topic_log w) @ map (publisher_record p) evs \<and> plan w' = []"
  using assms
proof (induction evs arbitrary: w)
  case Nil
  then show ?case by (simp add: update_where_none)
next
  case (Cons e evs)
  let ?w = "sent_world pt p e w"
  have 1: "Worker_processEvent (kafka_worker pt p cfg) e w = (Inr (), ?w)"
    using Cons.prems by (intro processEvent_ok) auto
  have "\<exists>f \<in> set (rows ?w). is_processing (OutboxEvent_ID g) f" if g: "g \<in> set evs" for g
  proof -
    from Cons.prems(3) [of g] g obtain f where f: "f \<in> set (rows w)" "is_processing (OutboxEvent_ID g) f"
      by auto
    have "\<not> is_processing (OutboxEvent_ID e) f" using f(2) g Cons.prems(2)
      by (auto simp: is_processing_def) (metis image_eqI)
    with f show ?thesis by (auto simp: set_update_where)
  qed
  from Cons.IH [OF _ _ this] Cons.prems obtain w' where
    2: "Worker_processBatch (kafka_worker pt p cfg) evs ?w = (Inr (), w')"
      "rows w' = update_where (\<lambda>e. OutboxEvent_ID e \<in> OutboxEvent_ID ` set evs \<and>
         OutboxEvent_Status e = StatusProcessing) (mark_processed (pg_now w)) (rows ?w)"
      "map unplaced (topic_log w') = map unplaced (topic_log ?w) @ map (publisher_record p) evs" "plan w' = []"
    by auto
  have "rows w' = update_where (\<lambda>f. OutboxEvent_ID f \<in> OutboxEvent_ID ` set (e # evs) \<and>
      OutboxEvent_Status f = StatusProcessing) (mark_processed (pg_now w)) (rows w)"
    unfolding 2(2) sent_world_simps
    by (subst update_where_two)
      (auto simp: is_processing_def mark_processed_def update_where_def)
  with 1 2 show ?case by (auto simp: attempt_def)
qed

lemma FetchBatch_ok:
  assumes "plan w = []" and "0 < lim"
  shows "Store_FetchBatch outbox_NewPostgresRepository lim lt w =
    (let ids = batch_ids (nat lim) (clock w - lt) (rows w);
         es = update_where (\<lambda>e. OutboxEvent_ID e \<in> set ids) (claim (pg_now w)) (rows w)
     in (Inr (filter (\<lambda>e. OutboxEvent_ID e \<in> set ids) es), w\<lparr>db := (db w)\<lparr>outbox_events := es\<rparr>\<rparr>))"
  using assms
  by (simp add: outbox_NewPostgresRepository_def outbox_PostgresRepository_FetchBatch_def Let_def
      mapErr_def sql_empty claim_batch_def rows_def)

lemma batch_ids_all:
  assumes "length (filter (fetchable b) es) \<le> n" and "distinct (map OutboxEvent_ID es)" and "e \<in> set es"
  shows "OutboxEvent_ID e \<in> set (batch_ids n b es) \<longleftrightarrow> fetchable b e"
proof
  assume "OutboxEvent_ID e \<in> set (batch_ids n b es)"
  then obtain f where "f \<in> set es" "OutboxEvent_ID f = OutboxEvent_ID e" "fetchable b f"
    by (auto dest: batch_ids_fetchable)
  with assms(2,3) show "fetchable b e" by (metis distinct_key_unique)
next
  assume "fetchable b e"
  with assms(1,3) show "OutboxEvent_ID e \<in> set (batch_ids n b es)" by (simp add: batch_ids_def)
qed

lemma update_where_cong:
  "(\<And>e. e \<in> set es \<Longrightarrow> p e = q e) \<Longrightarrow> (\<And>e. e \<in> set es \<Longrightarrow> q e \<Longrightarrow> f e = g e) \<Longrightarrow>
     update_where p f es = update_where q g es"
  by (simp add: update_where_def)

lemma claimed_processing [simp]: "OutboxEvent_Status (claim t e) = StatusProcessing"
  by (simp add: claim_def)

lemma ProcessOnce_ok:
  assumes "plan w = []" and d: "distinct (map OutboxEvent_ID (rows w))"
    and "0 < WorkerConfig_BatchSize cfg"
    and n: "length (filter (fetchable (clock w - WorkerConfig_LockTimeout cfg)) (rows w))
              \<le> nat (WorkerConfig_BatchSize cfg)"
  shows "\<exists>w'. Worker_ProcessOnce (kafka_worker pt p cfg) w = (Inr (), w') \<and>
    rows w' = update_where (fetchable (clock w - WorkerConfig_LockTimeout cfg))
      (\<lambda>e. mark_processed (pg_now w) (claim (pg_now w) e)) (rows w) \<and>
    map unplaced (topic_log w') = map unplaced (topic_log w) @
      map (publisher_record p) (filter (fetchable (clock w - WorkerConfig_LockTimeout cfg)) (rows w)) \<and> plan w' = []"
proof -
  let ?b = "clock w - WorkerConfig_LockTimeout cfg" and ?n = "nat (WorkerConfig_BatchSize cfg)"
  let ?ids = "batch_ids ?n ?b (rows w)" and ?t = "pg_now w"
  let ?es = "update_where (\<lambda>e. OutboxEvent_ID e \<in> set ?ids) (claim ?t) (rows w)"
  let ?evs = "filter (\<lambda>e. OutboxEvent_ID e \<in> set ?ids) ?es"
  let ?w = "w\<lparr>db := (db w)\<lparr>outbox_events := ?es\<rparr>\<rparr>"
  note fe = batch_ids_all [OF n d]
  have f: "Store_FetchBatch outbox_NewPostgresRepository (WorkerConfig_BatchSize cfg)
      (WorkerConfig_LockTimeout cfg) w = (Inr ?evs, ?w)"
    using FetchBatch_ok [OF assms(1,3)] by (simp add: Let_def)
  have rw: "rows ?w = ?es" by (simp add: rows_def)
  have es: "?es = update_where (fetchable ?b) (claim ?t) (rows w)"
    by (rule update_where_cong) (auto simp: fe)
  have evs: "?evs = map (claim ?t) (filter (fetchable ?b) (rows w))"
    unfolding update_where_def filter_map o_def
    by (rule map_cong) (auto simp: fe intro!: filter_cong)
  have dd: "distinct (map OutboxEvent_ID ?evs)"
    using d by (intro distinct_map_filter_key) (simp add: map_update_where)
  have pr: "\<exists>f \<in> set (rows ?w). is_processing (OutboxEvent_ID e) f" if "e \<in> set ?evs" for e
  proof
    show "is_processing (OutboxEvent_ID e) e"
      using that by (auto simp: is_processing_def dest!: update_where_in split: if_splits)
    show "e \<in> set (rows ?w)" using that unfolding rw by simp
  qed
  obtain w' where w': "Worker_processBatch (kafka_worker pt p cfg) ?evs ?w = (Inr (), w')"
    "rows w' = update_where (\<lambda>e. OutboxEvent_ID e \<in> OutboxEvent_ID ` set ?evs \<and>
        OutboxEvent_Status e = StatusProcessing) (mark_processed ?t) ?es"
    "map unplaced (topic_log w') = map unplaced (topic_log w) @ map (publisher_record p) ?evs" "plan w' = []"
    using processBatch_ok [OF _ dd pr, of pt p cfg] assms(1) rw by fastforce
  have "rows w' = update_where (fetchable ?b) (\<lambda>e. mark_processed ?t (claim ?t e)) (rows w)"
    unfolding w'(2) unfolding evs unfolding es
    by (auto simp: update_where_def image_image dest: distinct_key_unique [OF d])
  moreover have "map (publisher_record p) ?evs = map (publisher_record p) (filter (fetchable ?b) (rows w))"
    unfolding evs by (simp add: publisher_record_def claim_def)
  moreover have "Worker_ProcessOnce (kafka_worker pt p cfg) w = (Inr (), w')"
    using f w'(1) by (simp add: Worker_ProcessOnce_def andThen_def mapErr_def kafka_worker_def)
  ultimately show ?thesis using w'(3,4) by auto
qed

section \<open>Properties\<close>

lemma consistent_rows: "consistent s w \<Longrightarrow> distinct (map OutboxEvent_ID (rows w))"
  by (auto simp: rows_def dest!: consistent_outboxD simp: outbox_ok_def serial_ok_def)

lemma kafka_Run_step:
  assumes "consistent s w" and "Worker_Run (kafka_worker pt p cfg) ctxErr its w = (r, w')"
  shows "worker_step (kafka_carries p) (WorkerConfig_MaxAttempts cfg) w w'"
  by (rule pipe.Run_step [OF consistent_rows [OF assms(1)] assms(2) [unfolded kafka_worker_def]])

text \<open>
  C4: PROCESSED means published. Whatever the schedule of the worker's loop, the failures and
  the delays of PostgreSQL and Kafka, if every outbox event marked PROCESSED has a record with
  its content in the topic before \<open>Run\<close>, the same holds after it.
\<close>

theorem outbox_processed_is_published:
  assumes "consistent s w" and "sent_ok (kafka_carries p) w"
    and "Worker_Run (kafka_worker pt p cfg) ctxErr its w = (r, w')"
  shows "sent_ok (kafka_carries p) w'"
  using kafka_Run_step [OF assms(1,3)] assms(2) by (simp add: worker_step_def)

text \<open>
  C11: The life of an outbox event. Under any schedule and any failures, the worker loses no
  event and changes none in content or order; PROCESSED and FAILED are final; the number of
  attempts never decreases; and an event becomes FAILED only after the configured number of
  attempts.
\<close>

theorem outbox_event_lifecycle:
  assumes "consistent s w" and "Worker_Run (kafka_worker pt p cfg) ctxErr its w = (r, w')"
  shows "map content (rows w') = map content (rows w) \<and>
    list_all2 (\<lambda>e e'.
      (OutboxEvent_Status e \<in> {StatusProcessed, StatusFailed} \<longrightarrow> e' = e) \<and>
      OutboxEvent_Attempts e \<le> OutboxEvent_Attempts e' \<and>
      (OutboxEvent_Status e' = StatusFailed \<longrightarrow>
         OutboxEvent_Status e = StatusFailed \<or> WorkerConfig_MaxAttempts cfg \<le> OutboxEvent_Attempts e'))
      (rows w) (rows w')"
proof -
  have ev: "evolves (WorkerConfig_MaxAttempts cfg) (rows w) (rows w')"
    using kafka_Run_step [OF assms] by (simp add: worker_step_def)
  from ev show ?thesis unfolding evolves_def
    by (intro conjI evolves_content [OF ev])
      (erule list_all2_mono, auto dest: final_steps steps_attempts steps_failed)
qed


lemma fetched_from:
  assumes "distinct (map OutboxEvent_ID es)" and "ids = batch_ids n b es"
    and "e \<in> set (filter (\<lambda>e. OutboxEvent_ID e \<in> set ids)
           (update_where (\<lambda>e. OutboxEvent_ID e \<in> set ids) (claim t) es))"
  shows "\<exists>f \<in> set (take n (sort_key OutboxEvent_CreatedAt (filter (fetchable b) es))). e = claim t f"
proof -
  let ?k = "take n (sort_key OutboxEvent_CreatedAt (filter (fetchable b) es))"
  from assms(3) obtain f where f: "f \<in> set es" "OutboxEvent_ID f \<in> set ids" "e = claim t f"
    by (auto dest!: update_where_in split: if_splits)
  then obtain g where g: "g \<in> set ?k" "OutboxEvent_ID g = OutboxEvent_ID f"
    by (auto simp: assms(2) batch_ids_def)
  have "g \<in> set es" using g(1) by (auto dest!: in_set_takeD)
  with g f assms(1) have "g = f" by (metis distinct_key_unique)
  with f g show ?thesis by blast
qed

text \<open>
  C27: A batch the store hands out has at most \<open>limit\<close> events, each of them was NEW or a stale
  PROCESSING event, is now PROCESSING with one attempt more, and no event left waiting is older
  than one in the batch.
\<close>

theorem outbox_batch_oldest_first:
  assumes "consistent s w"
    and "outbox_PostgresRepository_FetchBatch lim lt w = (Inr es, w')"
  shows "length es \<le> nat lim \<and>
    (\<forall>e \<in> set es. \<exists>f \<in> set (rows w). \<exists>t. fetchable (clock w - lt) f \<and> e = claim t f \<and>
       (\<forall>g \<in> set (rows w). fetchable (clock w - lt) g \<longrightarrow>
          OutboxEvent_ID g \<in> OutboxEvent_ID ` set es \<or> OutboxEvent_CreatedAt f \<le> OutboxEvent_CreatedAt g))"
proof (cases "lim \<le> 0")
  case True
  with assms(2) show ?thesis by (simp add: outbox_PostgresRepository_FetchBatch_def)
next
  case False
  let ?b = "clock w - lt" and ?n = "nat lim"
  let ?ids = "batch_ids ?n ?b (rows w)"
  have d: "distinct (map OutboxEvent_ID (rows w))" by (rule consistent_rows [OF assms(1)])
  from assms(2) False obtain c p where
    "claim_batch ?n ?b (w\<lparr>clock := c, plan := p\<rparr>) = (Inr es, w')"
    by (auto simp: outbox_PostgresRepository_FetchBatch_def Let_def elim!: sql_InrD dest!: mapErr_InrD)
  then obtain t where es: "es = filter (\<lambda>e. OutboxEvent_ID e \<in> set ?ids)
      (update_where (\<lambda>e. OutboxEvent_ID e \<in> set ?ids) (claim t) (rows w))"
    by (auto simp: claim_batch_def Let_def rows_def)
  have "length es = length (map OutboxEvent_ID es)" by simp
  also have "\<dots> = card (set (map OutboxEvent_ID es))"
    unfolding es by (rule distinct_card [symmetric], rule distinct_map_filter_key)
      (simp add: map_update_where d)
  also have "\<dots> \<le> card (set ?ids)" unfolding es by (rule card_mono) auto
  also have "\<dots> \<le> ?n" using card_length [of ?ids] length_batch_ids [of ?n ?b "rows w"] by linarith
  finally have len: "length es \<le> ?n" .
  have in_ids: "OutboxEvent_ID g \<in> OutboxEvent_ID ` set es"
    if "g \<in> set (rows w)" "OutboxEvent_ID g \<in> set ?ids" for g
  proof (rule image_eqI)
    show "claim t g \<in> set es" using that unfolding es by (auto simp: set_update_where)
  qed simp
  show ?thesis
  proof (intro conjI ballI len)
    fix e assume "e \<in> set es"
    then obtain f where f: "f \<in> set (take ?n (sort_key OutboxEvent_CreatedAt (filter (fetchable ?b) (rows w))))"
      "e = claim t f" using fetched_from [OF d refl] unfolding es by blast
    then have "f \<in> set (rows w)" "fetchable ?b f" by (auto dest!: in_set_takeD)
    with f(2) show "\<exists>f \<in> set (rows w). \<exists>t. fetchable ?b f \<and> e = claim t f \<and>
       (\<forall>g \<in> set (rows w). fetchable ?b g \<longrightarrow>
          OutboxEvent_ID g \<in> OutboxEvent_ID ` set es \<or> OutboxEvent_CreatedAt f \<le> OutboxEvent_CreatedAt g)"
      using batch_oldest_first [OF _ _ _ f(1)] in_ids by blast
  qed
qed

text \<open>
  C28: A publish error whose text is cut in the middle of a UTF-8 rune at byte 1000 cannot be
  recorded: PostgreSQL refuses the parameter (SQLSTATE 22021), the row stays PROCESSING without
  a last error, and the call reports both errors.
\<close>

theorem outbox_cut_rune_not_recorded:
  assumes "plan w = [\<lparr>elapsed = d, fault = Lost t\<rparr>]"
    and "Error (wrapf ''produce kafka record'' (NewError t)) = a @ b" and "length a = 1000"
    and "b \<noteq> ''''" and "\<not> utf8_valid a"
  shows "\<exists>e. Worker_processEvent (kafka_worker pt p cfg) ev w =
      (Inl e, w\<lparr>plan := [], clock := clock w + int d\<rparr>) \<and>
    errors_As is_PgError e = None"
proof -
  have "take 1000 (a @ b) = a" "length (a @ b) > 1000" using assms(3,4) by simp_all
  then have r: "failure_reason (wrapf ''produce kafka record'' (NewError t)) = a"
    using assms(2) by (simp add: failure_reason_def Let_def)
  show ?thesis using assms(1,5) r
    by (simp add: Worker_processEvent_def kafka_worker_def attempt_def kafka_publisher_def
        KafkaPublisher_Publish_def mapErr_def external_def next_outcome_def
        outbox_NewPostgresRepository_def outbox_PostgresRepository_MarkFailed_def andThen_def
        sql_def throw_def pg_text_def wrapf_def)
qed

section \<open>The properties at a concrete input\<close>

definition sample_event :: "int \<Rightarrow> OutboxEvent" where
  "sample_event i = outbox_row i
     (new_OutboxEvent EventTypeUserRegistered AggregateUser (FormatInt i) ''payload''
        ContentTypeProtobuf ProtoMessageUserRegistered EventVersionV1) 10"

definition sample_outbox :: world where
  "sample_outbox = empty_world\<lparr>clock := 20,
     db := empty_tables\<lparr>outbox_events := [sample_event 1, sample_event 2]\<rparr>,
     seqs := (seqs empty_world)\<lparr>outbox_events_id_seq := 2\<rparr>\<rparr>"

definition sample_cfg :: WorkerConfig where
  "sample_cfg = \<lparr>WorkerConfig_Interval = 5, WorkerConfig_BatchSize = 10, WorkerConfig_MaxAttempts = 3,
     WorkerConfig_LockTimeout = 60, WorkerConfig_ProcessTimeout = 30\<rparr>"

definition sample_publisher :: KafkaPublisher where
  "sample_publisher = \<lparr>KafkaPublisher_topic = ''identity.events'', KafkaPublisher_produceTimeout = 5\<rparr>"

definition sample_iterations :: "iteration list" where
  "sample_iterations = [\<lparr>done_first = False, waited = 5, done_waiting = False\<rparr>,
     \<lparr>done_first = False, waited = 5, done_waiting = True\<rparr>]"

lemmas sample_outbox_defs = sample_event_def sample_outbox_def sample_cfg_def sample_publisher_def
  outbox_row_def new_OutboxEvent_def empty_world_def empty_tables_def

lemma sample_outbox_consistent: "consistent (seqs sample_outbox) sample_outbox"
  by (rule schema_consistent)
    (simp add: sample_outbox_defs schema_defs serial_ok_def outbox_row_ok_def ContentTypeProtobuf_def
      ContentTypeJSON_def ProtoMessageUserRegistered_def)

lemma sample_outbox_sent: "sent_ok (kafka_carries p) sample_outbox"
  by (simp add: sent_ok_def rows_def sample_outbox_defs)

theorem outbox_processed_is_published_witness:
  "sent_ok (kafka_carries sample_publisher)
     (snd (Worker_Run (kafka_worker (\<lambda>_. 0) sample_publisher sample_cfg) (Sentinel ContextCanceled)
        sample_iterations sample_outbox))"
  by (rule outbox_processed_is_published [OF sample_outbox_consistent sample_outbox_sent
        prod.collapse [symmetric]])

theorem outbox_event_lifecycle_witness:
  "length (rows (snd (Worker_Run (kafka_worker (\<lambda>_. 0) sample_publisher sample_cfg)
     (Sentinel ContextCanceled) sample_iterations sample_outbox))) = 2"
  using arg_cong [OF conjunct1 [OF outbox_event_lifecycle [OF sample_outbox_consistent
        prod.collapse [symmetric], of "\<lambda>_. 0" sample_publisher sample_cfg "Sentinel ContextCanceled"
          sample_iterations]], of length]
  by (simp add: sample_outbox_def rows_def)


theorem outbox_batch_oldest_first_witness:
  "length (filter (\<lambda>e. OutboxEvent_ID e = 1) [claim 20 (sample_event 1)]) \<le> nat 1"
proof -
  have "outbox_PostgresRepository_FetchBatch 1 60 sample_outbox =
    (Inr [claim 20 (sample_event 1)], sample_outbox\<lparr>db := empty_tables\<lparr>outbox_events :=
       [claim 20 (sample_event 1), sample_event 2]\<rparr>\<rparr>)"
    by (simp add: outbox_PostgresRepository_FetchBatch_def mapErr_def sql_empty claim_batch_def
        batch_ids_def fetchable_def sample_outbox_defs pg_now_def claim_def)
  from outbox_batch_oldest_first [OF sample_outbox_consistent this] show ?thesis by simp
qed

definition cut_text :: string where
  "cut_text = replicate 977 (CHR ''a'') @ [CHR 0xC3, CHR 0xA9]"

theorem outbox_cut_rune_not_recorded_witness:
  "\<exists>e. Worker_processEvent (kafka_worker (\<lambda>_. 0) sample_publisher sample_cfg) (sample_event 1)
         (sample_outbox\<lparr>plan := [\<lparr>elapsed = 1, fault = Lost cut_text\<rparr>]\<rparr>) =
       (Inl e, sample_outbox\<lparr>clock := 21\<rparr>) \<and> errors_As is_PgError e = None"
proof -
  let ?a = "(''produce kafka record'' @ '': '') @ replicate 977 (CHR ''a'') @ [CHR 0xC3]"
  have "\<not> utf8_valid ?a"
    by (simp add: utf8_valid_ascii_append list_all_iff is_ascii_def)
  moreover have "Error (wrapf ''produce kafka record'' (NewError cut_text)) = ?a @ [CHR 0xA9]"
    by (simp add: wrapf_def cut_text_def)
  ultimately show ?thesis
    using outbox_cut_rune_not_recorded [of "sample_outbox\<lparr>plan := [\<lparr>elapsed = 1, fault = Lost cut_text\<rparr>]\<rparr>"
        1 cut_text ?a "[CHR 0xA9]" "\<lambda>_. 0" sample_publisher sample_cfg "sample_event 1"]
    by (simp add: sample_outbox_def empty_world_def)
qed

end
