(* ===== verification/Refresh_Token.thy ===== *)
theory Refresh_Token
  imports Outbox_Worker
begin

text \<open>
  internal/auth: refresh_token_manager.go (tokens are 32 random bytes in unpadded URL-safe
  base64, stored by the hex of their SHA-256), refresh_token_repository.go (the statements on
  \<open>refresh_tokens\<close>) and the interface \<open>RefreshTokenStore\<close> of service.go with its
  contract (locale \<open>refresh_store\<close>). SHA-256 is a parameter; base64 and hex are written out.
\<close>

section \<open>Encodings\<close>

definition b64_alphabet :: string where
  "b64_alphabet = ''ABCDEFGHIJKLMNOPQRSTUVWXYZabcdefghijklmnopqrstuvwxyz0123456789-_''"

definition b64_char :: "nat \<Rightarrow> char" where
  "b64_char n = b64_alphabet ! (n mod 64)"

definition byte :: "char \<Rightarrow> nat" where
  "byte c = of_char c"

text \<open>\<open>base64.RawURLEncoding.EncodeToString\<close>: four characters for three bytes, no padding.\<close>

fun RawURLEncoding :: "string \<Rightarrow> string" where
  "RawURLEncoding [] = []"
| "RawURLEncoding [a] =
     (let n = byte a * 16 in [b64_char (n div 64), b64_char n])"
| "RawURLEncoding [a, b] =
     (let n = (byte a * 256 + byte b) * 4
      in [b64_char (n div 4096), b64_char (n div 64), b64_char n])"
| "RawURLEncoding (a # b # c # cs) =
     (let n = byte a * 65536 + byte b * 256 + byte c
      in [b64_char (n div 262144), b64_char (n div 4096), b64_char (n div 64), b64_char n] @
         RawURLEncoding cs)"

definition hex_char :: "nat \<Rightarrow> char" where
  "hex_char n = ''0123456789abcdef'' ! (n mod 16)"

definition hex_EncodeToString :: "string \<Rightarrow> string" where
  "hex_EncodeToString bs = concat (map (\<lambda>c. [hex_char (byte c div 16), hex_char (byte c)]) bs)"

lemma byte_less [simp]: "byte c < 256"
  by (simp add: byte_def)

lemma byte_inj: "byte c = byte d \<longleftrightarrow> c = d"
  by (simp add: byte_def)

lemma b64_alphabet_distinct: "distinct b64_alphabet" "length b64_alphabet = 64"
  by (simp_all add: b64_alphabet_def)

lemma b64_char_eq: "b64_char m = b64_char n \<longleftrightarrow> m mod 64 = n mod 64"
  by (simp add: b64_char_def nth_eq_iff_index_eq b64_alphabet_distinct)

lemma hex_char_eq: "hex_char m = hex_char n \<longleftrightarrow> m mod 16 = n mod 16"
proof -
  have "distinct ''0123456789abcdef''" by simp
  then show ?thesis by (simp add: hex_char_def nth_eq_iff_index_eq)
qed

lemma length_RawURLEncoding: "length (RawURLEncoding bs) = (4 * length bs + 2) div 3"
  by (induction bs rule: RawURLEncoding.induct) (simp_all add: Let_def)

lemma digit_eq:
  fixes m n :: nat
  shows "m mod k = n mod k \<Longrightarrow> m div k = n div k \<Longrightarrow> m = n"
  by (metis mod_div_mult_eq)

lemma two_digits_eq:
  fixes a b a' b' :: nat
  assumes "b < k" "b' < k" and "a * k + b = a' * k + b'"
  shows "a = a' \<and> b = b'"
proof -
  from assms(1,2) have "(a * k + b) mod k = b" "(a' * k + b') mod k = b'" by simp_all
  with assms show ?thesis by auto
qed

text \<open>A number of at most four sextets is determined by them.\<close>

lemma sextets_eq:
  fixes m n :: nat
  assumes "m < 16777216" "n < 16777216"
    and "m div 262144 mod 64 = n div 262144 mod 64" and "m div 4096 mod 64 = n div 4096 mod 64"
    and "m div 64 mod 64 = n div 64 mod 64" and "m mod 64 = n mod 64"
  shows "m = n"
proof -
  have d: "k div 4096 = k div 64 div 64" "k div 262144 = k div 64 div 64 div 64" for k :: nat
    using div_mult2_eq [of k 64 64] div_mult2_eq [of k 4096 64] by simp_all
  have l: "k div 262144 mod 64 = k div 262144" if "k < 16777216" for k :: nat
    by (rule mod_less) (rule less_mult_imp_div_less, use that in simp)
  from assms(3) have "m div 262144 = n div 262144" unfolding l [OF assms(1)] l [OF assms(2)] .
  then have "m div 64 div 64 div 64 = n div 64 div 64 div 64" unfolding d .
  with assms(4) have "m div 64 div 64 = n div 64 div 64" unfolding d by (rule digit_eq)
  with assms(5) have "m div 64 = n div 64" by (rule digit_eq)
  with assms(6) show ?thesis by (rule digit_eq)
qed

lemma bytes_eq:
  fixes a b c a' b' c' :: nat
  assumes "b < 256" "c < 256" "b' < 256" "c' < 256"
    and "a * 65536 + b * 256 + c = a' * 65536 + b' * 256 + c'"
  shows "a = a' \<and> b = b' \<and> c = c'"
proof -
  have "(a * 256 + b) * 256 + c = (a' * 256 + b') * 256 + c'" using assms(5) by (simp add: add_mult_distrib)
  from two_digits_eq [OF assms(2,4) this] two_digits_eq [OF assms(1,3)] show ?thesis by blast
qed

lemma byte_bound: "byte a * 65536 + byte b * 256 + byte c < 16777216"
  using byte_less [of a] byte_less [of b] byte_less [of c] by linarith

lemma sextets_eq3:
  fixes m n :: nat
  assumes m: "m < 262144" and n: "n < 262144"
    and "m div 4096 mod 64 = n div 4096 mod 64" "m div 64 mod 64 = n div 64 mod 64" "m mod 64 = n mod 64"
  shows "m = n"
proof (rule sextets_eq)
  show "m < 16777216" "n < 16777216" using m n by linarith+
  show "m div 262144 mod 64 = n div 262144 mod 64" unfolding div_less [OF m] div_less [OF n] ..
qed (fact assms)+

lemma sextets_eq2:
  fixes m n :: nat
  assumes m: "m < 4096" and n: "n < 4096" and "m div 64 mod 64 = n div 64 mod 64" "m mod 64 = n mod 64"
  shows "m = n"
proof (rule sextets_eq3)
  show "m < 262144" "n < 262144" using m n by linarith+
  show "m div 4096 mod 64 = n div 4096 mod 64" unfolding div_less [OF m] div_less [OF n] ..
qed (fact assms)+

lemma two_bytes: "byte a * 256 + byte b < 65536"
  using byte_less [of a] byte_less [of b] by linarith

lemmas b64_list_eq = RawURLEncoding.simps Let_def append.simps list.inject b64_char_eq

lemma RawURLEncoding_inj:
  "length bs = length cs \<Longrightarrow> RawURLEncoding bs = RawURLEncoding cs \<Longrightarrow> bs = cs"
proof (induction bs arbitrary: cs rule: RawURLEncoding.induct)
  case 1
  then show ?case by simp
next
  case (2 a)
  from 2(1) obtain a' where cs: "cs = [a']" by (cases cs) auto
  have "byte a * 16 = byte a' * 16"
    by (rule sextets_eq2)
      (use 2(2) byte_less [of a] byte_less [of a'] in \<open>(unfold cs b64_list_eq, linarith, linarith, blast, blast)\<close>)
  then show ?case by (simp add: cs byte_inj)
next
  case (3 a b)
  from 3(1) obtain a' b' where cs: "cs = [a', b']"
    by (metis length_0_conv length_Suc_conv)
  have "(byte a * 256 + byte b) * 4 = (byte a' * 256 + byte b') * 4"
  proof (rule sextets_eq3)
    show "(byte a * 256 + byte b) * 4 < 262144" "(byte a' * 256 + byte b') * 4 < 262144"
      using two_bytes [of a b] two_bytes [of a' b'] by simp_all
  qed (use 3(2) in \<open>unfold cs b64_list_eq, blast+\<close>)
  then have "byte a * 256 + byte b = byte a' * 256 + byte b'" by simp
  from two_digits_eq [OF byte_less byte_less this] show ?case by (simp add: cs byte_inj)
next
  case (4 a b c xs)
  from 4(2) obtain a' b' c' ys where cs: "cs = a' # b' # c' # ys"
    by (metis length_Cons length_Suc_conv)
  have "byte a * 65536 + byte b * 256 + byte c = byte a' * 65536 + byte b' * 256 + byte c'"
    by (rule sextets_eq [OF byte_bound byte_bound])
      (use 4(3) in \<open>unfold cs b64_list_eq, blast+\<close>)
  from bytes_eq [OF byte_less byte_less byte_less byte_less this]
  have "a = a' \<and> b = b' \<and> c = c'" by (simp add: byte_inj)
  moreover have "RawURLEncoding xs = RawURLEncoding ys" using 4(3) unfolding cs b64_list_eq by blast
  ultimately show ?case using 4(1) [of _ ys] 4(2) cs by simp
qed

lemma hex_inj: "length bs = length cs \<Longrightarrow> hex_EncodeToString bs = hex_EncodeToString cs \<Longrightarrow> bs = cs"
proof (induction bs cs rule: list_induct2)
  case (Cons x xs y ys)
  then have "byte x div 16 mod 16 = byte y div 16 mod 16" "byte x mod 16 = byte y mod 16" and eq: "xs = ys"
    by (simp_all add: hex_EncodeToString_def hex_char_eq)
  moreover have "byte z div 16 mod 16 = byte z div 16" for z
    using byte_less [of z] by (intro mod_less) (simp add: less_mult_imp_div_less)
  ultimately have "byte x = byte y" by (metis digit_eq)
  with eq show ?case by (simp add: byte_inj)
qed simp

section \<open>RefreshTokenManager\<close>

text \<open>\<open>rand.Read(raw)\<close> into a buffer of \<open>n\<close> bytes: the next entry of the entropy.\<close>

definition rand_Read :: "nat \<Rightarrow> string prog" where
  "rand_Read n w = (case entropy w of
       [] \<Rightarrow> (Inl (NewError ''entropy source closed''), w)
     | Inl t # rest \<Rightarrow> (Inl (NewError t), w\<lparr>entropy := rest\<rparr>)
     | Inr bytes # rest \<Rightarrow> (Inr (take n (bytes @ replicate n (CHR 0x00))), w\<lparr>entropy := rest\<rparr>))"

definition RefreshTokenManager_Hash :: "(string \<Rightarrow> string) \<Rightarrow> string \<Rightarrow> string" where
  "RefreshTokenManager_Hash sha256 token = (let sum = sha256 token in hex_EncodeToString sum)"

definition RefreshTokenManager_Generate :: "(string \<Rightarrow> string) \<Rightarrow> (string \<times> string) prog" where
  "RefreshTokenManager_Generate sha256 =
     andThen (mapErr (wrapf ''error generating refresh token'') (rand_Read 32)) (\<lambda>raw.
       let token = RawURLEncoding raw; hash = RefreshTokenManager_Hash sha256 token
       in ret (token, hash))"

lemma rand_Read_length: "rand_Read n w = (Inr bs, w') \<Longrightarrow> length bs = n"
  by (auto simp: rand_Read_def split: list.splits sum.splits)

lemma db_only_rand_Read [db_only_intros]: "db_only (rand_Read n)"
  by (rule db_onlyI) (auto simp: rand_Read_def db_step_def split: list.split sum.split)

lemma frame_rand_Read [frame_intros]: "frame db (rand_Read n)" "frame seqs (rand_Read n)"
  by (auto intro!: frameI simp: rand_Read_def split: list.split sum.split)

lemma db_only_Generate [db_only_intros]: "db_only (RefreshTokenManager_Generate h)"
  unfolding RefreshTokenManager_Generate_def Let_def by (intro db_only_intros)

lemma frame_Generate [frame_intros]:
  "frame db (RefreshTokenManager_Generate h)" "frame seqs (RefreshTokenManager_Generate h)"
  unfolding RefreshTokenManager_Generate_def Let_def by (intro frame_intros)+

lemma keeps_Generate [keeps_intros]: "keeps (consistent s) (RefreshTokenManager_Generate h)"
  by (intro consistent_frame frame_intros)

lemma Generate_hash: "RefreshTokenManager_Generate h w = (Inr (tok, hs), w') \<Longrightarrow>
    hs = RefreshTokenManager_Hash h tok"
  by (auto simp: RefreshTokenManager_Generate_def Let_def elim!: andThen_InrE)

text \<open>
  C34: Refresh tokens are as random as their source: two generated tokens are equal only if the
  32 bytes read from the random source were, and each token has 43 URL-safe characters.
\<close>

theorem refresh_token_injective:
  assumes "RefreshTokenManager_Generate sha w1 = (Inr (tok1, h1), w1')"
    and "RefreshTokenManager_Generate sha w2 = (Inr (tok2, h2), w2')"
  shows "length tok1 = 43 \<and>
    (tok1 = tok2 \<longleftrightarrow> fst (rand_Read 32 w1) = fst (rand_Read 32 w2))"
proof -
  from assms(1) obtain r1 v1 where 1: "rand_Read 32 w1 = (Inr r1, v1)" "tok1 = RawURLEncoding r1"
    by (auto simp: RefreshTokenManager_Generate_def Let_def elim!: andThen_InrE dest!: mapErr_InrD)
  from assms(2) obtain r2 v2 where 2: "rand_Read 32 w2 = (Inr r2, v2)" "tok2 = RawURLEncoding r2"
    by (auto simp: RefreshTokenManager_Generate_def Let_def elim!: andThen_InrE dest!: mapErr_InrD)
  have l: "length r1 = 32" "length r2 = 32" using 1 2 by (auto dest: rand_Read_length)
  then have "tok1 = tok2 \<longleftrightarrow> r1 = r2" using RawURLEncoding_inj [of r1 r2] 1 2 by auto
  with l 1 2 show ?thesis by (simp add: length_RawURLEncoding)
qed

section \<open>RefreshTokenRepository\<close>

record RefreshTokenStore =
  RefreshTokenStore_CreateRefreshToken :: "RefreshToken \<Rightarrow> RefreshToken prog"
  RefreshTokenStore_FindRefreshTokenByHash :: "string \<Rightarrow> RefreshToken prog"
  RefreshTokenStore_RevokeRefreshToken :: "int \<Rightarrow> unit prog"

definition token_row :: "int \<Rightarrow> RefreshToken \<Rightarrow> int \<Rightarrow> RefreshToken" where
  "token_row i t now = \<lparr>RefreshToken_ID = i, RefreshToken_UserID = RefreshToken_UserID t,
     RefreshToken_TokenHash = RefreshToken_TokenHash t, RefreshToken_ExpiresAt = RefreshToken_ExpiresAt t,
     RefreshToken_RevokedAt = None, RefreshToken_CreatedAt = now\<rparr>"

text \<open>\<open>INSERT INTO refresh_tokens (user_id, token_hash, expires_at)\<close>\<close>

definition insert_refresh_tokens :: "RefreshToken \<Rightarrow> RefreshToken prog" where
  "insert_refresh_tokens t w =
     (let i = refresh_tokens_id_seq (seqs w) + 1;
          w1 = w\<lparr>seqs := (seqs w)\<lparr>refresh_tokens_id_seq := i\<rparr>\<rparr>;
          row = token_row i t (pg_now w)
      in if RefreshToken_TokenHash t \<in> set (map RefreshToken_TokenHash (refresh_tokens (db w)))
         then (Inl (unique_violation ''refresh_tokens_token_hash_key''), w1)
         else if RefreshToken_UserID t \<notin> set (map User_ID (users (db w)))
         then (Inl (foreign_key_violation ''refresh_tokens_user_id_fkey''), w1)
         else (Inr row, upd_db (\<lambda>d. d\<lparr>refresh_tokens := refresh_tokens d @ [row]\<rparr>) w1))"

definition select_refresh_token :: "string \<Rightarrow> RefreshToken prog" where
  "select_refresh_token hash w =
     (case find (\<lambda>t. RefreshToken_TokenHash t = hash) (refresh_tokens (db w)) of
        None \<Rightarrow> (Inl (Sentinel PgxErrNoRows), w) | Some t \<Rightarrow> (Inr t, w))"

text \<open>\<open>set revoked_at = now() where id = $1 and revoked_at is null\<close>\<close>

definition unrevoked :: "int \<Rightarrow> RefreshToken \<Rightarrow> bool" where
  "unrevoked i t \<longleftrightarrow> RefreshToken_ID t = i \<and> RefreshToken_RevokedAt t = None"

definition revoke :: "int \<Rightarrow> RefreshToken \<Rightarrow> RefreshToken" where
  "revoke now t = t\<lparr>RefreshToken_RevokedAt := Some now\<rparr>"

definition revoke_refresh_token :: "int \<Rightarrow> nat prog" where
  "revoke_refresh_token i w =
     (Inr (length (filter (unrevoked i) (refresh_tokens (db w)))),
      upd_db (\<lambda>d. d\<lparr>refresh_tokens := update_where (unrevoked i) (revoke (pg_now w)) (refresh_tokens d)\<rparr>) w)"

definition RefreshTokenRepository_CreateRefreshToken :: "RefreshToken \<Rightarrow> RefreshToken prog" where
  "RefreshTokenRepository_CreateRefreshToken token =
     mapErr (wrapf ''insert refresh token'')
       (sql [RefreshToken_TokenHash token] (insert_refresh_tokens token))"

definition RefreshTokenRepository_FindRefreshTokenByHash :: "string \<Rightarrow> RefreshToken prog" where
  "RefreshTokenRepository_FindRefreshTokenByHash hash =
     andThen (mapErr (\<lambda>err. if errors_Is err PgxErrNoRows then Sentinel ErrRefreshTokenNotFound
                            else wrapf ''find refresh token'' err)
                (sql [hash] (select_refresh_token hash)))
       (\<lambda>token. if RefreshToken_ID token = 0 then throw (Sentinel ErrRefreshTokenNotFound)
                else ret token)"

definition RefreshTokenRepository_RevokeRefreshToken :: "int \<Rightarrow> unit prog" where
  "RefreshTokenRepository_RevokeRefreshToken i =
     andThen (mapErr (wrapf ''revoke refresh token'') (sql [] (revoke_refresh_token i))) (\<lambda>rowsAffected.
       if rowsAffected = 0 then throw (Sentinel ErrRefreshTokenNotFound) else ret ())"

definition NewRefreshTokenRepository :: RefreshTokenStore where
  "NewRefreshTokenRepository =
     \<lparr>RefreshTokenStore_CreateRefreshToken = RefreshTokenRepository_CreateRefreshToken,
      RefreshTokenStore_FindRefreshTokenByHash = RefreshTokenRepository_FindRefreshTokenByHash,
      RefreshTokenStore_RevokeRefreshToken = RefreshTokenRepository_RevokeRefreshToken\<rparr>"

section \<open>The contract\<close>

locale refresh_store =
  fixes T :: RefreshTokenStore
  assumes token_create_Inr: "RefreshTokenStore_CreateRefreshToken T t w = (Inr c, w') \<Longrightarrow>
      \<exists>now. c = token_row (refresh_tokens_id_seq (seqs w) + 1) t now \<and>
        RefreshToken_TokenHash t \<notin> set (map RefreshToken_TokenHash (refresh_tokens (db w))) \<and>
        RefreshToken_UserID t \<in> set (map User_ID (users (db w))) \<and>
        db w' = (db w)\<lparr>refresh_tokens := refresh_tokens (db w) @ [c]\<rparr>"
    and token_find_Inr: "RefreshTokenStore_FindRefreshTokenByHash T h w = (Inr t, w') \<Longrightarrow>
      find (\<lambda>t. RefreshToken_TokenHash t = h) (refresh_tokens (db w)) = Some t"
    and token_find_none: "RefreshTokenStore_FindRefreshTokenByHash T h w = (Inl e, w') \<Longrightarrow>
      errors_Is e ErrRefreshTokenNotFound \<Longrightarrow>
      (\<forall>t \<in> set (refresh_tokens (db w)). RefreshToken_TokenHash t = h \<longrightarrow>
         (\<exists>u \<in> set (refresh_tokens (db w)). RefreshToken_ID u = 0))"
    and token_revoke: "RefreshTokenStore_RevokeRefreshToken T i w = (r, w') \<Longrightarrow>
      \<exists>now. (refresh_tokens (db w') = refresh_tokens (db w) \<and> r \<noteq> Inr ()) \<or>
        refresh_tokens (db w') = update_where (unrevoked i) (revoke now) (refresh_tokens (db w))"
    and token_revoke_Inr: "RefreshTokenStore_RevokeRefreshToken T i w = (Inr u, w') \<Longrightarrow>
      (\<exists>t \<in> set (refresh_tokens (db w)). unrevoked i t) \<and>
      (\<exists>ts. db w' = (db w)\<lparr>refresh_tokens := ts\<rparr>)"
    and token_no_public: "RefreshTokenStore_CreateRefreshToken T t w = (Inl e, w') \<Longrightarrow>
      errors_As is_PublicError e = None"
    and token_readers: "frame db (RefreshTokenStore_FindRefreshTokenByHash T h)"
      "frame seqs (RefreshTokenStore_FindRefreshTokenByHash T h)"
    and token_only_db: "db_only (RefreshTokenStore_CreateRefreshToken T t)"
      "db_only (RefreshTokenStore_FindRefreshTokenByHash T h)"
      "db_only (RefreshTokenStore_RevokeRefreshToken T i)"
    and token_keeps: "keeps (consistent s) (RefreshTokenStore_CreateRefreshToken T t)"
      "keeps (consistent s) (RefreshTokenStore_RevokeRefreshToken T i)"
begin

lemma token_consistent:
  "keeps (consistent s) (RefreshTokenStore_CreateRefreshToken T t)"
  "keeps (consistent s) (RefreshTokenStore_FindRefreshTokenByHash T h)"
  "keeps (consistent s) (RefreshTokenStore_RevokeRefreshToken T i)"
  by (rule token_keeps consistent_frame token_readers)+

end

section \<open>The PostgreSQL implementation meets it\<close>

lemmas token_stmt_defs = insert_refresh_tokens_def select_refresh_token_def revoke_refresh_token_def

lemmas token_method_defs =
  RefreshTokenRepository_CreateRefreshToken_def RefreshTokenRepository_FindRefreshTokenByHash_def
  RefreshTokenRepository_RevokeRefreshToken_def

lemma token_stmt_db_only [db_only_intros]:
  "db_only (insert_refresh_tokens t)" "db_only (select_refresh_token h)" "db_only (revoke_refresh_token i)"
  by (rule db_onlyI; simp add: token_stmt_defs Let_def db_step_def split: option.splits)+

lemma token_stmt_readers [frame_intros]:
  "frame db (select_refresh_token h)" "frame seqs (select_refresh_token h)"
  by (rule frameI; simp add: token_stmt_defs split: option.splits)+

lemma keeps_insert_refresh_tokens [keeps_intros]: "keeps (consistent s) (insert_refresh_tokens t)"
  by (rule keepsI)
    (auto simp: insert_refresh_tokens_def Let_def consistent_def schema_defs seq_ge_def serial_ok_next
      token_row_def list_all_iff intro: serial_ok_mono)

lemma keeps_revoke_refresh_token [keeps_intros]: "keeps (consistent s) (revoke_refresh_token i)"
proof (rule keepsI)
  fix w assume c: "consistent s w"
  let ?ts = "update_where (unrevoked i) (revoke (pg_now w)) (refresh_tokens (db w))"
  have k: "map RefreshToken_ID ?ts = map RefreshToken_ID (refresh_tokens (db w))"
    "map RefreshToken_TokenHash ?ts = map RefreshToken_TokenHash (refresh_tokens (db w))"
    "map RefreshToken_UserID ?ts = map RefreshToken_UserID (refresh_tokens (db w))"
    by (rule map_update_where; simp add: revoke_def)+
  from c have "list_all (\<lambda>t. RefreshToken_UserID t \<in> set (map User_ID (users (db w)))) ?ts"
    by (auto simp: consistent_def schema_defs list_all_iff revoke_def dest!: update_where_in)
  with c show "consistent s (snd (revoke_refresh_token i w))"
    by (simp add: revoke_refresh_token_def consistent_def schema_ok_def tokens_ok_def k)
qed

lemma token_method_db_only [db_only_intros]:
  "db_only (RefreshTokenRepository_CreateRefreshToken t)"
  "db_only (RefreshTokenRepository_FindRefreshTokenByHash h)"
  "db_only (RefreshTokenRepository_RevokeRefreshToken i)"
  by (unfold token_method_defs; intro db_only_intros)+

lemma token_method_readers [frame_intros]:
  "frame db (RefreshTokenRepository_FindRefreshTokenByHash h)"
  "frame seqs (RefreshTokenRepository_FindRefreshTokenByHash h)"
  by (unfold token_method_defs; intro frame_intros; simp)+

lemma token_method_keeps [keeps_intros]:
  "keeps (consistent s) (RefreshTokenRepository_CreateRefreshToken t)"
  "keeps (consistent s) (RefreshTokenRepository_RevokeRefreshToken i)"
  unfolding token_method_defs by (auto intro!: keeps_intros)

lemma sql_revoke_spec:
  assumes "sql ps (revoke_refresh_token i) w = (r, w')"
  shows "\<exists>now. (refresh_tokens (db w') = refresh_tokens (db w) \<and> (\<forall>n. r \<noteq> Inr n)) \<or>
    refresh_tokens (db w') = update_where (unrevoked i) (revoke now) (refresh_tokens (db w))"
  using assms unfolding sql_def
  by (cases rule: external_cases) (auto simp: revoke_refresh_token_def split: if_splits)

interpretation pg_tokens: refresh_store NewRefreshTokenRepository
proof (unfold_locales, unfold NewRefreshTokenRepository_def RefreshTokenStore.simps, goal_cases)
  case (1 t w c w')
  then show ?case
    unfolding RefreshTokenRepository_CreateRefreshToken_def
    by (auto dest!: mapErr_InrD elim!: sql_InrD simp: insert_refresh_tokens_def Let_def split: if_splits)
next
  case (2 h w t w')
  then show ?case
    unfolding RefreshTokenRepository_FindRefreshTokenByHash_def
    by (auto dest!: mapErr_InrD elim!: andThen_InrE sql_InrD simp: select_refresh_token_def
        split: option.splits if_splits)
next
  case (3 h w e w')
  then show ?case
    unfolding RefreshTokenRepository_FindRefreshTokenByHash_def
    by (auto elim!: mapErr_InlE andThen_InlE sql_InlE sql_InrD dest!: mapErr_InrD find_SomeD
        simp: select_refresh_token_def find_None_iff split: option.splits if_splits)
next
  case (4 i w r w')
  then obtain r0 where s: "sql [] (revoke_refresh_token i) w = (r0, w')" and "\<forall>n. r0 \<noteq> Inr n \<Longrightarrow> r \<noteq> Inr ()"
    unfolding RefreshTokenRepository_RevokeRefreshToken_def
    by (cases "sql [] (revoke_refresh_token i) w")
      (auto simp: andThen_def mapErr_def split: sum.splits if_splits)
  with sql_revoke_spec [OF s] show ?case by blast
next
  case (5 i w u w')
  then show ?case
    unfolding RefreshTokenRepository_RevokeRefreshToken_def
    by (auto dest!: mapErr_InrD elim!: andThen_InrE sql_InrD simp: revoke_refresh_token_def
        filter_empty_conv split: if_splits)
next
  case (6 t w e w')
  then show ?case
    unfolding RefreshTokenRepository_CreateRefreshToken_def
    by (auto elim!: mapErr_InlE sql_InlE simp: insert_refresh_tokens_def Let_def split: if_splits)
qed (intro token_method_db_only token_method_readers token_method_keeps)+

end
