(* ===== verification/Token.thy ===== *)
theory Token
  imports Refresh_Token
begin

text \<open>
  internal/auth: token.go (JWT access tokens), password.go (bcrypt) and context.go (the
  principal in the request context). The libraries golang-jwt and bcrypt are parameters,
  records of the functions the code calls; what their documentation promises is stated as
  the predicates \<open>jwt_documented\<close> and \<open>bcrypt_documented\<close>, which the properties that
  need them name as hypotheses.
\<close>

section \<open>Libraries\<close>

record Claims =
  Claims_UserID :: int
  Claims_Email :: string
  Claims_Role :: string
  Claims_Issuer :: string
  Claims_Subject :: string
  Claims_IssuedAt :: "int option"
  Claims_ExpiresAt :: "int option"

text \<open>
  \<open>ParseWithClaims\<close> takes the token, the key function (from the algorithm of the token's
  header to the key), the required issuer, whether an expiry is required and the current time;
  it gives the claims and the flag \<open>Valid\<close>.
\<close>

record jwt_lib =
  jwt_NewNumericDate :: "int \<Rightarrow> int"
  jwt_SignedString :: "string \<Rightarrow> Claims \<Rightarrow> string \<Rightarrow> go_error + string"
  jwt_ParseWithClaims ::
    "string \<Rightarrow> (string \<Rightarrow> go_error + string) \<Rightarrow> string \<Rightarrow> bool \<Rightarrow> int \<Rightarrow> go_error + (Claims \<times> bool)"

record bcrypt_lib =
  bcrypt_GenerateFromPassword :: "string \<Rightarrow> string \<Rightarrow> int \<Rightarrow> go_error + string"  \<comment> \<open>salt, password, cost\<close>
  bcrypt_CompareHashAndPassword :: "string \<Rightarrow> string \<Rightarrow> go_error option"

definition SigningMethodHS256 :: string where
  "SigningMethodHS256 = ''HS256''"

text \<open>
  A parsed token was signed, with the algorithm of its header and the key the key function
  gives for it, over the claims returned; it has the issuer and has not expired. A signed token
  that meets these conditions is parsed to its claims.
\<close>

definition jwt_documented :: "jwt_lib \<Rightarrow> bool" where
  "jwt_documented L \<longleftrightarrow>
     (\<forall>tok kf iss now c v. jwt_ParseWithClaims L tok kf iss True now = Inr (c, v) \<longrightarrow>
        (\<exists>alg key t. kf alg = Inr key \<and> jwt_SignedString L alg c key = Inr tok \<and>
           Claims_Issuer c = iss \<and> Claims_ExpiresAt c = Some t \<and> now < t)) \<and>
     (\<forall>tok kf iss now c alg key t. jwt_SignedString L alg c key = Inr tok \<longrightarrow> kf alg = Inr key \<longrightarrow>
        Claims_Issuer c = iss \<longrightarrow> Claims_ExpiresAt c = Some t \<longrightarrow> now < t \<longrightarrow>
        jwt_ParseWithClaims L tok kf iss True now = Inr (c, True))"

lemma jwt_parse_signed:
  "jwt_documented L \<Longrightarrow> jwt_SignedString L alg c key = Inr tok \<Longrightarrow> kf alg = Inr key \<Longrightarrow>
     Claims_Issuer c = iss \<Longrightarrow> Claims_ExpiresAt c = Some t \<Longrightarrow> now < t \<Longrightarrow>
     jwt_ParseWithClaims L tok kf iss True now = Inr (c, True)"
  unfolding jwt_documented_def by blast

text \<open>A hash matches the password it was made from and no other.\<close>

definition bcrypt_documented :: "bcrypt_lib \<Rightarrow> bool" where
  "bcrypt_documented B \<longleftrightarrow>
     (\<forall>salt pw cost h pw'. bcrypt_GenerateFromPassword B salt pw cost = Inr h \<longrightarrow>
        (bcrypt_CompareHashAndPassword B h pw' = None \<longleftrightarrow> pw' = pw))"

section \<open>TokenManager\<close>

record TokenManager =
  TokenManager_secret :: string
  TokenManager_ttl :: int
  TokenManager_issuer :: string

definition NewTokenManager :: "string \<Rightarrow> int \<Rightarrow> string \<Rightarrow> TokenManager" where
  "NewTokenManager secret ttl issuer =
     \<lparr>TokenManager_secret = secret, TokenManager_ttl = ttl, TokenManager_issuer = issuer\<rparr>"

definition token_claims :: "jwt_lib \<Rightarrow> TokenManager \<Rightarrow> int \<Rightarrow> string \<Rightarrow> string \<Rightarrow> int \<Rightarrow> Claims" where
  "token_claims L m userID email role now =
     \<lparr>Claims_UserID = userID, Claims_Email = email, Claims_Role = role,
      Claims_Issuer = TokenManager_issuer m, Claims_Subject = FormatInt userID,
      Claims_IssuedAt = Some (jwt_NewNumericDate L now),
      Claims_ExpiresAt = Some (jwt_NewNumericDate L (now + TokenManager_ttl m))\<rparr>"

definition TokenManager_Generate ::
  "jwt_lib \<Rightarrow> TokenManager \<Rightarrow> int \<Rightarrow> string \<Rightarrow> string \<Rightarrow> string prog" where
  "TokenManager_Generate L m userID email role w =
     (let now = clock w; claims = token_claims L m userID email role now
      in case jwt_SignedString L SigningMethodHS256 claims (TokenManager_secret m) of
           Inl err \<Rightarrow> throw (wrapf ''sign jwt'' err) w
         | Inr signed \<Rightarrow> ret signed w)"

definition token_key :: "TokenManager \<Rightarrow> string \<Rightarrow> go_error + string" where
  "token_key m alg =
     (if alg \<noteq> SigningMethodHS256 then Inl (NewError (''unexpected signing method: '' @ alg))
      else Inr (TokenManager_secret m))"

definition TokenManager_Parse :: "jwt_lib \<Rightarrow> TokenManager \<Rightarrow> string \<Rightarrow> int \<Rightarrow> go_error + Claims" where
  "TokenManager_Parse L m tokenString now =
     (case jwt_ParseWithClaims L tokenString (token_key m) (TokenManager_issuer m) True now of
        Inl err \<Rightarrow> Inl (wrapf ''parse jwt'' err)
      | Inr (claims, valid) \<Rightarrow> if \<not> valid then Inl (Sentinel ErrUnauthorized) else Inr claims)"

lemma Generate_state: "TokenManager_Generate L m i e r w = (x, w') \<Longrightarrow> w' = w"
  by (auto simp: TokenManager_Generate_def Let_def split: sum.splits)

lemma token_Generate_only [db_only_intros, frame_intros, keeps_intros]:
  "db_only (TokenManager_Generate L m i e r)" "frame v (TokenManager_Generate L m i e r)"
  "keeps I (TokenManager_Generate L m i e r)"
  by (auto simp: TokenManager_Generate_def Let_def db_only_def frame_def keeps_def ret_def throw_def
      split: sum.splits)



section \<open>PasswordHasher\<close>

definition bcryptCost :: int where "bcryptCost = 12"

record PasswordHasher =
  PasswordHasher_cost :: int

definition NewPasswordHasherWithCost :: "int \<Rightarrow> PasswordHasher" where
  "NewPasswordHasherWithCost cost = \<lparr>PasswordHasher_cost = cost\<rparr>"

definition NewPasswordHasher :: PasswordHasher where
  "NewPasswordHasher = NewPasswordHasherWithCost bcryptCost"

text \<open>bcrypt reads its 16 bytes of salt from the random source.\<close>

definition PasswordHasher_Hash :: "bcrypt_lib \<Rightarrow> PasswordHasher \<Rightarrow> string \<Rightarrow> string prog" where
  "PasswordHasher_Hash B h password =
     mapErr (wrapf ''generate pasword hash'')
       (andThen (rand_Read 16) (\<lambda>salt.
          case bcrypt_GenerateFromPassword B salt password (PasswordHasher_cost h) of
            Inl err \<Rightarrow> throw err | Inr hash \<Rightarrow> ret hash))"

definition PasswordHasher_Compare :: "bcrypt_lib \<Rightarrow> string \<Rightarrow> string \<Rightarrow> bool" where
  "PasswordHasher_Compare B hash password \<longleftrightarrow> bcrypt_CompareHashAndPassword B hash password = None"

lemma Hash_only [db_only_intros, frame_intros]:
  "db_only (PasswordHasher_Hash B h pw)" "frame db (PasswordHasher_Hash B h pw)"
  "frame seqs (PasswordHasher_Hash B h pw)"
  unfolding PasswordHasher_Hash_def by (intro db_only_intros frame_intros)+

lemma Hash_generated:
  "PasswordHasher_Hash B h pw w = (Inr hash, w') \<Longrightarrow>
     \<exists>salt. bcrypt_GenerateFromPassword B salt pw (PasswordHasher_cost h) = Inr hash"
  by (auto simp: PasswordHasher_Hash_def elim!: andThen_InrE dest!: mapErr_InrD split: sum.splits)

lemma Hash_Compare:
  "bcrypt_documented B \<Longrightarrow> PasswordHasher_Hash B h pw w = (Inr hash, w') \<Longrightarrow>
     PasswordHasher_Compare B hash pw' \<longleftrightarrow> pw' = pw"
  by (auto simp: bcrypt_documented_def PasswordHasher_Compare_def dest!: Hash_generated)

section \<open>The principal in the request context\<close>

record Principal =
  Principal_UserID :: int
  Principal_Email :: string
  Principal_Role :: Role

text \<open>The values a request context can hold: the principal and the request id.\<close>

record request_context =
  ctx_principal :: "Principal option"
  ctx_request_id :: "string option"

definition background :: request_context where
  "background = \<lparr>ctx_principal = None, ctx_request_id = None\<rparr>"

definition ContextWithUser :: "request_context \<Rightarrow> Principal \<Rightarrow> request_context" where
  "ContextWithUser ctx p = ctx\<lparr>ctx_principal := Some p\<rparr>"

definition PrincipalFromContext :: "request_context \<Rightarrow> Principal option" where
  "PrincipalFromContext ctx = ctx_principal ctx"

section \<open>Concrete libraries for the witnesses\<close>

text \<open>
  A signer that signs one set of claims with one secret, and a hash that keeps the password:
  functions that behave as documented.
\<close>

definition sample_manager :: TokenManager where
  "sample_manager = NewTokenManager ''secret'' 900 ''identity''"

definition sample_jwt :: "Claims \<Rightarrow> jwt_lib" where
  "sample_jwt c0 =
     \<lparr>jwt_NewNumericDate = (\<lambda>t. t),
      jwt_SignedString = (\<lambda>alg c key. if alg = SigningMethodHS256 \<and> key = ''secret'' \<and> c = c0
         then Inr ''header.claims.mac'' else Inl (NewError ''unsupported'')),
      jwt_ParseWithClaims = (\<lambda>tok kf iss req now.
         if tok \<noteq> ''header.claims.mac'' then Inl (NewError ''malformed'')
         else case kf SigningMethodHS256 of Inl e \<Rightarrow> Inl e
            | Inr key \<Rightarrow> if key \<noteq> ''secret'' \<or> Claims_Issuer c0 \<noteq> iss then Inl (NewError ''invalid'')
                else case Claims_ExpiresAt c0 of None \<Rightarrow> Inl (NewError ''exp required'')
                   | Some t \<Rightarrow> if now < t then Inr (c0, True) else Inl (NewError ''expired''))\<rparr>"

definition sample_bcrypt :: bcrypt_lib where
  "sample_bcrypt =
     \<lparr>bcrypt_GenerateFromPassword = (\<lambda>salt pw cost.
         if length pw > 72 then Inl (NewError ''password length exceeds 72 bytes'') else Inr (''$2a$'' @ pw)),
      bcrypt_CompareHashAndPassword = (\<lambda>h pw.
         if h = ''$2a$'' @ pw then None else Some (NewError ''hash is not of the given password''))\<rparr>"

lemma sample_jwt_documented: "jwt_documented (sample_jwt c0)"
  unfolding jwt_documented_def
proof (intro conjI allI impI, goal_cases)
  case (1 tok kf iss now c v)
  then show ?case
    by (intro exI [of _ SigningMethodHS256] exI [of _ "''secret''"])
      (auto simp: sample_jwt_def split: if_splits sum.splits option.splits)
next
  case (2 tok kf iss now c alg key t)
  then show ?case by (auto simp: sample_jwt_def split: if_splits)
qed

lemma sample_bcrypt_documented: "bcrypt_documented sample_bcrypt"
  by (auto simp: bcrypt_documented_def sample_bcrypt_def)

definition sample_claims :: Claims where
  "sample_claims = \<lparr>Claims_UserID = 7, Claims_Email = ''a@b.c'', Claims_Role = ''USER'',
     Claims_Issuer = ''identity'', Claims_Subject = FormatInt 7, Claims_IssuedAt = Some 0,
     Claims_ExpiresAt = Some 900\<rparr>"



theorem refresh_token_injective_witness:
  "length (RawURLEncoding (replicate 32 (CHR ''x''))) = 43"
proof -
  let ?w = "empty_world\<lparr>entropy := [Inr (replicate 32 (CHR ''x''))]\<rparr>"
  have "RefreshTokenManager_Generate (\<lambda>t. t) ?w =
    (Inr (RawURLEncoding (replicate 32 (CHR ''x'')),
       hex_EncodeToString (RawURLEncoding (replicate 32 (CHR ''x'')))), empty_world)"
    by (simp add: RefreshTokenManager_Generate_def Let_def andThen_def mapErr_def rand_Read_def ret_def
        RefreshTokenManager_Hash_def empty_world_def)
  from refresh_token_injective [OF this this] show ?thesis by blast
qed

end
