(* ===== verification/Http.thy ===== *)
theory Http
  imports Metrics Token "HOL-Library.List_Lexorder"
begin

text \<open>
  net/http as the program uses it, and internal/response: the request, the response writer with
  the wrappers that record the status, and the functions that decode a body and write JSON. A
  handler is a program on the connection whose error is a panic; the services run on the part of
  the connection that is the world.
\<close>

section \<open>The request\<close>

text \<open>
  A body is what a JSON decoder finds in it: each value or the error it stops at, with the number
  of bytes read when it is found, and the length of the whole body.
\<close>

record body =
  body_items :: "((decode_error + json) \<times> nat) list"
  body_length :: nat

record request =
  Req_Method :: string
  Req_Path :: string                            \<comment> \<open>\<open>URL.EscapedPath()\<close>\<close>
  Req_RawQuery :: string
  Req_Query :: "(string \<times> string) list"         \<comment> \<open>\<open>URL.Query()\<close>, in order\<close>
  Req_Header :: "(string \<times> string) list"        \<comment> \<open>keys in canonical form\<close>
  Req_RemoteAddr :: string
  Req_Body :: body
  Req_PathValues :: "(string \<times> string) list"    \<comment> \<open>set by the mux\<close>
  Req_Context :: request_context

text \<open>\<open>Get\<close> of a query or a header and \<open>PathValue\<close>: the first value, or the empty string.\<close>

definition first_value :: "(string \<times> string) list \<Rightarrow> string \<Rightarrow> string" where
  "first_value vs k = (case map_of vs k of Some v \<Rightarrow> v | None \<Rightarrow> '''')"

definition Query_Get :: "request \<Rightarrow> string \<Rightarrow> string" where
  "Query_Get r = first_value (Req_Query r)"

text \<open>
  \<open>textproto.CanonicalMIMEHeaderKey\<close> on a key of token characters: upper case at the start and
  after a hyphen, lower case elsewhere.
\<close>

definition upper_char :: "char \<Rightarrow> char" where
  "upper_char c = (let n = (of_char c :: nat) in if 97 \<le> n \<and> n \<le> 122 then char_of (n - 32) else c)"

fun canonical_from :: "bool \<Rightarrow> string \<Rightarrow> string" where
  "canonical_from upper [] = []"
| "canonical_from upper (c # cs) =
     (if upper then upper_char c else lower_char c) # canonical_from (c = CHR ''-'') cs"

definition CanonicalHeaderKey :: "string \<Rightarrow> string" where
  "CanonicalHeaderKey = canonical_from True"

lemma canonical_content_type [simp]: "CanonicalHeaderKey ''Content-Type'' = ''Content-Type''"
  by code_simp

definition Header_Get :: "request \<Rightarrow> string \<Rightarrow> string" where
  "Header_Get r k = first_value (Req_Header r) (CanonicalHeaderKey k)"

text \<open>\<open>URL.Path\<close>: the path with its percent escapes read.\<close>

definition hex_value :: "char \<Rightarrow> nat option" where
  "hex_value c = (let n = (of_char c :: nat) in
     if 48 \<le> n \<and> n \<le> 57 then Some (n - 48)
     else if 97 \<le> n \<and> n \<le> 102 then Some (n - 87)
     else if 65 \<le> n \<and> n \<le> 70 then Some (n - 55) else None)"

fun unescape :: "string \<Rightarrow> string" where
  "unescape (p # a # b # s) =
     (case (p = CHR ''%'', hex_value a, hex_value b) of
        (True, Some x, Some y) \<Rightarrow> char_of (16 * x + y) # unescape s
      | _ \<Rightarrow> p # unescape (a # b # s))"
| "unescape s = s"

definition URL_Path :: "request \<Rightarrow> string" where
  "URL_Path r = unescape (Req_Path r)"

definition PathValue :: "request \<Rightarrow> string \<Rightarrow> string" where
  "PathValue r = first_value (Req_PathValues r)"

definition WithContext :: "request \<Rightarrow> request_context \<Rightarrow> request" where
  "WithContext r ctx = r\<lparr>Req_Context := ctx\<rparr>"

section \<open>The connection\<close>

text \<open>
  \<open>responseWriter\<close> of internal/middleware/response_writer.go. The writers around the one of
  net/http form a list, the outermost first.
\<close>

record responseWriter =
  rw_status :: int
  rw_wroteHeader :: bool

datatype doc = JsonDoc json | RawDoc string

datatype log_level = Info | Warn | Err

type_synonym log_line = "log_level \<times> string \<times> (string \<times> string) list"

record conn =
  conn_world :: world
  conn_method :: string
  conn_status :: "int option"                   \<comment> \<open>the status line sent\<close>
  conn_header :: "string \<Rightarrow> string option"
  conn_sent :: "string \<Rightarrow> string option"          \<comment> \<open>the header at the time the status was sent\<close>
  conn_body :: "doc list"
  conn_writers :: "responseWriter list"
  conn_pattern :: string                        \<comment> \<open>\<open>r.Pattern\<close>, set by the mux\<close>
  conn_log :: "log_line list"

type_synonym 'a http = "(conn, string, 'a) program"
type_synonym http_Handler = "request \<Rightarrow> unit http"

text \<open>A call of the program's own code from a handler: result and error are both values.\<close>

definition call :: "'a prog \<Rightarrow> (go_error + 'a) http" where
  "call m c = (case m (conn_world c) of (r, w) \<Rightarrow> (Inr r, c\<lparr>conn_world := w\<rparr>))"

definition log_at :: "log_level \<Rightarrow> string \<Rightarrow> (string \<times> string) list \<Rightarrow> unit http" where
  "log_at level msg args = modify (\<lambda>c. c\<lparr>conn_log := conn_log c @ [(level, msg, args)]\<rparr>)"

definition Header_Set :: "string \<Rightarrow> string \<Rightarrow> unit http" where
  "Header_Set k v = modify (\<lambda>c. c\<lparr>conn_header := (conn_header c)(CanonicalHeaderKey k \<mapsto> v)\<rparr>)"

section \<open>The response writer\<close>

text \<open>
  The writer of net/http: the first status is sent with the header as it is then, an informational
  one is not the answer, a number that is no status panics.
\<close>

definition base_WriteHeader :: "int \<Rightarrow> unit http" where
  "base_WriteHeader code c =
     (if conn_status c \<noteq> None then (Inr (), c)
      else if code < 100 \<or> 999 < code then (Inl (''invalid WriteHeader code '' @ FormatInt code), c)
      else if code < 200 \<and> code \<noteq> 101 then (Inr (), c)
      else (Inr (), c\<lparr>conn_status := Some code, conn_sent := conn_header c\<rparr>))"

text \<open>No body goes with 1xx, 204 and 304, and none is sent for HEAD.\<close>

definition bodyAllowed :: "int \<Rightarrow> bool" where
  "bodyAllowed status \<longleftrightarrow> \<not> (100 \<le> status \<and> status \<le> 199) \<and> status \<noteq> 204 \<and> status \<noteq> 304"

definition base_Write :: "doc \<Rightarrow> unit http" where
  "base_Write d =
     andThen (base_WriteHeader 200) (\<lambda>_. modify (\<lambda>c.
       case conn_status c of
         None \<Rightarrow> c
       | Some s \<Rightarrow> if bodyAllowed s \<and> conn_method c \<noteq> ''HEAD''
                   then c\<lparr>conn_body := conn_body c @ [d]\<rparr> else c))"

definition newResponseWriter :: responseWriter where
  "newResponseWriter = \<lparr>rw_status = 200, rw_wroteHeader = False\<rparr>"

text \<open>\<open>WriteHeader\<close> on the outermost of the writers; it gives the writers afterwards.\<close>

fun responseWriter_WriteHeader :: "responseWriter list \<Rightarrow> int \<Rightarrow> responseWriter list http" where
  "responseWriter_WriteHeader [] status = andThen (base_WriteHeader status) (\<lambda>_. ret [])"
| "responseWriter_WriteHeader (rw # rws) status =
     (if rw_wroteHeader rw then ret (rw # rws)
      else andThen (responseWriter_WriteHeader rws status) (\<lambda>rws'.
           ret (rw\<lparr>rw_status := status, rw_wroteHeader := True\<rparr> # rws')))"

lemma responseWriter_WriteHeader_length:
  "responseWriter_WriteHeader rws status c = (Inr rws', c') \<Longrightarrow> length rws' = length rws"
  by (induction rws arbitrary: c c' rws') (auto elim!: andThen_InrE split: if_splits)

text \<open>\<open>Write\<close>: an answer that has no status yet gets status 200.\<close>

function responseWriter_Write :: "responseWriter list \<Rightarrow> doc \<Rightarrow> responseWriter list http" where
  "responseWriter_Write [] d c = andThen (base_Write d) (\<lambda>_. ret []) c"
| "responseWriter_Write (rw # rws) d c =
     (case (if \<not> rw_wroteHeader rw then responseWriter_WriteHeader (rw # rws) 200 c
            else (Inr (rw # rws), c)) of
        (Inl p, c1) \<Rightarrow> (Inl p, c1)
      | (Inr rws1, c1) \<Rightarrow>
          (case responseWriter_Write (tl rws1) d c1 of
             (Inl p, c2) \<Rightarrow> (Inl p, c2)
           | (Inr rws2, c2) \<Rightarrow> (Inr (take 1 rws1 @ rws2), c2)))"
  by pat_completeness auto

termination
  by (relation "measure (\<lambda>(rws, d, c). length rws)")
    (auto dest: responseWriter_WriteHeader_length [OF sym] split: if_splits
      simp del: responseWriter_WriteHeader.simps)

text \<open>The two methods of the writer a handler has.\<close>

definition WriteHeader :: "int \<Rightarrow> unit http" where
  "WriteHeader status c =
     andThen (responseWriter_WriteHeader (conn_writers c) status)
       (\<lambda>rws. modify (\<lambda>c. c\<lparr>conn_writers := rws\<rparr>)) c"

definition Write :: "doc \<Rightarrow> unit http" where
  "Write d c =
     andThen (responseWriter_Write (conn_writers c) d)
       (\<lambda>rws. modify (\<lambda>c. c\<lparr>conn_writers := rws\<rparr>)) c"


section \<open>internal/response/json.go and page.go\<close>

text \<open>\<open>json.Encoder\<close> fails, before it writes, on a time outside the years of RFC 3339.\<close>

fun encodable :: "json \<Rightarrow> bool" where
  "encodable (JTime t) = json_time_ok t"
| "encodable (JArray js) = list_all encodable js"
| "encodable (JObject kvs) = list_all (\<lambda>kv. encodable (snd kv)) kvs"
| "encodable _ = True"

definition JSON :: "int \<Rightarrow> json option \<Rightarrow> unit http" where
  "JSON code data =
     andThen (Header_Set ''Content-Type'' ''application/json'') (\<lambda>_.
     andThen (WriteHeader code) (\<lambda>_.
       case data of
         None \<Rightarrow> ret ()
       | Some j \<Rightarrow> if encodable j then Write (JsonDoc j) else ret ()))"

text \<open>A string as encoding/json writes it; a map is written in the order of its keys.\<close>

definition json_text :: "string \<Rightarrow> json" where
  "json_text s = JString (valid_text s)"

definition json_map :: "fields \<Rightarrow> json" where
  "json_map fs = JObject (map (\<lambda>(k, v). (valid_text k, json_text v)) (sort_key fst fs))"

record Pagination =
  Pagination_Limit :: int
  Pagination_Offset :: int
  Pagination_Total :: int

record 'a Page =
  Page_Items :: "'a list"
  Page_Pagination :: Pagination

definition Page_json :: "('a \<Rightarrow> json) \<Rightarrow> 'a Page \<Rightarrow> json" where
  "Page_json item p = JObject
     [(''items'', JArray (map item (Page_Items p))),
      (''pagination'', JObject
         [(''limit'', JInt (Pagination_Limit (Page_Pagination p))),
          (''offset'', JInt (Pagination_Offset (Page_Pagination p))),
          (''total'', JInt (Pagination_Total (Page_Pagination p)))])]"

section \<open>internal/response/error.go\<close>

record ErrorInfo =
  ErrorInfo_Code :: string
  ErrorInfo_Message :: string
  ErrorInfo_Fields :: fields

definition ErrorBody_json :: "ErrorInfo \<Rightarrow> json" where
  "ErrorBody_json e = JObject [(''error'', JObject
     ([(''code'', json_text (ErrorInfo_Code e)), (''message'', json_text (ErrorInfo_Message e))] @
      (if ErrorInfo_Fields e = [] then [] else [(''fields'', json_map (ErrorInfo_Fields e))])))]"

definition SendError :: "int \<Rightarrow> string \<Rightarrow> string \<Rightarrow> unit http" where
  "SendError code errorCode message =
     JSON code (Some (ErrorBody_json
       \<lparr>ErrorInfo_Code = errorCode, ErrorInfo_Message = message, ErrorInfo_Fields = []\<rparr>))"

definition SendValidationError :: "fields \<Rightarrow> unit http" where
  "SendValidationError fs =
     JSON 400 (Some (ErrorBody_json
       \<lparr>ErrorInfo_Code = ''validation_error'', ErrorInfo_Message = ''Validation failed'',
        ErrorInfo_Fields = fs\<rparr>))"

definition HandleError :: "go_error \<Rightarrow> unit http" where
  "HandleError err =
     (case errors_As is_FieldValidationError err of
        Some (FieldValidationError fs) \<Rightarrow> SendValidationError fs
      | _ \<Rightarrow>
        (case errors_As is_PublicError err of
           Some (PublicError status code message e) \<Rightarrow> SendError status code message
         | _ \<Rightarrow>
             andThen (log_at Err ''internal server error'' [(''error'', Error err)]) (\<lambda>_.
               SendError 500 ''internal_error'' ''Internal server error'')))"

section \<open>internal/response/decode.go\<close>

text \<open>
  \<open>strconv.Quote\<close>, the verb \<open>%q\<close>; which runes outside ASCII are printable is the
  parameter \<open>pr\<close>.
\<close>

definition rune_value :: "string \<Rightarrow> nat" where
  "rune_value r =
     (case map (\<lambda>c. of_char c :: nat) r of
        [a] \<Rightarrow> a
      | [a, b] \<Rightarrow> (a mod 32) * 64 + b mod 64
      | [a, b, c] \<Rightarrow> ((a mod 16) * 64 + b mod 64) * 64 + c mod 64
      | [a, b, c, d] \<Rightarrow> (((a mod 8) * 64 + b mod 64) * 64 + c mod 64) * 64 + d mod 64
      | _ \<Rightarrow> 0)"

fun hex_text :: "nat \<Rightarrow> nat \<Rightarrow> string" where
  "hex_text 0 n = []"
| "hex_text (Suc k) n = hex_text k (n div 16) @ [hex_digit n]"

definition quote_ascii :: "char \<Rightarrow> string" where
  "quote_ascii c =
     (if c = CHR 0x22 \<or> c = CHR 0x5C then [CHR 0x5C, c]
      else if c = CHR 0x07 then [CHR 0x5C, CHR ''a''] else if c = CHR 0x08 then [CHR 0x5C, CHR ''b'']
      else if c = CHR 0x0C then [CHR 0x5C, CHR ''f''] else if c = CHR 0x0A then [CHR 0x5C, CHR ''n'']
      else if c = CHR 0x0D then [CHR 0x5C, CHR ''r''] else if c = CHR 0x09 then [CHR 0x5C, CHR ''t'']
      else if c = CHR 0x0B then [CHR 0x5C, CHR ''v'']
      else if 32 \<le> (of_char c :: nat) \<and> (of_char c :: nat) < 127 then [c]
      else CHR 0x5C # ''x'' @ hex_text 2 (of_char c))"

function quote_runes :: "(string \<Rightarrow> bool) \<Rightarrow> string \<Rightarrow> string" where
  "quote_runes pr s =
     (if s = [] then []
      else if rune_len s = 0 then CHR 0x5C # ''x'' @ hex_text 2 (of_char (hd s)) @ quote_runes pr (tl s)
      else if rune_len s = 1 then quote_ascii (hd s) @ quote_runes pr (tl s)
      else
        (let r = take (rune_len s) s
         in (if pr r then r
             else if rune_value r < 65536 then CHR 0x5C # ''u'' @ hex_text 4 (rune_value r)
             else CHR 0x5C # ''U'' @ hex_text 8 (rune_value r)) @ quote_runes pr (drop (rune_len s) s)))"
  by pat_completeness auto

termination
  by (relation "measure (\<lambda>(pr, s). length s)") auto

declare quote_runes.simps [simp del]

definition Quote :: "(string \<Rightarrow> bool) \<Rightarrow> string \<Rightarrow> string" where
  "Quote pr s = CHR 0x22 # quote_runes pr s @ [CHR 0x22]"

definition maxBodySize :: nat where "maxBodySize = 2 ^ 20"

text \<open>
  \<open>Decode\<close> on a body behind \<open>http.MaxBytesReader\<close>: the next value or the error the
  decoder stops at; reading past the limit is an error of its own.
\<close>

definition decoder_next ::
  "nat \<Rightarrow> ((decode_error + json) \<times> nat) list \<Rightarrow> decode_error + (json \<times> ((decode_error + json) \<times> nat) list)" where
  "decoder_next len items =
     (case items of
        [] \<Rightarrow> Inl (if maxBodySize < len then MaxBytesError else IoEOF)
      | (item, offset) # rest \<Rightarrow>
          if maxBodySize < offset then Inl MaxBytesError
          else (case item of Inl err \<Rightarrow> Inl err | Inr j \<Rightarrow> Inr (j, rest)))"

definition unknown_field_prefix :: string where
  "unknown_field_prefix = ''json: unknown field ''"

definition writeDecodeError :: "(string \<Rightarrow> bool) \<Rightarrow> decode_error \<Rightarrow> unit http" where
  "writeDecodeError pr err =
     (let by_text = (\<lambda>text.
            if HasPrefix text unknown_field_prefix
            then SendError 400 ''unknown_json_field'' (''Unknown field '' @ TrimPrefix text unknown_field_prefix)
            else SendError 400 ''invalid_json'' ''Invalid JSON body'')
      in case err of
           SyntaxError \<Rightarrow> SendError 400 ''invalid_json'' ''Malformed JSON body''
         | UnexpectedEOF \<Rightarrow> SendError 400 ''invalid_json'' ''Malformed JSON body''
         | UnmarshalTypeError field \<Rightarrow>
             SendError 400 ''invalid_json_type'' (''Invalid value for field '' @ Quote pr field)
         | IoEOF \<Rightarrow> SendError 400 ''empty_body'' ''Request body must not be empty''
         | MaxBytesError \<Rightarrow> SendError 413 ''body_too_large'' ''Request body is too large''
         | UnknownField quoted_name \<Rightarrow> by_text (unknown_field_prefix @ quoted_name)
         | OtherDecodeError text \<Rightarrow> by_text text)"

text \<open>
  \<open>DecodeJSON[T]\<close>: \<open>T\<close> is the schema of its JSON tags and the struct made of the decoded
  fields; the second decoding, into an empty struct, must meet the end of the body.
\<close>

definition DecodeJSON ::
  "(string \<Rightarrow> bool) \<Rightarrow> struct_schema \<Rightarrow> (assignment \<Rightarrow> 'a) \<Rightarrow> request \<Rightarrow> 'a option http" where
  "DecodeJSON pr schema struct r =
     (let len = body_length (Req_Body r);
          refuse = (\<lambda>send. andThen send (\<lambda>_. ret None))
      in case decoder_next len (body_items (Req_Body r)) of
           Inl err \<Rightarrow> refuse (writeDecodeError pr err)
         | Inr (j, rest) \<Rightarrow>
             (case decode_struct (Quote pr) True schema j of
                Inl err \<Rightarrow> refuse (writeDecodeError pr err)
              | Inr dst \<Rightarrow>
                  (if decoder_next len rest = Inl IoEOF then ret (Some (struct dst))
                   else refuse (SendError 400 ''invalid_json''
                          ''Request body must contain only one JSON object''))))"


section \<open>What a handler may touch\<close>

text \<open>Answering does not run the services: the world is left alone.\<close>

lemma modify_frame: "(\<And>c. v (f c) = v c) \<Longrightarrow> frame v (modify f)"
  by (simp add: frame_def modify_def)

text \<open>Nor does it change the pattern that was matched.\<close>

definition outside :: "conn \<Rightarrow> world \<times> string" where
  "outside c = (conn_world c, conn_pattern c)"

lemma outside_update [simp]:
  "outside (c\<lparr>conn_status := st\<rparr>) = outside c" "outside (c\<lparr>conn_header := h\<rparr>) = outside c"
  "outside (c\<lparr>conn_sent := h\<rparr>) = outside c" "outside (c\<lparr>conn_body := b\<rparr>) = outside c"
  "outside (c\<lparr>conn_writers := ws\<rparr>) = outside c" "outside (c\<lparr>conn_log := l\<rparr>) = outside c"
  by (simp_all add: outside_def)

lemma outside_frame: "frame outside m \<Longrightarrow> frame (\<lambda>c. f (conn_world c) (conn_pattern c)) m"
  by (simp add: frame_def outside_def)

lemma outside_world: "frame outside m \<Longrightarrow> frame conn_world m"
  by (simp add: frame_def outside_def)

lemma base_WriteHeader_outside [frame_intros]: "frame outside (base_WriteHeader code)"
  by (simp add: frame_def base_WriteHeader_def)

lemma base_Write_outside [frame_intros]: "frame outside (base_Write d)"
  unfolding base_Write_def
  by (intro frame_intros modify_frame) (simp split: option.splits)

lemma responseWriter_WriteHeader_outside [frame_intros]:
  "frame outside (responseWriter_WriteHeader rws status)"
  by (induction rws) (auto intro!: frame_intros)

lemma responseWriter_Write_outside: "outside (snd (responseWriter_Write rws d c)) = outside c"
proof (induction rws d c rule: responseWriter_Write.induct)
  case (1 d c)
  show ?case unfolding responseWriter_Write.simps by (rule frame_snd) (intro frame_intros)
next
  case (2 rw rws d c)
  obtain q c1 where q: "(if \<not> rw_wroteHeader rw then responseWriter_WriteHeader (rw # rws) 200 c
      else (Inr (rw # rws), c)) = (q, c1)" by (rule prod.exhaust)
  have w: "outside c1 = outside c"
    using q frameD [OF responseWriter_WriteHeader_outside]
    by (auto split: if_splits simp del: responseWriter_WriteHeader.simps)
  show ?case
  proof (cases q)
    case (Inr rws1)
    have "outside (snd (responseWriter_Write (tl rws1) d c1)) = outside c1"
      by (rule 2) (use q Inr in simp_all)
    then show ?thesis unfolding responseWriter_Write.simps q using w Inr
      by (auto split: prod.splits sum.splits)
  qed (use q w in simp)
qed

lemma WriteHeader_outside [frame_intros]: "frame outside (WriteHeader status)"
proof (rule frameI)
  fix c :: conn
  have "frame outside (andThen (responseWriter_WriteHeader (conn_writers c) status)
     (\<lambda>rws. modify (\<lambda>c. c\<lparr>conn_writers := rws\<rparr>)))"
    by (intro frame_intros modify_frame) simp
  then show "outside (snd (WriteHeader status c)) = outside c"
    by (simp add: WriteHeader_def frame_snd)
qed

lemma Write_outside [frame_intros]: "frame outside (Write d)"
proof (rule frameI)
  fix c :: conn
  show "outside (snd (Write d c)) = outside c"
    using responseWriter_Write_outside [of "conn_writers c" d c]
    by (auto simp: Write_def andThen_def modify_def split: prod.splits sum.splits)
qed

lemma Header_Set_outside [frame_intros]: "frame outside (Header_Set k v)"
  unfolding Header_Set_def by (rule modify_frame) simp

lemma log_at_outside [frame_intros]: "frame outside (log_at l m args)"
  unfolding log_at_def by (rule modify_frame) simp

lemma JSON_outside [frame_intros]: "frame outside (JSON code data)"
  unfolding JSON_def by (intro frame_intros)

lemma SendError_outside [frame_intros]: "frame outside (SendError code e m)"
  unfolding SendError_def by (rule JSON_outside)

lemma SendValidationError_outside [frame_intros]: "frame outside (SendValidationError fs)"
  unfolding SendValidationError_def by (rule JSON_outside)

lemma HandleError_outside [frame_intros]: "frame outside (HandleError err)"
  unfolding HandleError_def
  by (auto intro!: frame_intros split: option.splits go_error.splits)

lemma writeDecodeError_outside [frame_intros]: "frame outside (writeDecodeError pr err)"
  unfolding writeDecodeError_def Let_def
  by (cases err) (auto intro!: frame_intros)

lemma DecodeJSON_outside [frame_intros]: "frame outside (DecodeJSON pr schema struct r)"
  unfolding DecodeJSON_def Let_def by (intro frame_intros)


lemmas base_WriteHeader_world [frame_intros] = base_WriteHeader_outside [THEN outside_world]
lemmas base_Write_world [frame_intros] = base_Write_outside [THEN outside_world]
lemmas responseWriter_WriteHeader_world [frame_intros] = responseWriter_WriteHeader_outside [THEN outside_world]
lemmas WriteHeader_world [frame_intros] = WriteHeader_outside [THEN outside_world]
lemmas Write_world [frame_intros] = Write_outside [THEN outside_world]
lemmas Header_Set_world [frame_intros] = Header_Set_outside [THEN outside_world]
lemmas log_at_world [frame_intros] = log_at_outside [THEN outside_world]
lemmas JSON_world [frame_intros] = JSON_outside [THEN outside_world]
lemmas SendError_world [frame_intros] = SendError_outside [THEN outside_world]
lemmas SendValidationError_world [frame_intros] = SendValidationError_outside [THEN outside_world]
lemmas HandleError_world [frame_intros] = HandleError_outside [THEN outside_world]
lemmas writeDecodeError_world [frame_intros] = writeDecodeError_outside [THEN outside_world]
lemmas DecodeJSON_world [frame_intros] = DecodeJSON_outside [THEN outside_world]


section \<open>The writers agree with the wire\<close>

text \<open>
  The writers agree with the connection when each has recorded the status that was sent, or none
  was; every write keeps that, for statuses that are answers.
\<close>

definition recorded :: "int option \<Rightarrow> responseWriter" where
  "recorded st = (case st of None \<Rightarrow> newResponseWriter
     | Some s \<Rightarrow> \<lparr>rw_status = s, rw_wroteHeader = True\<rparr>)"

definition in_step :: "nat \<Rightarrow> conn \<Rightarrow> bool" where
  "in_step n c \<longleftrightarrow> conn_writers c = replicate n (recorded (conn_status c))"

definition answer_status :: "int \<Rightarrow> bool" where
  "answer_status code \<longleftrightarrow> 200 \<le> code \<and> code \<le> 999"

text \<open>What a first answer makes of the connection, and what a later one does.\<close>

definition sent_header :: "int \<Rightarrow> conn \<Rightarrow> conn" where
  "sent_header code c =
     (case conn_status c of
        None \<Rightarrow> c\<lparr>conn_status := Some code, conn_sent := conn_header c,
                  conn_writers := replicate (length (conn_writers c)) (recorded (Some code))\<rparr>
      | Some _ \<Rightarrow> c)"

definition sent_doc :: "doc \<Rightarrow> conn \<Rightarrow> conn" where
  "sent_doc d c =
     (let c' = sent_header 200 c
      in if bodyAllowed (the (conn_status c')) \<and> conn_method c' \<noteq> ''HEAD''
         then c'\<lparr>conn_body := conn_body c' @ [d]\<rparr> else c')"

lemma WriteHeader_writers:
  assumes "answer_status code"
  shows "responseWriter_WriteHeader (replicate n (recorded (conn_status c))) code c =
    (Inr (replicate n (recorded (conn_status (sent_header code c)))),
     if n = 0 \<or> conn_status c = None
     then (sent_header code c)\<lparr>conn_writers := conn_writers c\<rparr> else c)"
proof (induction n)
  case 0
  show ?case using assms
    by (cases "conn_status c")
      (simp_all add: andThen_def ret_def base_WriteHeader_def sent_header_def answer_status_def)
next
  case (Suc n)
  then show ?case using assms
    by (cases "conn_status c")
      (simp_all add: andThen_def ret_def recorded_def newResponseWriter_def sent_header_def)
qed

lemma WriteHeader_in_step:
  assumes "in_step n c" and "answer_status code"
  shows "WriteHeader code c = (Inr (), sent_header code c)"
proof -
  have w: "conn_writers c = replicate n (recorded (conn_status c))"
    using assms(1) by (simp add: in_step_def)
  show ?thesis
    unfolding WriteHeader_def w
    using WriteHeader_writers [OF assms(2), of n c] w
    by (cases "conn_status c")
      (simp_all add: andThen_def modify_def sent_header_def)
qed

lemma sent_header_in_step [simp]: "in_step n c \<Longrightarrow> in_step n (sent_header code c)"
  by (auto simp: in_step_def sent_header_def split: option.splits)

lemma Write_writers:
  assumes "conn_status c = Some s"
  shows "responseWriter_Write (replicate n (recorded (Some s))) d c =
    (Inr (replicate n (recorded (Some s))), sent_doc d c)"
proof (induction n)
  case 0
  show ?case using assms
    by (simp add: andThen_def base_Write_def base_WriteHeader_def modify_def ret_def sent_doc_def
        sent_header_def Let_def)
next
  case (Suc n)
  then show ?case by (simp add: recorded_def)
qed


lemma Write_in_step:
  assumes "in_step n c"
  shows "Write d c = (Inr (), sent_doc d c)"
proof -
  have w: "conn_writers c = replicate n (recorded (conn_status c))"
    using assms by (simp add: in_step_def)
  have whole: "responseWriter_Write (conn_writers c) d c =
      (Inr (conn_writers (sent_doc d c)), (sent_doc d c)\<lparr>conn_writers := ws\<rparr>)"
    if "ws = (case conn_status c of None \<Rightarrow> conn_writers c | Some _ \<Rightarrow> conn_writers (sent_doc d c))" for ws
  proof (cases "conn_status c")
    case (Some s)
    then show ?thesis using that w Write_writers [OF Some, of n d]
      by (auto simp: sent_doc_def sent_header_def Let_def)
  next
    case None
    define c1 where "c1 = (sent_header 200 c)\<lparr>conn_writers := conn_writers c\<rparr>"
    have h: "responseWriter_WriteHeader (conn_writers c) 200 c =
        (Inr (replicate n (recorded (Some 200))), c1)"
      using WriteHeader_writers [of 200 n c] w None
      by (simp add: answer_status_def sent_header_def c1_def)
    have s: "conn_status c1 = Some 200" using None by (simp add: sent_header_def c1_def)
    have eq: "sent_doc d c1 = (sent_doc d c)\<lparr>conn_writers := ws\<rparr>"
      "conn_writers (sent_doc d c) = replicate n (recorded (Some 200))"
      using None w that by (auto simp: sent_doc_def sent_header_def Let_def c1_def)
    show ?thesis
    proof (cases n)
      case 0
      then show ?thesis using None w that
        by (simp add: andThen_def base_Write_def base_WriteHeader_def modify_def ret_def sent_doc_def
            sent_header_def Let_def)
    next
      case (Suc m)
      have first: "conn_writers c = newResponseWriter # replicate m newResponseWriter"
        using w None Suc by (simp add: recorded_def)
      have "responseWriter_Write (replicate m (recorded (Some 200))) d c1 =
          (Inr (replicate m (recorded (Some 200))), sent_doc d c1)"
        by (rule Write_writers [OF s])
      moreover have "\<not> rw_wroteHeader newResponseWriter" by (simp add: newResponseWriter_def)
      ultimately show ?thesis
        using h [unfolded first] Suc unfolding first responseWriter_Write.simps eq
        by (simp del: responseWriter_WriteHeader.simps)
    qed
  qed
  show ?thesis
    unfolding Write_def using whole [OF refl]
    by (simp add: andThen_def modify_def split: option.splits)
qed

lemma sent_doc_in_step [simp]: "in_step n c \<Longrightarrow> in_step n (sent_doc d c)"
proof -
  assume "in_step n c"
  then have "in_step n (sent_header 200 c)" by simp
  then show ?thesis by (simp add: sent_doc_def Let_def in_step_def)
qed

text \<open>The effect of \<open>JSON\<close> on a connection whose writers agree with it.\<close>

definition json_answer :: "int \<Rightarrow> json option \<Rightarrow> conn \<Rightarrow> conn" where
  "json_answer code data c =
     (let c1 = sent_header code
                 (c\<lparr>conn_header := (conn_header c)(''Content-Type'' \<mapsto> ''application/json'')\<rparr>)
      in case data of
           None \<Rightarrow> c1
         | Some j \<Rightarrow> if encodable j then sent_doc (JsonDoc j) c1 else c1)"

lemma in_step_update [simp]:
  "in_step n (c\<lparr>conn_header := h\<rparr>) = in_step n c"
  "in_step n (c\<lparr>conn_log := l\<rparr>) = in_step n c"
  "in_step n (c\<lparr>conn_world := w\<rparr>) = in_step n c"
  "in_step n (c\<lparr>conn_pattern := p\<rparr>) = in_step n c"
  by (simp_all add: in_step_def)

lemma JSON_in_step:
  assumes "in_step n c" and "answer_status code"
  shows "JSON code data c = (Inr (), json_answer code data c)"
proof -
  let ?c = "c\<lparr>conn_header := (conn_header c)(''Content-Type'' \<mapsto> ''application/json'')\<rparr>"
  have i: "in_step n ?c" using assms(1) by simp
  have h: "Header_Set ''Content-Type'' ''application/json'' c = (Inr (), ?c)"
    by (simp add: Header_Set_def modify_def)
  have "Write d (sent_header code ?c) = (Inr (), sent_doc d (sent_header code ?c))" for d
    by (rule Write_in_step [OF sent_header_in_step [OF i]])
  then show ?thesis
    using WriteHeader_in_step [OF i assms(2)] h
    by (simp add: JSON_def andThen_def json_answer_def Let_def ret_def split: option.splits)
qed

lemma json_answer_in_step [simp]: "in_step n c \<Longrightarrow> in_step n (json_answer code data c)"
  by (simp add: json_answer_def Let_def split: option.splits)


text \<open>Answering keeps the writers in step, when what it sends is the status of an answer.\<close>

lemma keeps_in_step_JSON [keeps_intros]: "answer_status code \<Longrightarrow> keeps (in_step n) (JSON code data)"
  by (rule keepsI) (simp add: JSON_in_step)

lemma keeps_in_step_WriteHeader [keeps_intros]: "answer_status code \<Longrightarrow> keeps (in_step n) (WriteHeader code)"
  by (rule keepsI) (simp add: WriteHeader_in_step)

lemma keeps_in_step_Write [keeps_intros]: "keeps (in_step n) (Write d)"
  by (rule keepsI) (simp add: Write_in_step)

lemma keeps_in_step_SendError [keeps_intros]: "answer_status code \<Longrightarrow> keeps (in_step n) (SendError code e m)"
  unfolding SendError_def by (rule keeps_in_step_JSON)

lemma keeps_in_step_SendValidationError [keeps_intros]: "keeps (in_step n) (SendValidationError fs)"
  unfolding SendValidationError_def by (rule keeps_in_step_JSON) (simp add: answer_status_def)

lemma keeps_in_step_modify: "(\<And>c. in_step n c \<Longrightarrow> in_step n (f c)) \<Longrightarrow> keeps (in_step n) (modify f)"
  by (simp add: keeps_def modify_def)

lemma keeps_in_step_log [keeps_intros]: "keeps (in_step n) (log_at l m args)"
  unfolding log_at_def by (rule keeps_in_step_modify) simp

lemma keeps_in_step_Header [keeps_intros]: "keeps (in_step n) (Header_Set k v)"
  unfolding Header_Set_def by (rule keeps_in_step_modify) simp

lemma keeps_in_step_call [keeps_intros]: "keeps (in_step n) (call m)"
  by (rule keepsI) (simp add: call_def split: prod.splits)

text \<open>The statuses of the public errors of a chain, the only numbers that are not constants.\<close>

fun status_known :: "go_error \<Rightarrow> bool" where
  "status_known (PublicError status code message e) =
     (answer_status status \<and> (case e of None \<Rightarrow> True | Some f \<Rightarrow> status_known f))"
| "status_known (Errorf p e q) = status_known e"
| "status_known _ = True"

lemma status_known_As:
  "status_known err \<Longrightarrow> errors_As is_PublicError err = Some (PublicError st c m e) \<Longrightarrow> answer_status st"
proof (induction err rule: status_known.induct)
  case (1 status code message f)
  then show ?case by (cases f) auto
qed auto

lemma keeps_in_step_HandleError [keeps_intros]:
  assumes "status_known err"
  shows "keeps (in_step n) (HandleError err)"
proof -
  have "answer_status 500" by (simp add: answer_status_def)
  then show ?thesis
    unfolding HandleError_def
    using status_known_As [OF assms]
    by (auto intro!: keeps_intros split: option.splits go_error.splits)
qed

lemma keeps_in_step_decode_error [keeps_intros]: "keeps (in_step n) (writeDecodeError pr err)"
  unfolding writeDecodeError_def Let_def
  by (cases err) (auto intro!: keeps_intros simp: answer_status_def)

lemma keeps_in_step_DecodeJSON [keeps_intros]: "keeps (in_step n) (DecodeJSON pr schema struct r)"
  unfolding DecodeJSON_def Let_def by (intro keeps_intros) (simp add: answer_status_def)


section \<open>The early returns of the handlers\<close>

text \<open>\<open>req, ok := ...; if !ok { return }\<close>\<close>

definition when_ok :: "'a option http \<Rightarrow> ('a \<Rightarrow> unit http) \<Rightarrow> unit http" where
  "when_ok m k = andThen m (\<lambda>res. case res of None \<Rightarrow> ret () | Some a \<Rightarrow> k a)"

text \<open>\<open>a, err := call(); if err != nil { response.HandleError(w, h.logger, err); return }\<close>\<close>

definition handled :: "'a prog \<Rightarrow> ('a \<Rightarrow> unit http) \<Rightarrow> unit http" where
  "handled m k = andThen (call m) (\<lambda>res. case res of Inl err \<Rightarrow> HandleError err | Inr a \<Rightarrow> k a)"

lemma frame_when_ok [frame_intros]:
  "frame v m \<Longrightarrow> (\<And>a. frame v (k a)) \<Longrightarrow> frame v (when_ok m k)"
  unfolding when_ok_def by (intro frame_intros)

lemma keeps_when_ok [keeps_intros]:
  "keeps I m \<Longrightarrow> (\<And>a. keeps I (k a)) \<Longrightarrow> keeps I (when_ok m k)"
  unfolding when_ok_def by (intro keeps_intros)

text \<open>The errors of a service have known statuses.\<close>

definition known_errors :: "'a prog \<Rightarrow> bool" where
  "known_errors m \<longleftrightarrow> (\<forall>w err w'. m w = (Inl err, w') \<longrightarrow> status_known err)"

lemma keeps_in_step_handled [keeps_intros]:
  assumes "known_errors m" and "\<And>a. keeps (in_step n) (k a)"
  shows "keeps (in_step n) (handled m k)"
proof (rule keepsI)
  fix c assume c: "in_step n c"
  obtain res w where m: "m (conn_world c) = (res, w)" by (rule prod.exhaust)
  show "in_step n (snd (handled m k c))"
  proof (cases res)
    case (Inl err)
    with m assms(1) have "status_known err" by (auto simp: known_errors_def)
    then have "in_step n (snd (HandleError err (c\<lparr>conn_world := w\<rparr>)))"
      by (intro keeps_snd [OF keeps_in_step_HandleError]) (use c in simp_all)
    then show ?thesis using m Inl by (simp add: handled_def andThen_def call_def)
  next
    case (Inr a)
    have "in_step n (snd (k a (c\<lparr>conn_world := w\<rparr>)))"
      by (rule keeps_snd [OF assms(2)]) (use c in simp)
    then show ?thesis using m Inr by (simp add: handled_def andThen_def call_def)
  qed
qed

end
