(* ===== verification/Validation.thy ===== *)
theory Validation
  imports Http
begin

text \<open>
  internal/validation, and the tagged structs of the dto.go files it is used on. The package
  go-playground/validator is a parameter, the function that checks a struct; what its
  documentation says of the tags the program uses is the predicate \<open>validator_documented\<close>.
\<close>

section \<open>Structs and their tags\<close>

datatype field_value = VString string | VInt int | VBool bool | VFrac "int \<times> int"

record struct_field =
  field_GoName :: string
  field_Tags :: "(string \<times> string) list"
  field_Value :: field_value

text \<open>A \<open>validator.FieldError\<close>: \<open>Field()\<close>, \<open>Tag()\<close> and \<open>Param()\<close>.\<close>

record FieldError =
  FieldError_Field :: string
  FieldError_Tag :: string
  FieldError_Param :: string

datatype validate_error = ValidationErrors "FieldError list" | InvalidValidation go_error

text \<open>
  \<open>validator.New\<close> with the tag-name function registered, and \<open>Struct\<close>: nil or an error.
\<close>

type_synonym validator_lib = "(struct_field \<Rightarrow> string) \<Rightarrow> struct_field list \<Rightarrow> validate_error option"

section \<open>validator.go\<close>

fun tag_name_loop :: "string list \<Rightarrow> struct_field \<Rightarrow> string" where
  "tag_name_loop [] field = field_GoName field"
| "tag_name_loop (tagName # rest) field =
     (let name = hd (Split (first_value (field_Tags field) tagName) CHR '','')
      in if name = ''-'' then ''''
         else if name \<noteq> '''' then name else tag_name_loop rest field)"

definition tag_name :: "struct_field \<Rightarrow> string" where
  "tag_name = tag_name_loop [''json'', ''query'', ''yaml'']"

record Validator =
  Validator_validate :: "struct_field list \<Rightarrow> validate_error option"

definition validation_New :: "validator_lib \<Rightarrow> Validator" where
  "validation_New lib = \<lparr>Validator_validate = lib tag_name\<rparr>"

definition messageForTag :: "FieldError \<Rightarrow> string" where
  "messageForTag err =
     (let tag = FieldError_Tag err; param = FieldError_Param err
      in if tag = ''required'' then ''is required''
         else if tag = ''min'' then ''must be at least '' @ param @ '' characters''
         else if tag = ''max'' then ''must be at most '' @ param @ '' characters''
         else if tag = ''email'' then ''must be a valid email''
         else if tag = ''gte'' then ''must be greater than or equal to '' @ param
         else if tag = ''lte'' then ''must be less than or equal to '' @ param
         else if tag = ''oneof'' then ''must be one of: '' @ param
         else ''is invalid'')"

text \<open>The map of the messages: a later error of the same field replaces the earlier one.\<close>

definition map_set :: "string \<Rightarrow> string \<Rightarrow> fields \<Rightarrow> fields" where
  "map_set k v fs = filter (\<lambda>(k', _). k' \<noteq> k) fs @ [(k, v)]"

definition toFieldValidationError :: "validate_error \<Rightarrow> go_error" where
  "toFieldValidationError err =
     (case err of
        InvalidValidation e \<Rightarrow> e
      | ValidationErrors errs \<Rightarrow>
          NewFieldValidationError
            (fold (\<lambda>fieldErr fs. map_set (FieldError_Field fieldErr) (messageForTag fieldErr) fs) errs []))"

definition Validator_Struct :: "Validator \<Rightarrow> struct_field list \<Rightarrow> go_error option" where
  "Validator_Struct v fs = map_option toFieldValidationError (Validator_validate v fs)"


section \<open>What the validator documents\<close>

fun rune_count_fuel :: "nat \<Rightarrow> string \<Rightarrow> nat" where
  "rune_count_fuel 0 s = 0"
| "rune_count_fuel (Suc k) s =
     (if s = [] then 0 else Suc (rune_count_fuel k (drop (max 1 (rune_len s)) s)))"

text \<open>
  A \<open>float64\<close> is written as a fraction with a positive denominator.
  \<open>utf8.RuneCountInString\<close>; a string has at most as many runes as bytes.\<close>

definition rune_count :: "string \<Rightarrow> nat" where
  "rune_count s = rune_count_fuel (length s) s"

fun zero_value :: "field_value \<Rightarrow> bool" where
  "zero_value (VString s) = (s = '''')"
| "zero_value (VInt n) = (n = 0)"
| "zero_value (VBool b) = (\<not> b)"
| "zero_value (VFrac q) = (fst q = 0)"

definition rule_tag :: "string \<Rightarrow> string" where
  "rule_tag rule = hd (Split rule CHR ''='')"

definition rule_param :: "string \<Rightarrow> string" where
  "rule_param rule = Join (tl (Split rule CHR ''='')) ''=''"

text \<open>A string is compared by its number of runes, a number by its value.\<close>

fun at_least :: "field_value \<Rightarrow> int \<Rightarrow> bool" where
  "at_least (VString s) b = (b \<le> int (rune_count s))"
| "at_least (VInt n) b = (b \<le> n)"
| "at_least (VFrac q) b = (b * snd q \<le> fst q)"
| "at_least (VBool x) b = False"

fun at_most :: "field_value \<Rightarrow> int \<Rightarrow> bool" where
  "at_most (VString s) b = (int (rune_count s) \<le> b)"
| "at_most (VInt n) b = (n \<le> b)"
| "at_most (VFrac q) b = (fst q \<le> b * snd q)"
| "at_most (VBool x) b = False"

definition bound :: "string \<Rightarrow> int" where
  "bound param = (case ParseInt param of Some n \<Rightarrow> n | None \<Rightarrow> 0)"

text \<open>The tags of the program's structs; what is an email address is a parameter.\<close>

definition rule_ok :: "(string \<Rightarrow> bool) \<Rightarrow> field_value \<Rightarrow> string \<Rightarrow> bool" where
  "rule_ok is_email v rule =
     (let tag = rule_tag rule; param = rule_param rule
      in if tag = ''required'' then \<not> zero_value v
         else if tag \<in> {''min'', ''gte''} then at_least v (bound param)
         else if tag \<in> {''max'', ''lte''} then at_most v (bound param)
         else if tag = ''gt'' then \<not> at_most v (bound param)
         else if tag = ''email'' then (case v of VString s \<Rightarrow> is_email s | _ \<Rightarrow> False)
         else if tag = ''oneof'' then (case v of VString s \<Rightarrow> s \<in> set (Split param CHR '' '') | _ \<Rightarrow> False)
         else True)"

definition field_rules :: "struct_field \<Rightarrow> string list" where
  "field_rules f = Split (first_value (field_Tags f) ''validate'') CHR '',''"

definition field_ok :: "(string \<Rightarrow> bool) \<Rightarrow> struct_field \<Rightarrow> bool" where
  "field_ok is_email f \<longleftrightarrow>
     (''omitempty'' \<in> set (field_rules f) \<and> zero_value (field_Value f)) \<or>
     list_all (rule_ok is_email (field_Value f)) (field_rules f)"

definition reported_name :: "(struct_field \<Rightarrow> string) \<Rightarrow> struct_field \<Rightarrow> string" where
  "reported_name name f = (if name f = '''' then field_GoName f else name f)"

text \<open>
  A struct passes when its fields meet their rules; otherwise each error names a field and one of
  the rules it breaks.
\<close>

definition validator_documented :: "(string \<Rightarrow> bool) \<Rightarrow> validator_lib \<Rightarrow> bool" where
  "validator_documented is_email lib \<longleftrightarrow>
     (\<forall>name fs.
        case lib name fs of
          None \<Rightarrow> list_all (field_ok is_email) fs
        | Some (InvalidValidation e) \<Rightarrow> False
        | Some (ValidationErrors errs) \<Rightarrow> errs \<noteq> [] \<and>
            (\<forall>e \<in> set errs. \<exists>f \<in> set fs. \<exists>rule \<in> set (field_rules f).
               FieldError_Field e = reported_name name f \<and> FieldError_Tag e = rule_tag rule \<and>
               FieldError_Param e = rule_param rule \<and> \<not> rule_ok is_email (field_Value f) rule \<and>
               \<not> field_ok is_email f))"

text \<open>A validator that behaves so: it reports the first broken rule of each field.\<close>

definition sample_validator :: "(string \<Rightarrow> bool) \<Rightarrow> validator_lib" where
  "sample_validator is_email name fs =
     (let errs = concat (map (\<lambda>f.
            if field_ok is_email f then []
            else map (\<lambda>rule. \<lparr>FieldError_Field = reported_name name f, FieldError_Tag = rule_tag rule,
                              FieldError_Param = rule_param rule\<rparr>)
                   (take 1 (filter (\<lambda>rule. \<not> rule_ok is_email (field_Value f) rule) (field_rules f)))) fs)
      in if errs = [] then None else Some (ValidationErrors errs))"

text \<open>The errors the sample validator makes of one field.\<close>

lemma sample_field_errors:
  assumes "e \<in> set (map (\<lambda>rule. \<lparr>FieldError_Field = reported_name name f, FieldError_Tag = rule_tag rule,
      FieldError_Param = rule_param rule\<rparr>)
    (take 1 (filter (\<lambda>rule. \<not> rule_ok em (field_Value f) rule) (field_rules f))))"
  shows "\<exists>rule \<in> set (field_rules f).
     FieldError_Field e = reported_name name f \<and> FieldError_Tag e = rule_tag rule \<and>
     FieldError_Param e = rule_param rule \<and> \<not> rule_ok em (field_Value f) rule"
  using assms by (auto dest!: in_set_takeD)

lemma field_ok_no_errors:
  "take 1 (filter (\<lambda>rule. \<not> rule_ok em (field_Value f) rule) (field_rules f)) = [] \<Longrightarrow> field_ok em f"
  by (auto simp: field_ok_def list_all_iff filter_empty_conv)

lemma sample_validator_documented: "validator_documented em (sample_validator em)"
  unfolding validator_documented_def
proof (intro allI)
  fix name fs
  define E where "E f = (if field_ok em f then []
     else map (\<lambda>rule. \<lparr>FieldError_Field = reported_name name f, FieldError_Tag = rule_tag rule,
                       FieldError_Param = rule_param rule\<rparr>)
       (take 1 (filter (\<lambda>rule. \<not> rule_ok em (field_Value f) rule) (field_rules f))))" for f
  have lib: "sample_validator em name fs =
      (if concat (map E fs) = [] then None else Some (ValidationErrors (concat (map E fs))))"
    by (simp add: sample_validator_def E_def [abs_def] Let_def)
  have ok: "field_ok em f" if "E f = []" for f
    using that field_ok_no_errors [of em f] by (simp add: E_def split: if_splits)
  have err: "\<exists>rule \<in> set (field_rules f).
     FieldError_Field e = reported_name name f \<and> FieldError_Tag e = rule_tag rule \<and>
     FieldError_Param e = rule_param rule \<and> \<not> rule_ok em (field_Value f) rule \<and> \<not> field_ok em f"
    if "e \<in> set (E f)" for e f
  proof (cases "field_ok em f")
    case False
    with that sample_field_errors [of e name f em] show ?thesis by (simp add: E_def)
  qed (use that in \<open>simp add: E_def\<close>)
  show "case sample_validator em name fs of
      None \<Rightarrow> list_all (field_ok em) fs
    | Some (InvalidValidation e) \<Rightarrow> False
    | Some (ValidationErrors errs) \<Rightarrow> errs \<noteq> [] \<and>
        (\<forall>e \<in> set errs. \<exists>f \<in> set fs. \<exists>rule \<in> set (field_rules f).
           FieldError_Field e = reported_name name f \<and> FieldError_Tag e = rule_tag rule \<and>
           FieldError_Param e = rule_param rule \<and> \<not> rule_ok em (field_Value f) rule \<and>
           \<not> field_ok em f)"
  proof (cases "concat (map E fs) = []")
    case True
    with ok show ?thesis by (simp add: lib list_all_iff)
  next
    case False
    have "\<exists>f \<in> set fs. \<exists>rule \<in> set (field_rules f).
           FieldError_Field e = reported_name name f \<and> FieldError_Tag e = rule_tag rule \<and>
           FieldError_Param e = rule_param rule \<and> \<not> rule_ok em (field_Value f) rule \<and>
           \<not> field_ok em f" if "e \<in> set (concat (map E fs))" for e :: FieldError
    proof -
      from that obtain f where "f \<in> set fs" "e \<in> set (E f)" by auto
      with err show ?thesis by blast
    qed
    with False show ?thesis
      unfolding lib if_not_P [OF False] option.case validate_error.case by blast
  qed
qed

lemma validator_cases:
  assumes "validator_documented em lib"
  obtains "lib name fs = None" "list_all (field_ok em) fs"
    | errs where "lib name fs = Some (ValidationErrors errs)"
proof -
  from assms have *: "case lib name fs of
      None \<Rightarrow> list_all (field_ok em) fs
    | Some (InvalidValidation e) \<Rightarrow> False
    | Some (ValidationErrors errs) \<Rightarrow> errs \<noteq> [] \<and>
        (\<forall>e \<in> set errs. \<exists>f \<in> set fs. \<exists>rule \<in> set (field_rules f).
           FieldError_Field e = reported_name name f \<and> FieldError_Tag e = rule_tag rule \<and>
           FieldError_Param e = rule_param rule \<and> \<not> rule_ok em (field_Value f) rule \<and>
           \<not> field_ok em f)"
    by (simp only: validator_documented_def)
  show ?thesis
  proof (cases "lib name fs")
    case (Some e)
    with * that(2) show ?thesis by (cases e) simp_all
  qed (use * that(1) in simp)
qed

lemma Validator_Struct_None:
  "validator_documented em lib \<Longrightarrow> Validator_Struct (validation_New lib) fs = None \<Longrightarrow>
     list_all (field_ok em) fs"
  by (rule validator_cases [of em lib tag_name fs])
    (auto simp: Validator_Struct_def validation_New_def)

text \<open>Errors of a struct are answered with status 400: they are field errors.\<close>

lemma Validator_Struct_error:
  "validator_documented em lib \<Longrightarrow> Validator_Struct (validation_New lib) fs = Some err \<Longrightarrow>
     \<exists>fields. err = FieldValidationError fields"
  by (rule validator_cases [of em lib tag_name fs])
    (auto simp: Validator_Struct_def validation_New_def toFieldValidationError_def NewFieldValidationError_def)


text \<open>\<open>if err := h.validator.Struct(req); err != nil { response.HandleError(...); return }\<close>\<close>

definition validated :: "Validator \<Rightarrow> struct_field list \<Rightarrow> unit http \<Rightarrow> unit http" where
  "validated v fs k = (case Validator_Struct v fs of Some err \<Rightarrow> HandleError err | None \<Rightarrow> k)"

lemma frame_validated [frame_intros]: "frame conn_world k \<Longrightarrow> frame conn_world (validated v fs k)"
  unfolding validated_def by (intro frame_intros)

text \<open>A validator whose errors are field errors.\<close>

definition field_errors_only :: "Validator \<Rightarrow> bool" where
  "field_errors_only v \<longleftrightarrow> (\<forall>fs err. Validator_Struct v fs = Some err \<longrightarrow> status_known err)"

lemma documented_field_errors: "validator_documented em lib \<Longrightarrow> field_errors_only (validation_New lib)"
  unfolding field_errors_only_def by (auto dest: Validator_Struct_error)

lemma keeps_in_step_validated [keeps_intros]:
  "field_errors_only v \<Longrightarrow> keeps (in_step n) k \<Longrightarrow> keeps (in_step n) (validated v fs k)"
  unfolding validated_def by (auto intro!: keeps_intros simp: field_errors_only_def split: option.split)


lemma rune_count_ascii: "list_all is_ascii s \<Longrightarrow> rune_count s = length s"
  unfolding rune_count_def
proof (induction s)
  case (Cons c s)
  then have "rune_len (c # s) = 1" by (simp add: rune_len_def utf8_valid_ascii)
  with Cons show ?case by simp
qed simp

end
