(* ===== verification/Auth_Service.thy ===== *)
theory Auth_Service
  imports Token
begin

text \<open>
  internal/auth: tx.go (the transactions of the package) and service.go (register, login, me,
  refresh, logout). The service is a record of its collaborators, as in the code; its lemmas are
  proved from the contracts of the stores and of the transaction runner (locale
  \<open>auth_deps\<close>) and hold for the PostgreSQL implementations by interpretation.
\<close>

section \<open>Requests and responses\<close>

record RegisterRequest =
  RegisterRequest_Name :: string
  RegisterRequest_Email :: string
  RegisterRequest_Age :: int
  RegisterRequest_Password :: string

record LoginRequest =
  LoginRequest_Email :: string
  LoginRequest_Password :: string

record AuthResponse =
  AuthResponse_AccessToken :: string
  AuthResponse_TokenType :: string
  AuthResponse_RefreshToken :: string
  AuthResponse_User :: UserResponse

record RefreshRequest =
  RefreshRequest_RefreshToken :: string

record LogoutRequest =
  LogoutRequest_RefreshToken :: string

record MeResponse =
  MeResponse_User :: UserResponse

section \<open>Collaborators\<close>

text \<open>The functions of third-party packages the service uses, directly or not.\<close>

record auth_env =
  env_lower :: "string \<Rightarrow> string"                       \<comment> \<open>Unicode case mapping of non-ASCII text\<close>
  env_bcrypt :: bcrypt_lib
  env_jwt :: jwt_lib
  env_sha256 :: "string \<Rightarrow> string"
  env_marshal :: "UserRegistered \<Rightarrow> go_error + string"   \<comment> \<open>\<open>proto.Marshal\<close>\<close>

record TxStores =
  TxStores_UserStore :: Repository
  TxStores_RefreshTokenStore :: RefreshTokenStore
  TxStores_OutboxStore :: Store

type_synonym 'a TxFactory = "(TxStores \<Rightarrow> 'a prog) \<Rightarrow> 'a prog"

definition auth_WithinTx :: "pg_locale \<Rightarrow> 'a TxFactory" where
  "auth_WithinTx pg fn =
     (let stores = \<lparr>TxStores_UserStore = user_NewPostgresRepository pg,
                    TxStores_RefreshTokenStore = NewRefreshTokenRepository,
                    TxStores_OutboxStore = outbox_NewPostgresRepository\<rparr>
      in run_tx (wrapf ''begin auth transaction'') (wrapf ''commit auth transaction'')
           (\<lambda>_ err. err) (fn stores))"

text \<open>The errors after which the outcome of the transaction is unknown to the caller.\<close>

fun auth_commit_error :: "go_error \<Rightarrow> bool" where
  "auth_commit_error (Errorf p e q) = (p = ''commit auth transaction: '')"
| "auth_commit_error _ = False"

record auth_Service =
  auth_userRepo :: Repository
  auth_refreshRepo :: RefreshTokenStore
  auth_txFactory :: "AuthResponse TxFactory"
  auth_hasher :: PasswordHasher
  auth_tokens :: TokenManager
  auth_refreshTokenTTL :: int
  auth_lib :: auth_env

definition auth_NewService ::
  "Repository \<Rightarrow> RefreshTokenStore \<Rightarrow> AuthResponse TxFactory \<Rightarrow> PasswordHasher \<Rightarrow> TokenManager \<Rightarrow>
     int \<Rightarrow> auth_env \<Rightarrow> auth_Service" where
  "auth_NewService userRepo refreshRepo txFactory hasher tokens ttl env =
     \<lparr>auth_userRepo = userRepo, auth_refreshRepo = refreshRepo, auth_txFactory = txFactory,
      auth_hasher = hasher, auth_tokens = tokens, auth_refreshTokenTTL = ttl, auth_lib = env\<rparr>"

section \<open>The operations\<close>

definition dummyPasswordHash :: string where
  "dummyPasswordHash = ''$2a$12$e80yq9gIe67Cqg4a0d9I6.L971nJ9.xP7pB/64QZz.7iG8JgP1G2m''"

definition normalize_email :: "(string \<Rightarrow> string) \<Rightarrow> string \<Rightarrow> string" where
  "normalize_email lower email = TrimSpace (ToLower lower email)"

definition issueTokenPairWithStore ::
  "auth_Service \<Rightarrow> RefreshTokenStore \<Rightarrow> User \<Rightarrow> (string \<times> string) prog" where
  "issueTokenPairWithStore s refreshRepo usr =
     andThen (TokenManager_Generate (env_jwt (auth_lib s)) (auth_tokens s)
                (User_ID usr) (User_Email usr) (User_Role usr)) (\<lambda>accessToken.
     andThen (RefreshTokenManager_Generate (env_sha256 (auth_lib s))) (\<lambda>(refreshToken, refreshTokenHash).
     andThen (\<lambda>w. RefreshTokenStore_CreateRefreshToken refreshRepo
                (zero_RefreshToken\<lparr>RefreshToken_UserID := User_ID usr,
                   RefreshToken_TokenHash := refreshTokenHash,
                   RefreshToken_ExpiresAt := clock w + auth_refreshTokenTTL s\<rparr>) w) (\<lambda>_.
       ret (accessToken, refreshToken))))"

definition issueTokenPair :: "auth_Service \<Rightarrow> User \<Rightarrow> (string \<times> string) prog" where
  "issueTokenPair s user = issueTokenPairWithStore s (auth_refreshRepo s) user"

definition new_AuthResponse :: "string \<Rightarrow> string \<Rightarrow> User \<Rightarrow> AuthResponse" where
  "new_AuthResponse accessToken refreshToken user =
     \<lparr>AuthResponse_AccessToken = accessToken, AuthResponse_TokenType = ''Bearer'',
      AuthResponse_RefreshToken = refreshToken, AuthResponse_User = ToResponse user\<rparr>"

text \<open>The closure \<open>Register\<close> runs in a transaction.\<close>

definition register_tx ::
  "auth_Service \<Rightarrow> string \<Rightarrow> string \<Rightarrow> int \<Rightarrow> string \<Rightarrow> TxStores \<Rightarrow> AuthResponse prog" where
  "register_tx s name email age passwordHash stores =
     andThen (mapErr (wrapf ''check email exists'')
                (Repository_ExistsByEmail (TxStores_UserStore stores) email)) (\<lambda>exist.
     if exist then throw NewEmailAlreadyExistsError
     else
       andThen (mapErr (\<lambda>err. if errors_Is err ErrEmailAlreadyExists then NewEmailAlreadyExistsError else err)
                  (Repository_Create (TxStores_UserStore stores)
                     (zero_User\<lparr>User_Name := name, User_Email := email, User_Age := age,
                        User_PasswordHash := passwordHash, User_Role := RoleUser\<rparr>))) (\<lambda>created.
       andThen (issueTokenPairWithStore s (TxStores_RefreshTokenStore stores) created)
         (\<lambda>(accessToken, refreshToken).
       case MarshalUserRegistered (env_marshal (auth_lib s)) (User_ID created) (User_Email created)
              (User_Role created) of
         Inl err \<Rightarrow> throw err
       | Inr payload \<Rightarrow>
           andThen (mapErr (wrapf ''create user registered outbox event'')
                      (Store_Create (TxStores_OutboxStore stores)
                         (new_OutboxEvent EventTypeUserRegistered AggregateUser (FormatInt (User_ID created))
                            payload ContentTypeProtobuf ProtoMessageUserRegistered EventVersionV1))) (\<lambda>_.
             ret (new_AuthResponse accessToken refreshToken created)))))"

definition auth_Register :: "auth_Service \<Rightarrow> RegisterRequest \<Rightarrow> AuthResponse prog" where
  "auth_Register s req =
     (let name = TrimSpace (RegisterRequest_Name req);
          email = normalize_email (env_lower (auth_lib s)) (RegisterRequest_Email req)
      in andThen (PasswordHasher_Hash (env_bcrypt (auth_lib s)) (auth_hasher s) (RegisterRequest_Password req))
           (\<lambda>passwordHash. auth_txFactory s (register_tx s name email (RegisterRequest_Age req) passwordHash)))"

text \<open>
  In the error branch of the lookup the code compares the dummy hash for the time it takes and
  drops the result.
\<close>

definition auth_Login :: "auth_Service \<Rightarrow> LoginRequest \<Rightarrow> AuthResponse prog" where
  "auth_Login s req =
     (let email = normalize_email (env_lower (auth_lib s)) (LoginRequest_Email req)
      in attempt (Repository_FindByEmail (auth_userRepo s) email) (\<lambda>r. case r of
           Inl err \<Rightarrow>
             (let _ = PasswordHasher_Compare (env_bcrypt (auth_lib s)) dummyPasswordHash
                        (LoginRequest_Password req)
              in if errors_Is err ErrUserNotFound then throw NewInvalidCredentialsError
                 else throw (wrapf ''find user by email'' err))
         | Inr found \<Rightarrow>
             if \<not> PasswordHasher_Compare (env_bcrypt (auth_lib s)) (User_PasswordHash found)
                    (LoginRequest_Password req)
             then throw NewInvalidCredentialsError
             else andThen (issueTokenPair s found) (\<lambda>(accessToken, refreshToken).
                    ret (new_AuthResponse accessToken refreshToken found))))"

definition auth_Me :: "auth_Service \<Rightarrow> int \<Rightarrow> MeResponse prog" where
  "auth_Me s userId =
     andThen (mapErr (\<lambda>err. if errors_Is err ErrUserNotFound then NewUserNotFoundError else err)
                (Repository_FindByID (auth_userRepo s) userId))
       (\<lambda>found. ret \<lparr>MeResponse_User = ToResponse found\<rparr>)"

text \<open>The closure \<open>Refresh\<close> runs in a transaction; the time is read after the lookup.\<close>

definition refresh_tx :: "auth_Service \<Rightarrow> string \<Rightarrow> TxStores \<Rightarrow> AuthResponse prog" where
  "refresh_tx s hash stores =
     andThen (mapErr (\<lambda>err. if errors_Is err ErrRefreshTokenNotFound then NewUnauthorizedError
                            else wrapf ''find refresh token by hash'' err)
                (RefreshTokenStore_FindRefreshTokenByHash (TxStores_RefreshTokenStore stores) hash))
       (\<lambda>storedToken w.
          if \<not> RefreshToken_IsActive storedToken (clock w) then throw NewUnauthorizedError w
          else andThen (mapErr (\<lambda>err. if errors_Is err ErrUserNotFound then NewUnauthorizedError
                                      else wrapf ''find user by id'' err)
                          (Repository_FindByID (TxStores_UserStore stores) (RefreshToken_UserID storedToken)))
                 (\<lambda>usr. andThen (issueTokenPairWithStore s (TxStores_RefreshTokenStore stores) usr)
                 (\<lambda>(accessToken, refreshToken).
                  andThen (mapErr (wrapf ''revoke old refresh token'')
                             (RefreshTokenStore_RevokeRefreshToken (TxStores_RefreshTokenStore stores)
                                (RefreshToken_ID storedToken))) (\<lambda>_.
                    ret (new_AuthResponse accessToken refreshToken usr)))) w)"

definition auth_Refresh :: "auth_Service \<Rightarrow> RefreshRequest \<Rightarrow> AuthResponse prog" where
  "auth_Refresh s req =
     (let hash = RefreshTokenManager_Hash (env_sha256 (auth_lib s)) (RefreshRequest_RefreshToken req)
      in auth_txFactory s (refresh_tx s hash))"

definition auth_Logout :: "auth_Service \<Rightarrow> LogoutRequest \<Rightarrow> unit prog" where
  "auth_Logout s req =
     (let hash = RefreshTokenManager_Hash (env_sha256 (auth_lib s)) (LogoutRequest_RefreshToken req)
      in attempt (RefreshTokenStore_FindRefreshTokenByHash (auth_refreshRepo s) hash) (\<lambda>r. case r of
           Inl err \<Rightarrow> if errors_Is err ErrRefreshTokenNotFound then ret ()
                      else throw (wrapf ''find refresh token'' err)
         | Inr storedToken \<Rightarrow>
             if RefreshToken_IsRevoked storedToken then ret ()
             else mapErr (wrapf ''revoke refresh token'')
                    (RefreshTokenStore_RevokeRefreshToken (auth_refreshRepo s) (RefreshToken_ID storedToken))))"

section \<open>The contract of the collaborators\<close>

definition auth_factory ::
  "Repository \<Rightarrow> RefreshTokenStore \<Rightarrow> Store \<Rightarrow> ('a prog \<Rightarrow> 'a prog) \<Rightarrow> 'a TxFactory" where
  "auth_factory U T S run fn =
     run (fn \<lparr>TxStores_UserStore = U, TxStores_RefreshTokenStore = T, TxStores_OutboxStore = S\<rparr>)"

locale auth_deps = usr: user_repository U + tok: refresh_store T + obx: outbox_store S +
    txf: tx_factory run uncertain
  for U :: Repository and T :: RefreshTokenStore and S :: Store
    and run :: "AuthResponse prog \<Rightarrow> AuthResponse prog" and uncertain :: "go_error \<Rightarrow> bool" +
  fixes s :: auth_Service
  assumes wiring: "auth_userRepo s = U" "auth_refreshRepo s = T" "auth_txFactory s = auth_factory U T S run"
begin

lemma issue_only:
  "db_only (issueTokenPairWithStore s T u)" "keeps (consistent q) (issueTokenPairWithStore s T u)"
proof -
  have "db_only (\<lambda>w. RefreshTokenStore_CreateRefreshToken T (f w) w)" for f
    using tok.token_only_db(1) by (simp add: db_only_def)
  then show "db_only (issueTokenPairWithStore s T u)"
    unfolding issueTokenPairWithStore_def by (intro db_only_intros)
  have "keeps (consistent q) (\<lambda>w. RefreshTokenStore_CreateRefreshToken T (f w) w)" for f
    using tok.token_keeps(1) by (simp add: keeps_def)
  then show "keeps (consistent q) (issueTokenPairWithStore s T u)"
    unfolding issueTokenPairWithStore_def by (intro keeps_intros token_Generate_only)
qed

lemma issue_Inr:
  assumes "issueTokenPairWithStore s T u w = (Inr (acc, refr), w')"
  shows "\<exists>t. RefreshToken_UserID t = User_ID u \<and> RefreshToken_RevokedAt t = None \<and>
    RefreshToken_TokenHash t = RefreshTokenManager_Hash (env_sha256 (auth_lib s)) refr \<and>
    RefreshToken_ExpiresAt t \<ge> clock w + auth_refreshTokenTTL s \<and>
    RefreshToken_TokenHash t \<notin> set (map RefreshToken_TokenHash (refresh_tokens (db w))) \<and>
    jwt_SignedString (env_jwt (auth_lib s)) SigningMethodHS256
      (token_claims (env_jwt (auth_lib s)) (auth_tokens s) (User_ID u) (User_Email u) (User_Role u) (clock w))
      (TokenManager_secret (auth_tokens s)) = Inr acc \<and>
    db w' = (db w)\<lparr>refresh_tokens := refresh_tokens (db w) @ [t]\<rparr>"
proof -
  from assms obtain w1 h w2 c where
    1: "TokenManager_Generate (env_jwt (auth_lib s)) (auth_tokens s) (User_ID u) (User_Email u) (User_Role u) w
          = (Inr acc, w1)"
    and 2: "RefreshTokenManager_Generate (env_sha256 (auth_lib s)) w1 = (Inr (refr, h), w2)"
    and 3: "RefreshTokenStore_CreateRefreshToken T (zero_RefreshToken\<lparr>RefreshToken_UserID := User_ID u,
        RefreshToken_TokenHash := h, RefreshToken_ExpiresAt := clock w2 + auth_refreshTokenTTL s\<rparr>) w2
          = (Inr c, w')"
    unfolding issueTokenPairWithStore_def by (auto elim!: andThen_InrE)
  have w1: "w1 = w" using 1 by (rule Generate_state)
  have d: "db w2 = db w" using frameD [OF frame_Generate(1) 2] w1 by simp
  have c: "clock w \<le> clock w2" using db_only_clock [OF db_only_Generate 2] w1 by simp
  have j: "jwt_SignedString (env_jwt (auth_lib s)) SigningMethodHS256
      (token_claims (env_jwt (auth_lib s)) (auth_tokens s) (User_ID u) (User_Email u) (User_Role u) (clock w))
      (TokenManager_secret (auth_tokens s)) = Inr acc"
    using 1 by (auto simp: TokenManager_Generate_def Let_def split: sum.splits)
  from tok.token_create_Inr [OF 3] c d j Generate_hash [OF 2] show ?thesis
    by (intro exI [of _ c]) (auto simp: token_row_def)
qed

abbreviation stores :: TxStores where
  "stores \<equiv> \<lparr>TxStores_UserStore = U, TxStores_RefreshTokenStore = T, TxStores_OutboxStore = S\<rparr>"

lemma factory: "auth_txFactory s fn = run (fn stores)"
  by (simp add: wiring auth_factory_def)

lemma register_tx_only:
  "db_only (register_tx s name email age h stores)"
  "keeps (consistent q) (register_tx s name email age h stores)"
  unfolding register_tx_def TxStores.simps
  by (auto intro!: db_only_intros keeps_intros usr.only_db obx.only_db issue_only usr.repo_consistent
      obx.keeps_schema)

lemma register_tx_Inr:
  assumes "register_tx s name email age h stores w = (Inr resp, w')"
  shows "\<exists>row t ev. db w' = (db w)\<lparr>users := users (db w) @ [row],
      refresh_tokens := refresh_tokens (db w) @ [t], outbox_events := outbox_events (db w) @ [ev]\<rparr> \<and>
    email \<notin> set (map User_Email (users (db w))) \<and>
    User_ID row = users_id_seq (seqs w) + 1 \<and> User_Name row = name \<and> User_Email row = email \<and>
    User_Age row = age \<and> User_Role row = RoleUser \<and> User_PasswordHash row = h \<and>
    RefreshToken_UserID t = User_ID row \<and> RefreshToken_RevokedAt t = None \<and>
    RefreshToken_TokenHash t =
      RefreshTokenManager_Hash (env_sha256 (auth_lib s)) (AuthResponse_RefreshToken resp) \<and>
    OutboxEvent_Status ev = StatusNew \<and> OutboxEvent_EventType ev = EventTypeUserRegistered \<and>
    OutboxEvent_AggregateType ev = AggregateUser \<and>
    OutboxEvent_AggregateID ev = FormatInt (User_ID row) \<and>
    env_marshal (auth_lib s) \<lparr>UserRegistered_UserId = User_ID row, UserRegistered_Email = email,
      UserRegistered_Role = RoleUser\<rparr> = Inr (OutboxEvent_Payload ev) \<and>
    OutboxEvent_ContentType ev = ContentTypeProtobuf \<and>
    OutboxEvent_ProtoMessage ev = ProtoMessageUserRegistered \<and>
    OutboxEvent_EventVersion ev = EventVersionV1 \<and>
    AuthResponse_User resp = ToResponse row \<and> AuthResponse_TokenType resp = ''Bearer''"
proof -
  let ?u = "zero_User\<lparr>User_Name := name, User_Email := email, User_Age := age,
     User_PasswordHash := h, User_Role := RoleUser\<rparr>"
  from assms obtain w1 cr w2 acc refr w3 pl cev w4 where
    1: "Repository_ExistsByEmail U email w = (Inr False, w1)" and
    2: "Repository_Create U ?u w1 = (Inr cr, w2)" and
    3: "issueTokenPairWithStore s T cr w2 = (Inr (acc, refr), w3)" and
    4: "MarshalUserRegistered (env_marshal (auth_lib s)) (User_ID cr) (User_Email cr) (User_Role cr) = Inr pl" and
    5: "Store_Create S (new_OutboxEvent EventTypeUserRegistered AggregateUser (FormatInt (User_ID cr))
          pl ContentTypeProtobuf ProtoMessageUserRegistered EventVersionV1) w3 = (Inr cev, w')" and
    6: "resp = new_AuthResponse acc refr cr"
    unfolding register_tx_def TxStores.simps
    by (auto elim!: andThen_InrE dest!: mapErr_InrD split: if_splits sum.splits)
  have w1: "db w1 = db w" "seqs w1 = seqs w"
    using frameD [OF usr.readers(4) 1] frameD [OF usr.readers(9) 1] by auto
  from usr.create_Inr [OF 2] obtain t where
    cr: "cr = scan_user (user_row (users_id_seq (seqs w) + 1) ?u t)"
    and nin: "email \<notin> set (map User_Email (users (db w)))"
    and d2: "db w2 = (db w)\<lparr>users := users (db w) @ [user_row (users_id_seq (seqs w) + 1) ?u t]\<rparr>"
    unfolding w1 by auto
  from issue_Inr [OF 3] obtain tk where tk: "RefreshToken_UserID tk = User_ID cr"
    "RefreshToken_RevokedAt tk = None"
    "RefreshToken_TokenHash tk = RefreshTokenManager_Hash (env_sha256 (auth_lib s)) refr"
    "db w3 = (db w2)\<lparr>refresh_tokens := refresh_tokens (db w2) @ [tk]\<rparr>" by blast
  from obx.create_Inr [OF 5] obtain t' where cev: "cev = outbox_row (outbox_events_id_seq (seqs w3) + 1)
      (new_OutboxEvent EventTypeUserRegistered AggregateUser (FormatInt (User_ID cr))
          pl ContentTypeProtobuf ProtoMessageUserRegistered EventVersionV1) t'"
    "db w' = (db w3)\<lparr>outbox_events := outbox_events (db w3) @ [cev]\<rparr>" by blast
  show ?thesis
    by (rule exI [of _ "user_row (users_id_seq (seqs w) + 1) ?u t"], rule exI [of _ tk], rule exI [of _ cev])
      (use cr nin d2 tk cev 4 6 in \<open>auto simp: user_row_def scan_user_def outbox_row_def
         new_OutboxEvent_def new_AuthResponse_def ToResponse_def RoleUser_def MarshalUserRegistered_def
         split: sum.splits\<close>)
qed

lemma refresh_tx_only:
  "db_only (refresh_tx s h stores)" "keeps (consistent q) (refresh_tx s h stores)"
proof -
  have a: "db_only (\<lambda>w. if P (clock w) then throw e w else m w)" if "db_only m"
    for P e and m :: "AuthResponse prog"
    using that by (simp add: db_only_def throw_def)
  have b: "keeps I (\<lambda>w. if P (clock w) then throw e w else m w)" if "keeps I m"
    for P e I and m :: "AuthResponse prog"
    using that by (simp add: keeps_def throw_def)
  show "db_only (refresh_tx s h stores)"
    unfolding refresh_tx_def TxStores.simps
    by (auto intro!: db_only_intros a usr.only_db tok.token_only_db issue_only)
  show "keeps (consistent q) (refresh_tx s h stores)"
    unfolding refresh_tx_def TxStores.simps
    by (auto intro!: keeps_intros b usr.repo_consistent tok.token_consistent issue_only)
qed

lemma refresh_tx_Inr:
  assumes "refresh_tx s h stores w = (Inr resp, w')" and ids: "distinct (map RefreshToken_ID (refresh_tokens (db w)))"
  shows "\<exists>old new now row. old \<in> set (refresh_tokens (db w)) \<and> RefreshToken_TokenHash old = h \<and>
    RefreshToken_IsActive old now \<and> clock w \<le> now \<and>
    row \<in> set (users (db w)) \<and> User_ID row = RefreshToken_UserID old \<and>
    RefreshToken_UserID new = User_ID row \<and> RefreshToken_RevokedAt new = None \<and>
    RefreshToken_TokenHash new =
      RefreshTokenManager_Hash (env_sha256 (auth_lib s)) (AuthResponse_RefreshToken resp) \<and>
    RefreshToken_TokenHash new \<notin> set (map RefreshToken_TokenHash (refresh_tokens (db w))) \<and>
    AuthResponse_User resp = ToResponse row \<and>
    (\<exists>t. db w' = (db w)\<lparr>refresh_tokens := update_where (unrevoked (RefreshToken_ID old)) (revoke t)
         (refresh_tokens (db w) @ [new])\<rparr>)"
proof -
  from assms(1) obtain st w1 us w2 acc refr w3 x where
    1: "RefreshTokenStore_FindRefreshTokenByHash T h w = (Inr st, w1)" and
    act: "RefreshToken_IsActive st (clock w1)" and
    2: "Repository_FindByID U (RefreshToken_UserID st) w1 = (Inr us, w2)" and
    3: "issueTokenPairWithStore s T us w2 = (Inr (acc, refr), w3)" and
    4: "RefreshTokenStore_RevokeRefreshToken T (RefreshToken_ID st) w3 = (Inr x, w')" and
    resp: "resp = new_AuthResponse acc refr us"
    unfolding refresh_tx_def TxStores.simps
    by (auto elim!: andThen_InrE dest!: mapErr_InrD split: if_splits)
  have d1: "db w1 = db w" by (rule frameD [OF tok.token_readers(1) 1])
  have d2: "db w2 = db w" using frameD [OF usr.readers(1) 2] d1 by simp
  have cl: "clock w \<le> clock w1" by (rule db_only_clock [OF tok.token_only_db(2) 1])
  have st: "st \<in> set (refresh_tokens (db w))" "RefreshToken_TokenHash st = h"
    using tok.token_find_Inr [OF 1] by (auto dest: find_SomeD)
  from usr.find_by_id_Inr [OF 2] obtain row where
    row: "row \<in> set (users (db w))" "User_ID row = RefreshToken_UserID st" "us = scan_user row"
    unfolding d1 by (auto dest: find_SomeD)
  from issue_Inr [OF 3] obtain nw where nw: "RefreshToken_UserID nw = User_ID us"
    "RefreshToken_RevokedAt nw = None"
    "RefreshToken_TokenHash nw = RefreshTokenManager_Hash (env_sha256 (auth_lib s)) refr"
    "RefreshToken_TokenHash nw \<notin> set (map RefreshToken_TokenHash (refresh_tokens (db w)))"
    "db w3 = (db w)\<lparr>refresh_tokens := refresh_tokens (db w) @ [nw]\<rparr>" unfolding d2 by blast
  from tok.token_revoke [OF 4] tok.token_revoke_Inr [OF 4] obtain t ts where
    "refresh_tokens (db w') = update_where (unrevoked (RefreshToken_ID st)) (revoke t) (refresh_tokens (db w3))"
    "db w' = (db w3)\<lparr>refresh_tokens := ts\<rparr>" by auto
  then have "db w' = (db w)\<lparr>refresh_tokens := update_where (unrevoked (RefreshToken_ID st)) (revoke t)
         (refresh_tokens (db w) @ [nw])\<rparr>" using nw(5) by simp
  with st act cl row nw resp show ?thesis
    by (intro exI [of _ st] exI [of _ nw] exI [of _ "clock w1"] exI [of _ row])
      (auto simp: new_AuthResponse_def scan_user_def ToResponse_def)
qed

text \<open>A token whose row is revoked, or that has no row, is never exchanged.\<close>

lemma refresh_tx_revoked:
  assumes "\<And>t. t \<in> set (refresh_tokens (db w)) \<Longrightarrow> RefreshToken_TokenHash t = h \<Longrightarrow> RefreshToken_IsRevoked t"
  shows "refresh_tx s h stores w \<noteq> (Inr resp, w')"
proof
  assume "refresh_tx s h stores w = (Inr resp, w')"
  then obtain st w1 where
    1: "RefreshTokenStore_FindRefreshTokenByHash T h w = (Inr st, w1)" and
    act: "RefreshToken_IsActive st (clock w1)"
    unfolding refresh_tx_def TxStores.simps
    by (auto elim!: andThen_InrE dest!: mapErr_InrD split: if_splits)
  with tok.token_find_Inr [OF 1] assms [of st] show False
    by (auto simp: RefreshToken_IsActive_def dest: find_SomeD)
qed

lemma Register_only: "keeps (consistent q) (auth_Register s req)"
  unfolding auth_Register_def Let_def factory
  by (intro keeps_intros consistent_frame Hash_only txf.run_consistent db_only_frames register_tx_only)

lemma Refresh_only: "keeps (consistent q) (auth_Refresh s req)"
  unfolding auth_Refresh_def Let_def factory
  by (intro txf.run_consistent db_only_frames refresh_tx_only)

lemma Login_only: "keeps (consistent q) (auth_Login s req)"
  unfolding auth_Login_def Let_def issueTokenPair_def wiring
  by (intro keeps_intros usr.repo_consistent issue_only)

lemma Logout_only: "keeps (consistent q) (auth_Logout s req)"
  unfolding auth_Logout_def Let_def wiring
  by (intro keeps_intros tok.token_consistent)

lemma Me_only: "keeps (consistent q) (auth_Me s i)" "frame db (auth_Me s i)"
  unfolding auth_Me_def wiring
  by (intro keeps_intros frame_intros usr.repo_consistent usr.readers)+

lemma Register_cases:
  assumes "auth_Register s req w = (r, w')"
  obtains (nothing) e where "r = Inl e" "db w' = db w"
    | (registered) h w0 c p a w1 where
        "PasswordHasher_Hash (env_bcrypt (auth_lib s)) (auth_hasher s) (RegisterRequest_Password req) w = (Inr h, w0)"
        "register_tx s (TrimSpace (RegisterRequest_Name req))
           (normalize_email (env_lower (auth_lib s)) (RegisterRequest_Email req))
           (RegisterRequest_Age req) h stores (started c p w0) = (Inr a, w1)"
        "db w0 = db w" "seqs w0 = seqs w" "db w' = db w1"
        "r = Inr a \<or> (\<exists>e. r = Inl e \<and> uncertain e)"
proof -
  let ?H = "PasswordHasher_Hash (env_bcrypt (auth_lib s)) (auth_hasher s) (RegisterRequest_Password req)"
  obtain h w0 where H: "?H w = (h, w0)" by (cases "?H w")
  have d: "db w0 = db w" "seqs w0 = seqs w"
    using frameD [OF Hash_only(2) H] frameD [OF Hash_only(3) H] by auto
  show thesis
  proof (cases h)
    case (Inl e)
    with assms H d have "r = Inl e" "db w' = db w" by (auto simp: auth_Register_def Let_def andThen_def)
    then show ?thesis by (rule nothing)
  next
    case (Inr hash)
    let ?b = "register_tx s (TrimSpace (RegisterRequest_Name req))
           (normalize_email (env_lower (auth_lib s)) (RegisterRequest_Email req))
           (RegisterRequest_Age req) hash stores"
    have fr: "frame tx ?b" by (rule db_only_frames(1) [OF register_tx_only(1)])
    from assms H Inr have run: "run ?b w0 = (r, w')"
      by (simp add: auth_Register_def Let_def andThen_def factory)
    show ?thesis
    proof (cases r)
      case (Inr a)
      with run txf.run_Inr [of ?b w0 a w'] obtain c p w1 where
        "?b (started c p w0) = (Inr a, w1)" "db w' = db w1" by auto
      with registered [OF _ this(1) d] H \<open>h = Inr hash\<close> Inr show ?thesis by simp
    next
      case (Inl e)
      show ?thesis
      proof (cases "uncertain e")
        case False
        with txf.atomic [OF fr run [unfolded Inl]] d have "db w' = db w" by simp
        with Inl show ?thesis by (rule nothing)
      next
        case True
        from txf.all_or_nothing [OF fr run] consider "db w' = db w0"
          | c p a w1 where "?b (started c p w0) = (Inr a, w1)" "db w' = db w1" by blast
        then show ?thesis
        proof cases
          case 1
          with d have "db w' = db w" by simp
          with Inl show ?thesis by (rule nothing)
        next
          case 2
          with registered [OF _ 2(1) d 2(2)] H \<open>h = Inr hash\<close> Inl True show ?thesis by simp
        qed
      qed
    qed
  qed
qed

lemma Refresh_Inr:
  assumes "auth_Refresh s req w = (Inr resp, w')" and "consistent q w"
  shows "\<exists>old new row t now. old \<in> set (refresh_tokens (db w)) \<and>
    RefreshToken_TokenHash old =
      RefreshTokenManager_Hash (env_sha256 (auth_lib s)) (RefreshRequest_RefreshToken req) \<and>
    RefreshToken_IsActive old now \<and> clock w \<le> now \<and>
    row \<in> set (users (db w)) \<and> User_ID row = RefreshToken_UserID old \<and>
    RefreshToken_UserID new = User_ID row \<and> RefreshToken_RevokedAt new = None \<and>
    RefreshToken_TokenHash new =
      RefreshTokenManager_Hash (env_sha256 (auth_lib s)) (AuthResponse_RefreshToken resp) \<and>
    RefreshToken_TokenHash new \<notin> set (map RefreshToken_TokenHash (refresh_tokens (db w))) \<and>
    AuthResponse_User resp = ToResponse row \<and>
    db w' = (db w)\<lparr>refresh_tokens :=
      update_where (unrevoked (RefreshToken_ID old)) (revoke t) (refresh_tokens (db w) @ [new])\<rparr>"
proof -
  let ?h = "RefreshTokenManager_Hash (env_sha256 (auth_lib s)) (RefreshRequest_RefreshToken req)"
  from assms(1) txf.run_Inr [of "refresh_tx s ?h stores" w resp w'] obtain c p w1 where
    1: "clock w \<le> c" "refresh_tx s ?h stores (started c p w) = (Inr resp, w1)" "db w' = db w1"
    by (auto simp: auth_Refresh_def Let_def factory)
  have "distinct (map RefreshToken_ID (refresh_tokens (db (started c p w))))"
    using assms(2) by (simp add: consistent_def schema_defs serial_ok_def)
  from refresh_tx_Inr [OF 1(2) this] obtain old new now row t where
    2: "old \<in> set (refresh_tokens (db w))" "RefreshToken_TokenHash old = ?h"
      "RefreshToken_IsActive old now" "c \<le> now" "row \<in> set (users (db w))"
      "User_ID row = RefreshToken_UserID old" "RefreshToken_UserID new = User_ID row"
      "RefreshToken_RevokedAt new = None" "RefreshToken_TokenHash new =
        RefreshTokenManager_Hash (env_sha256 (auth_lib s)) (AuthResponse_RefreshToken resp)"
      "RefreshToken_TokenHash new \<notin> set (map RefreshToken_TokenHash (refresh_tokens (db w)))"
      "AuthResponse_User resp = ToResponse row"
      "db w1 = (db w)\<lparr>refresh_tokens := update_where (unrevoked (RefreshToken_ID old)) (revoke t)
         (refresh_tokens (db w) @ [new])\<rparr>"
    unfolding started_simps by blast
  show ?thesis
    by (rule exI [of _ old], rule exI [of _ new], rule exI [of _ row], rule exI [of _ t], rule exI [of _ now])
      (use 1(1,3) 2 in simp)
qed

lemma Refresh_revoked:
  assumes "\<And>t. t \<in> set (refresh_tokens (db w)) \<Longrightarrow>
      RefreshToken_TokenHash t =
        RefreshTokenManager_Hash (env_sha256 (auth_lib s)) (RefreshRequest_RefreshToken req) \<Longrightarrow>
      RefreshToken_IsRevoked t"
  shows "auth_Refresh s req w \<noteq> (Inr resp, w')"
proof
  let ?h = "RefreshTokenManager_Hash (env_sha256 (auth_lib s)) (RefreshRequest_RefreshToken req)"
  assume "auth_Refresh s req w = (Inr resp, w')"
  with txf.run_Inr [of "refresh_tx s ?h stores" w resp w'] obtain c p w1 where
    "refresh_tx s ?h stores (started c p w) = (Inr resp, w1)"
    by (auto simp: auth_Refresh_def Let_def factory)
  with refresh_tx_revoked [of "started c p w" ?h resp w1] assms show False by auto
qed

lemma Logout_Inr:
  assumes "auth_Logout s req w = (Inr u, w')" and c: "consistent q w"
    and t: "t \<in> set (refresh_tokens (db w'))"
    and h: "RefreshToken_TokenHash t =
      RefreshTokenManager_Hash (env_sha256 (auth_lib s)) (LogoutRequest_RefreshToken req)"
  shows "RefreshToken_IsRevoked t"
proof -
  let ?h = "RefreshTokenManager_Hash (env_sha256 (auth_lib s)) (LogoutRequest_RefreshToken req)"
  have ids: "distinct (map RefreshToken_TokenHash (refresh_tokens (db w)))"
    "\<forall>x \<in> set (refresh_tokens (db w)). RefreshToken_ID x \<noteq> 0"
    using c by (auto simp: consistent_def schema_defs serial_ok_def list_all_iff)
  obtain r w1 where f: "RefreshTokenStore_FindRefreshTokenByHash T ?h w = (r, w1)"
    by (cases "RefreshTokenStore_FindRefreshTokenByHash T ?h w")
  have d: "db w1 = db w" by (rule frameD [OF tok.token_readers(1) f])
  show ?thesis
  proof (cases r)
    case (Inl e)
    with assms(1) f have "errors_Is e ErrRefreshTokenNotFound" "w' = w1"
      by (auto simp: auth_Logout_def Let_def wiring attempt_def split: if_splits)
    with tok.token_find_none [OF f [unfolded Inl]] ids(2) t h d show ?thesis by auto
  next
    case (Inr st)
    have st: "st \<in> set (refresh_tokens (db w))" "RefreshToken_TokenHash st = ?h"
      using tok.token_find_Inr [OF f [unfolded Inr]] by (auto dest: find_SomeD)
    show ?thesis
    proof (cases "RefreshToken_IsRevoked st")
      case True
      with assms(1) f Inr have "w' = w1" by (simp add: auth_Logout_def Let_def wiring attempt_def)
      with t d have "t \<in> set (refresh_tokens (db w))" by simp
      with ids(1) st h have "t = st" by (metis distinct_key_unique)
      with True show ?thesis by simp
    next
      case False
      with assms(1) f Inr have "RefreshTokenStore_RevokeRefreshToken T (RefreshToken_ID st) w1 = (Inr u, w')"
        by (auto simp: auth_Logout_def Let_def wiring attempt_def dest: mapErr_InrD)
      from tok.token_revoke [OF this] obtain now where
        "refresh_tokens (db w') = update_where (unrevoked (RefreshToken_ID st)) (revoke now) (refresh_tokens (db w))"
        unfolding d by auto
      with t obtain x where x: "x \<in> set (refresh_tokens (db w))"
        "t = (if unrevoked (RefreshToken_ID st) x then revoke now x else x)"
        by (auto dest: update_where_in)
      then have "RefreshToken_TokenHash x = ?h" using h by (auto simp: revoke_def split: if_splits)
      with ids(1) st x(1) have "x = st" by (metis distinct_key_unique)
      with x(2) False show ?thesis
        by (auto simp: unrevoked_def revoke_def RefreshToken_IsRevoked_def split: if_splits)
    qed
  qed
qed

lemma Login_Inr:
  assumes "auth_Login s req w = (Inr resp, w')"
  shows "\<exists>row. find (\<lambda>u. User_Email u =
        normalize_email (env_lower (auth_lib s)) (LoginRequest_Email req)) (users (db w)) = Some row \<and>
    PasswordHasher_Compare (env_bcrypt (auth_lib s)) (User_PasswordHash row) (LoginRequest_Password req) \<and>
    AuthResponse_User resp = ToResponse row \<and>
    (\<exists>t. RefreshToken_UserID t = User_ID row \<and> RefreshToken_RevokedAt t = None \<and>
      RefreshToken_TokenHash t =
        RefreshTokenManager_Hash (env_sha256 (auth_lib s)) (AuthResponse_RefreshToken resp) \<and>
      db w' = (db w)\<lparr>refresh_tokens := refresh_tokens (db w) @ [t]\<rparr>)"
proof -
  from assms obtain row w1 acc refr where
    1: "Repository_FindByEmail U (normalize_email (env_lower (auth_lib s)) (LoginRequest_Email req)) w = (Inr row, w1)"
    and 2: "PasswordHasher_Compare (env_bcrypt (auth_lib s)) (User_PasswordHash row) (LoginRequest_Password req)"
    and 3: "issueTokenPairWithStore s T row w1 = (Inr (acc, refr), w')"
    and 4: "resp = new_AuthResponse acc refr row"
    unfolding auth_Login_def Let_def wiring issueTokenPair_def
    by (auto elim!: attemptE andThen_InrE split: sum.splits if_splits)
  have d: "db w1 = db w" by (rule frameD [OF usr.readers(5) 1])
  from usr.find_by_email_Inr [OF 1] issue_Inr [OF 3] 2 4 show ?thesis
    unfolding d by (auto simp: new_AuthResponse_def)
qed

end

section \<open>The service as the application wires it\<close>

text \<open>\<open>initAuthModule\<close> of internal/app/app.go.\<close>

definition pg_auth ::
  "pg_locale \<Rightarrow> PasswordHasher \<Rightarrow> TokenManager \<Rightarrow> int \<Rightarrow> auth_env \<Rightarrow> auth_Service" where
  "pg_auth pg hasher tokens ttl env =
     auth_NewService (user_NewPostgresRepository pg) NewRefreshTokenRepository (auth_WithinTx pg)
       hasher tokens ttl env"

definition auth_run :: "'a prog \<Rightarrow> 'a prog" where
  "auth_run = run_tx (wrapf ''begin auth transaction'') (wrapf ''commit auth transaction'') (\<lambda>_ err. err)"

lemma auth_WithinTx_factory:
  "auth_WithinTx pg = auth_factory (user_NewPostgresRepository pg) NewRefreshTokenRepository
     outbox_NewPostgresRepository auth_run"
  by (simp add: fun_eq_iff auth_WithinTx_def auth_factory_def auth_run_def Let_def)

interpretation auth_tx: tx_factory "auth_run :: 'a prog \<Rightarrow> 'a prog" auth_commit_error
  unfolding auth_run_def by (rule run_tx_factory) (simp_all add: wrapf_def)

interpretation pgauth: auth_deps "user_NewPostgresRepository pg" NewRefreshTokenRepository
    outbox_NewPostgresRepository auth_run auth_commit_error "pg_auth pg hasher tokens ttl env"
  by unfold_locales (simp_all add: pg_auth_def auth_NewService_def auth_WithinTx_factory)

lemma pg_auth_simps [simp]:
  "auth_lib (pg_auth pg hasher tokens ttl env) = env"
  "auth_hasher (pg_auth pg hasher tokens ttl env) = hasher"
  "auth_tokens (pg_auth pg hasher tokens ttl env) = tokens"
  "auth_refreshTokenTTL (pg_auth pg hasher tokens ttl env) = ttl"
  "auth_userRepo (pg_auth pg hasher tokens ttl env) = user_NewPostgresRepository pg"
  "auth_refreshRepo (pg_auth pg hasher tokens ttl env) = NewRefreshTokenRepository"
  "auth_txFactory (pg_auth pg hasher tokens ttl env) = auth_WithinTx pg"
  by (simp_all add: pg_auth_def auth_NewService_def)

section \<open>Properties\<close>

text \<open>
  What a registration does to the tables: one user with the trimmed name and the normalized
  email, role USER and a bcrypt hash of the password, one unrevoked refresh token of that user
  whose hash is that of the token in the response, and one NEW outbox event that announces the
  user; no other row changes.
\<close>

definition registration ::
  "auth_env \<Rightarrow> PasswordHasher \<Rightarrow> RegisterRequest \<Rightarrow> tables \<Rightarrow> tables \<Rightarrow> AuthResponse \<Rightarrow> bool" where
  "registration env hasher req d d' resp \<longleftrightarrow>
     (\<exists>row t ev. d' = d\<lparr>users := users d @ [row], refresh_tokens := refresh_tokens d @ [t],
        outbox_events := outbox_events d @ [ev]\<rparr> \<and>
      User_Name row = TrimSpace (RegisterRequest_Name req) \<and>
      User_Email row = normalize_email (env_lower env) (RegisterRequest_Email req) \<and>
      User_Email row \<notin> set (map User_Email (users d)) \<and>
      User_Age row = RegisterRequest_Age req \<and> User_Role row = RoleUser \<and>
      (\<exists>salt. bcrypt_GenerateFromPassword (env_bcrypt env) salt (RegisterRequest_Password req)
         (PasswordHasher_cost hasher) = Inr (User_PasswordHash row)) \<and>
      RefreshToken_UserID t = User_ID row \<and> RefreshToken_RevokedAt t = None \<and>
      RefreshToken_TokenHash t = RefreshTokenManager_Hash (env_sha256 env) (AuthResponse_RefreshToken resp) \<and>
      OutboxEvent_Status ev = StatusNew \<and> OutboxEvent_EventType ev = EventTypeUserRegistered \<and>
      OutboxEvent_AggregateType ev = AggregateUser \<and> OutboxEvent_AggregateID ev = FormatInt (User_ID row) \<and>
      env_marshal env \<lparr>UserRegistered_UserId = User_ID row, UserRegistered_Email = User_Email row,
        UserRegistered_Role = RoleUser\<rparr> = Inr (OutboxEvent_Payload ev) \<and>
      AuthResponse_User resp = ToResponse row \<and> AuthResponse_TokenType resp = ''Bearer'')"

lemma register_outcome:
  assumes "auth_Register (pg_auth pg hasher tokens ttl env) req w = (r, w')"
  shows "(db w' = db w \<and> (\<exists>e. r = Inl e)) \<or>
    (\<exists>resp. registration env hasher req (db w) (db w') resp \<and>
       (r = Inr resp \<or> (\<exists>e. r = Inl e \<and> auth_commit_error e)))"
  using assms
proof (cases rule: pgauth.Register_cases)
  case (nothing e)
  then show ?thesis by blast
next
  case (registered h w0 c p a w1)
  have "registration env hasher req (db w) (db w') a"
    using pgauth.register_tx_Inr [OF registered(2)] Hash_generated [OF registered(1)]
    unfolding registration_def started_simps pg_auth_simps registered(3,5)
    apply (elim exE)
    subgoal for row salt t ev
      by (rule exI [of _ row], rule exI [of _ t], rule exI [of _ ev]) auto
    done
  with registered(6) show ?thesis by blast
qed

text \<open>
  C5: Registration is atomic. Whatever fails and whenever, \<open>Register\<close> either did nothing to
  the tables and returned an error, or did the whole registration; it then returned the response,
  unless the failure was that of the commit itself.
\<close>

theorem register_all_or_nothing:
  assumes "auth_Register (pg_auth pg hasher tokens ttl env) req w = (r, w')"
  shows "(db w' = db w \<and> (\<exists>e. r = Inl e)) \<or>
    (\<exists>resp. registration env hasher req (db w) (db w') resp \<and>
       (r = Inr resp \<or> (\<exists>e. r = Inl e \<and> auth_commit_error e)))"
  by (rule register_outcome [OF assms])

text \<open>
  C12: The password decides the login. \<open>Login\<close> succeeds only for a row with the normalized email
  whose stored hash matches the password; the response is that user's, and the only change is one
  new refresh token, unrevoked, whose hash is that of the token in the response.
\<close>

theorem login_sound:
  assumes "auth_Login (pg_auth pg hasher tokens ttl env) req w = (Inr resp, w')"
  shows "\<exists>row t. row \<in> set (users (db w)) \<and>
    User_Email row = normalize_email (env_lower env) (LoginRequest_Email req) \<and>
    PasswordHasher_Compare (env_bcrypt env) (User_PasswordHash row) (LoginRequest_Password req) \<and>
    AuthResponse_User resp = ToResponse row \<and>
    RefreshToken_UserID t = User_ID row \<and> RefreshToken_RevokedAt t = None \<and>
    RefreshToken_TokenHash t = RefreshTokenManager_Hash (env_sha256 env) (AuthResponse_RefreshToken resp) \<and>
    db w' = (db w)\<lparr>refresh_tokens := refresh_tokens (db w) @ [t]\<rparr>"
  using pgauth.Login_Inr [OF assms] unfolding pg_auth_simps by (auto dest!: find_SomeD)

text \<open>
  C31: A login does not tell an unknown email from a wrong password: with the services answering,
  both give the same error and leave the same state.
\<close>

theorem login_failure_uniform:
  assumes "plan w = []"
    and "pg_text (normalize_email (env_lower env) (LoginRequest_Email req))"
    and "\<And>u. u \<in> set (users (db w)) \<Longrightarrow>
      User_Email u = normalize_email (env_lower env) (LoginRequest_Email req) \<Longrightarrow>
      \<not> PasswordHasher_Compare (env_bcrypt env) (User_PasswordHash u) (LoginRequest_Password req)"
  shows "auth_Login (pg_auth pg hasher tokens ttl env) req w = (Inl NewInvalidCredentialsError, w)"
proof -
  let ?m = "normalize_email (env_lower env) (LoginRequest_Email req)"
  show ?thesis
  proof (cases "find (\<lambda>u. User_Email u = ?m) (users (db w))")
    case None
    with assms(1,2) show ?thesis
      by (simp add: auth_Login_def Let_def attempt_def user_NewPostgresRepository_def
          user_PostgresRepository_FindByEmail_def mapErr_def sql_empty select_user_def throw_def)
  next
    case (Some u)
    with assms(3) [of u] have
      "\<not> PasswordHasher_Compare (env_bcrypt env) (User_PasswordHash u) (LoginRequest_Password req)"
      by (auto dest: find_SomeD)
    with Some assms(1,2) show ?thesis
      by (simp add: auth_Login_def Let_def attempt_def user_NewPostgresRepository_def
          user_PostgresRepository_FindByEmail_def mapErr_def sql_empty select_user_def throw_def)
  qed
qed


text \<open>
  C6: Refresh rotates. A successful \<open>Refresh\<close> was given a token whose row was active, answers
  for the user of that row, and its only change is one new unrevoked token of that user while the
  old row is revoked; and the old token is never accepted again in the state it leaves, whatever
  the services do.
\<close>

theorem refresh_rotates:
  assumes "consistent q w" and "auth_Refresh (pg_auth pg hasher tokens ttl env) req w = (Inr resp, w')"
  shows "(\<exists>old new row t now. old \<in> set (refresh_tokens (db w)) \<and>
      RefreshToken_TokenHash old = RefreshTokenManager_Hash (env_sha256 env) (RefreshRequest_RefreshToken req) \<and>
      RefreshToken_IsActive old now \<and> clock w \<le> now \<and>
      row \<in> set (users (db w)) \<and> User_ID row = RefreshToken_UserID old \<and>
      AuthResponse_User resp = ToResponse row \<and>
      RefreshToken_UserID new = User_ID row \<and> RefreshToken_RevokedAt new = None \<and>
      RefreshToken_TokenHash new = RefreshTokenManager_Hash (env_sha256 env) (AuthResponse_RefreshToken resp) \<and>
      db w' = (db w)\<lparr>refresh_tokens := update_where (unrevoked (RefreshToken_ID old)) (revoke t)
        (refresh_tokens (db w) @ [new])\<rparr>) \<and>
    auth_Refresh (pg_auth pg hasher tokens ttl env) req (w'\<lparr>clock := c, plan := p, entropy := e\<rparr>)
      \<noteq> (Inr resp', w'')"
proof
  let ?h = "RefreshTokenManager_Hash (env_sha256 env) (RefreshRequest_RefreshToken req)"
  from pgauth.Refresh_Inr [OF assms(2,1)] obtain old new row t now where
    1: "old \<in> set (refresh_tokens (db w))" "RefreshToken_TokenHash old = ?h"
      "RefreshToken_IsActive old now" "clock w \<le> now" "row \<in> set (users (db w))"
      "User_ID row = RefreshToken_UserID old" "RefreshToken_UserID new = User_ID row"
      "RefreshToken_RevokedAt new = None" "RefreshToken_TokenHash new =
        RefreshTokenManager_Hash (env_sha256 env) (AuthResponse_RefreshToken resp)"
      "RefreshToken_TokenHash new \<notin> set (map RefreshToken_TokenHash (refresh_tokens (db w)))"
      "AuthResponse_User resp = ToResponse row"
      "db w' = (db w)\<lparr>refresh_tokens := update_where (unrevoked (RefreshToken_ID old)) (revoke t)
         (refresh_tokens (db w) @ [new])\<rparr>"
    unfolding pg_auth_simps by blast
  show "\<exists>old new row t now. old \<in> set (refresh_tokens (db w)) \<and>
      RefreshToken_TokenHash old = ?h \<and>
      RefreshToken_IsActive old now \<and> clock w \<le> now \<and>
      row \<in> set (users (db w)) \<and> User_ID row = RefreshToken_UserID old \<and>
      AuthResponse_User resp = ToResponse row \<and>
      RefreshToken_UserID new = User_ID row \<and> RefreshToken_RevokedAt new = None \<and>
      RefreshToken_TokenHash new = RefreshTokenManager_Hash (env_sha256 env) (AuthResponse_RefreshToken resp) \<and>
      db w' = (db w)\<lparr>refresh_tokens := update_where (unrevoked (RefreshToken_ID old)) (revoke t)
        (refresh_tokens (db w) @ [new])\<rparr>"
    by (rule exI [of _ old], rule exI [of _ new], rule exI [of _ row], rule exI [of _ t], rule exI [of _ now])
      (use 1 in simp)
  have d: "distinct (map RefreshToken_TokenHash (refresh_tokens (db w)))"
    using assms(1) by (simp add: consistent_def schema_defs)
  show "auth_Refresh (pg_auth pg hasher tokens ttl env) req (w'\<lparr>clock := c, plan := p, entropy := e\<rparr>)
      \<noteq> (Inr resp', w'')"
  proof (rule pgauth.Refresh_revoked, unfold pg_auth_simps)
    fix x assume "x \<in> set (refresh_tokens (db (w'\<lparr>clock := c, plan := p, entropy := e\<rparr>)))"
      and hx: "RefreshToken_TokenHash x = ?h"
    then have "x \<in> set (update_where (unrevoked (RefreshToken_ID old)) (revoke t) (refresh_tokens (db w) @ [new]))"
      by (simp add: 1(12))
    from update_where_in [OF this] obtain y where y: "y \<in> set (refresh_tokens (db w)) \<or> y = new"
      "x = (if unrevoked (RefreshToken_ID old) y then revoke t y else y)" by auto
    then have hy: "RefreshToken_TokenHash y = ?h" using hx by (auto simp: revoke_def split: if_splits)
    have "y \<in> set (refresh_tokens (db w))" using y(1) hy 1(1,2,10) by (metis image_eqI list.set_map)
    with d 1(1,2) hy have "y = old" by (metis distinct_key_unique)
    moreover have "unrevoked (RefreshToken_ID old) old" using 1(3)
      by (simp add: unrevoked_def RefreshToken_IsActive_def RefreshToken_IsRevoked_def)
    ultimately show "RefreshToken_IsRevoked x" using y(2)
      by (simp add: revoke_def RefreshToken_IsRevoked_def)
  qed
qed

text \<open>
  C22: A refresh that fails, unless at its commit, changes no table.
\<close>

theorem refresh_atomic:
  assumes "auth_Refresh (pg_auth pg hasher tokens ttl env) req w = (Inl e, w')"
    and "\<not> auth_commit_error e"
  shows "db w' = db w"
  using assms unfolding auth_Refresh_def Let_def pgauth.factory
  by (intro auth_tx.atomic [OF db_only_frames(1) [OF pgauth.refresh_tx_only(1)]])

text \<open>
  C13: Logout is final. After a successful \<open>Logout\<close> no refresh with that token succeeds, at any
  time and whatever the services do.
\<close>

theorem logout_final:
  assumes "consistent q w" and "auth_Logout (pg_auth pg hasher tokens ttl env) \<lparr>LogoutRequest_RefreshToken = tok\<rparr> w = (Inr (), w')"
  shows "auth_Refresh (pg_auth pg hasher tokens ttl env) \<lparr>RefreshRequest_RefreshToken = tok\<rparr>
     (w'\<lparr>clock := c, plan := p, entropy := e\<rparr>) \<noteq> (Inr resp, w'')"
  by (rule pgauth.Refresh_revoked) (use pgauth.Logout_Inr [OF assms(2,1)] in simp)

section \<open>A run without failures\<close>

lemma ExistsByEmail_ok:
  "plan w = [] \<Longrightarrow> pg_text m \<Longrightarrow> Repository_ExistsByEmail (user_NewPostgresRepository pg) m w =
     (Inr (list_ex (\<lambda>u. User_Email u = m) (users (db w))), w)"
  by (simp add: user_NewPostgresRepository_def user_PostgresRepository_ExistsByEmail_def mapErr_def
      sql_empty select_exists_email_def)

lemma Create_ok:
  assumes "plan w = []" "list_all pg_text [User_Name u, User_Email u, User_PasswordHash u]"
    and "Role_IsValid (User_Role u)" "User_Email u \<notin> set (map User_Email (users (db w)))"
  shows "Repository_Create (user_NewPostgresRepository pg) u w =
    (Inr (scan_user (user_row (users_id_seq (seqs w) + 1) u (pg_now w))),
     w\<lparr>seqs := (seqs w)\<lparr>users_id_seq := users_id_seq (seqs w) + 1\<rparr>,
       db := (db w)\<lparr>users := users (db w) @ [user_row (users_id_seq (seqs w) + 1) u (pg_now w)]\<rparr>\<rparr>)"
proof -
  have r: "User_Role u \<noteq> ''''" "pg_text (User_Role u)"
    using assms(3) by (auto simp: Role_IsValid_def RoleUser_def RoleAdmin_def pg_text_def utf8_valid_ascii
        is_ascii_def)
  show ?thesis using assms r
    by (simp add: user_NewPostgresRepository_def user_PostgresRepository_Create_def mapErr_def Let_def
        andThen_def sql_empty insert_users_def user_row_def ret_def)
qed

lemma CreateRefreshToken_ok:
  assumes "plan w = []" "pg_text (RefreshToken_TokenHash t)"
    and "RefreshToken_TokenHash t \<notin> set (map RefreshToken_TokenHash (refresh_tokens (db w)))"
    and "RefreshToken_UserID t \<in> set (map User_ID (users (db w)))"
  shows "RefreshTokenStore_CreateRefreshToken NewRefreshTokenRepository t w =
    (Inr (token_row (refresh_tokens_id_seq (seqs w) + 1) t (pg_now w)),
     w\<lparr>seqs := (seqs w)\<lparr>refresh_tokens_id_seq := refresh_tokens_id_seq (seqs w) + 1\<rparr>,
       db := (db w)\<lparr>refresh_tokens := refresh_tokens (db w) @
         [token_row (refresh_tokens_id_seq (seqs w) + 1) t (pg_now w)]\<rparr>\<rparr>)"
  using assms
  by (simp add: NewRefreshTokenRepository_def RefreshTokenRepository_CreateRefreshToken_def mapErr_def
      sql_empty insert_refresh_tokens_def Let_def)

lemma outbox_Create_ok:
  assumes "plan w = []" "list_all pg_text [OutboxEvent_EventType e, OutboxEvent_AggregateType e,
      OutboxEvent_AggregateID e, OutboxEvent_ContentType e, OutboxEvent_ProtoMessage e, OutboxEvent_EventVersion e]"
    and "OutboxEvent_ContentType e = ContentTypeProtobuf" "OutboxEvent_ProtoMessage e \<noteq> ''''"
  shows "\<exists>c w'. Store_Create outbox_NewPostgresRepository e w = (Inr c, w') \<and> plan w' = []"
  using assms
  by (simp add: outbox_NewPostgresRepository_def outbox_PostgresRepository_Create_def mapErr_def
      sql_empty insert_outbox_events_def Let_def)

lemma pg_text_ascii: "list_all is_ascii s \<Longrightarrow> CHR 0x00 \<notin> set s \<Longrightarrow> pg_text s"
  by (simp add: pg_text_def utf8_valid_ascii)

lemma pg_text_FormatInt [simp]: "pg_text (FormatInt n)"
proof (rule pg_text_ascii [OF ascii_FormatInt])
  have "list_all is_digit (show_nat k)" for k using show_nat_digits by blast
  moreover have "\<not> is_digit (CHR 0x00)" by (simp add: is_digit_def)
  ultimately have "CHR 0x00 \<notin> set (show_nat k)" for k by (metis list_all_iff)
  then show "CHR 0x00 \<notin> set (FormatInt n)" by (simp add: FormatInt_def)
qed

lemma pg_text_hex [simp]: "pg_text (hex_EncodeToString bs)"
proof (rule pg_text_ascii)
  have "is_ascii (hex_char n) \<and> CHR 0x00 \<noteq> hex_char n" for n
  proof -
    have "hex_char n \<in> set ''0123456789abcdef''" unfolding hex_char_def by (rule nth_mem) simp
    then show ?thesis by (auto simp: is_ascii_def)
  qed
  then show "list_all is_ascii (hex_EncodeToString bs)" "CHR 0x00 \<notin> set (hex_EncodeToString bs)"
    by (auto simp: hex_EncodeToString_def list_all_iff)
qed

lemma event_texts:
  "pg_text EventTypeUserRegistered" "pg_text AggregateUser" "pg_text ContentTypeProtobuf"
  "pg_text ProtoMessageUserRegistered" "pg_text EventVersionV1" "ProtoMessageUserRegistered \<noteq> []"
  by (simp_all add: pg_text_ascii is_ascii_def EventTypeUserRegistered_def AggregateUser_def
      ContentTypeProtobuf_def ProtoMessageUserRegistered_def EventVersionV1_def)

lemma issue_ok:
  assumes "plan w = []" "entropy w = Inr raw # rest"
    and "jwt_SignedString (env_jwt (auth_lib s)) SigningMethodHS256
      (token_claims (env_jwt (auth_lib s)) (auth_tokens s) (User_ID u) (User_Email u) (User_Role u) (clock w))
      (TokenManager_secret (auth_tokens s)) = Inr acc"
    and "RefreshTokenManager_Hash (env_sha256 (auth_lib s))
      (RawURLEncoding (take 32 (raw @ replicate 32 (CHR 0x00))))
        \<notin> set (map RefreshToken_TokenHash (refresh_tokens (db w)))"
    and "User_ID u \<in> set (map User_ID (users (db w)))"
  shows "\<exists>refr w'. issueTokenPairWithStore s NewRefreshTokenRepository u w = (Inr (acc, refr), w') \<and> plan w' = []"
proof -
  let ?tok = "RawURLEncoding (take 32 (raw @ replicate 32 (CHR 0x00)))"
  let ?h = "RefreshTokenManager_Hash (env_sha256 (auth_lib s)) ?tok"
  have 1: "TokenManager_Generate (env_jwt (auth_lib s)) (auth_tokens s) (User_ID u) (User_Email u) (User_Role u) w
      = (Inr acc, w)"
    using assms(3) by (simp add: TokenManager_Generate_def Let_def)
  have 2: "RefreshTokenManager_Generate (env_sha256 (auth_lib s)) w = (Inr (?tok, ?h), w\<lparr>entropy := rest\<rparr>)"
    using assms(2) by (simp add: RefreshTokenManager_Generate_def Let_def andThen_def mapErr_def rand_Read_def
        ret_def)
  have "pg_text ?h" by (simp add: RefreshTokenManager_Hash_def Let_def)
  with assms(1,4,5) show ?thesis
    by (simp add: issueTokenPairWithStore_def andThen_def 1 2 CreateRefreshToken_ok zero_RefreshToken_def
        ret_def)
qed

lemma auth_run_ok:
  "plan w = [] \<Longrightarrow> body (started (clock w) [] w) = (Inr a, w1) \<Longrightarrow> plan w1 = [] \<Longrightarrow>
     \<exists>w'. auth_run body w = (Inr a, w')"
  using auth_tx.run_ok [of w body a] by auto

lemma register_ok:
  assumes "plan w = []" and "entropy w = Inr salt # Inr raw # rest"
    and hash: "bcrypt_GenerateFromPassword (env_bcrypt env) (take 16 (salt @ replicate 16 (CHR 0x00)))
      (RegisterRequest_Password req) (PasswordHasher_cost hasher) = Inr h"
    and texts: "list_all pg_text [TrimSpace (RegisterRequest_Name req),
      normalize_email (env_lower env) (RegisterRequest_Email req), h]"
    and free: "normalize_email (env_lower env) (RegisterRequest_Email req) \<notin> set (map User_Email (users (db w)))"
    and jwt: "jwt_SignedString (env_jwt env) SigningMethodHS256
      (token_claims (env_jwt env) tokens (users_id_seq (seqs w) + 1) (normalize_email (env_lower env) (RegisterRequest_Email req)) RoleUser (clock w))
      (TokenManager_secret tokens) = Inr acc"
    and fresh: "RefreshTokenManager_Hash (env_sha256 env) (RawURLEncoding (take 32 (raw @ replicate 32 (CHR 0x00))))
        \<notin> set (map RefreshToken_TokenHash (refresh_tokens (db w)))"
    and marshal: "\<And>u. \<exists>payload. env_marshal env u = Inr payload"
  shows "\<exists>resp w'. auth_Register (pg_auth pg hasher tokens ttl env) req w = (Inr resp, w')"
proof -
  let ?s = "pg_auth pg hasher tokens ttl env"
  let ?name = "TrimSpace (RegisterRequest_Name req)"
  let ?m = "normalize_email (env_lower env) (RegisterRequest_Email req)"
  let ?u = "zero_User\<lparr>User_Name := ?name, User_Email := ?m, User_Age := RegisterRequest_Age req,
     User_PasswordHash := h, User_Role := RoleUser\<rparr>"
  let ?w0 = "w\<lparr>entropy := Inr raw # rest\<rparr>" and ?i = "users_id_seq (seqs w) + 1"
  let ?w1 = "started (clock ?w0) [] ?w0"
  let ?row = "user_row ?i ?u (pg_now ?w1)"
  let ?w2 = "?w1\<lparr>seqs := (seqs w)\<lparr>users_id_seq := ?i\<rparr>, db := (db w)\<lparr>users := users (db w) @ [?row]\<rparr>\<rparr>"
  have H: "PasswordHasher_Hash (env_bcrypt env) hasher (RegisterRequest_Password req) w = (Inr h, ?w0)"
    using assms(2) hash by (simp add: PasswordHasher_Hash_def mapErr_def andThen_def rand_Read_def ret_def)
  have E: "Repository_ExistsByEmail (user_NewPostgresRepository pg) ?m ?w1 = (Inr False, ?w1)"
    using texts free by (subst ExistsByEmail_ok) (auto simp: list_ex_iff image_iff)
  have C: "Repository_Create (user_NewPostgresRepository pg) ?u ?w1 = (Inr (scan_user ?row), ?w2)"
    using texts free by (subst Create_ok) (auto simp: zero_User_def Role_IsValid_def)
  from jwt obtain refr w3 where I: "issueTokenPairWithStore ?s NewRefreshTokenRepository (scan_user ?row) ?w2 =
      (Inr (acc, refr), w3)" "plan w3 = []"
    using issue_ok [of ?w2 raw rest ?s "scan_user ?row" acc] fresh
    by (auto simp: scan_user_def user_row_def RoleUser_def)
  obtain pl where M: "MarshalUserRegistered (env_marshal env) ?i ?m RoleUser = Inr pl"
    using marshal [of "\<lparr>UserRegistered_UserId = ?i, UserRegistered_Email = ?m, UserRegistered_Role = RoleUser\<rparr>"]
    by (auto simp: MarshalUserRegistered_def)
  obtain c w4 where O: "Store_Create outbox_NewPostgresRepository
      (new_OutboxEvent EventTypeUserRegistered AggregateUser (FormatInt ?i) pl ContentTypeProtobuf
         ProtoMessageUserRegistered EventVersionV1) w3 = (Inr c, w4)" "plan w4 = []"
    using outbox_Create_ok [OF I(2), of "new_OutboxEvent EventTypeUserRegistered AggregateUser (FormatInt ?i) pl
        ContentTypeProtobuf ProtoMessageUserRegistered EventVersionV1"]
    by (auto simp: new_OutboxEvent_def event_texts)
  have row: "User_ID (scan_user ?row) = ?i" "User_Email (scan_user ?row) = ?m" "User_Role (scan_user ?row) = RoleUser"
    by (simp_all add: scan_user_def user_row_def RoleUser_def)
  have "register_tx ?s ?name ?m (RegisterRequest_Age req) h (pgauth.stores pg) ?w1 =
      (Inr (new_AuthResponse acc refr (scan_user ?row)), w4)"
    using E C I(1) M O(1) row
    by (simp add: register_tx_def andThen_def mapErr_def ret_def)
  from auth_run_ok [where w = ?w0 and body = "register_tx ?s ?name ?m (RegisterRequest_Age req) h (pgauth.stores pg)",
      OF _ this O(2)] assms(1)
  obtain w' where "auth_run (register_tx ?s ?name ?m (RegisterRequest_Age req) h (pgauth.stores pg)) ?w0 =
      (Inr (new_AuthResponse acc refr (scan_user ?row)), w')" by auto
  then show ?thesis
    using H by (auto simp: auth_Register_def Let_def andThen_def auth_WithinTx_factory auth_factory_def)
qed


lemma refresh_ok:
  assumes "plan w = []" and "entropy w = Inr raw # rest"
    and t: "find (\<lambda>t. RefreshToken_TokenHash t = RefreshTokenManager_Hash (env_sha256 env) tok)
      (refresh_tokens (db w)) = Some t" "RefreshToken_ID t \<noteq> 0" "RefreshToken_IsActive t (clock w)"
    and u: "find (\<lambda>u. User_ID u = RefreshToken_UserID t) (users (db w)) = Some u"
    and jwt: "jwt_SignedString (env_jwt env) SigningMethodHS256
      (token_claims (env_jwt env) tokens (User_ID u) (User_Email u) (User_Role u) (clock w))
      (TokenManager_secret tokens) = Inr acc"
    and fresh: "RefreshTokenManager_Hash (env_sha256 env) (RawURLEncoding (take 32 (raw @ replicate 32 (CHR 0x00))))
        \<notin> set (map RefreshToken_TokenHash (refresh_tokens (db w)))"
  shows "\<exists>resp w'. auth_Refresh (pg_auth pg hasher tokens ttl env) \<lparr>RefreshRequest_RefreshToken = tok\<rparr> w =
    (Inr resp, w') \<and> AuthResponse_AccessToken resp = acc"
proof -
  let ?s = "pg_auth pg hasher tokens ttl env"
  let ?h = "RefreshTokenManager_Hash (env_sha256 env) tok"
  let ?w1 = "started (clock w) [] w"
  have "pg_text ?h" by (simp add: RefreshTokenManager_Hash_def Let_def)
  then have F: "RefreshTokenStore_FindRefreshTokenByHash NewRefreshTokenRepository ?h ?w1 = (Inr t, ?w1)"
    using t by (simp add: NewRefreshTokenRepository_def RefreshTokenRepository_FindRefreshTokenByHash_def
        mapErr_def andThen_def sql_empty select_refresh_token_def ret_def)
  have U: "Repository_FindByID (user_NewPostgresRepository pg) (RefreshToken_UserID t) ?w1 = (Inr (scan_user u), ?w1)"
    using u by (simp add: user_NewPostgresRepository_def user_PostgresRepository_FindByID_def mapErr_def
        andThen_def sql_empty select_user_def ret_def)
  have uid: "User_ID (scan_user u) \<in> set (map User_ID (users (db ?w1)))"
    using u by (auto simp: scan_user_def dest: find_SomeD)
  obtain refr w2 where I: "issueTokenPairWithStore ?s NewRefreshTokenRepository (scan_user u) ?w1 =
      (Inr (acc, refr), w2)" "plan w2 = []"
    using issue_ok [of ?w1 raw rest ?s "scan_user u" acc] fresh jwt assms(2) uid
    by (auto simp: scan_user_def)
  have "t \<in> set (refresh_tokens (db w))" using t(1) by (auto dest: find_SomeD)
  then have "t \<in> set (refresh_tokens (db w2))"
    using pgauth.issue_Inr [of pg hasher tokens ttl env "scan_user u" ?w1 acc refr w2] I(1) by auto
  then have "filter (unrevoked (RefreshToken_ID t)) (refresh_tokens (db w2)) \<noteq> []"
    using t(3) by (auto simp: filter_empty_conv unrevoked_def RefreshToken_IsActive_def RefreshToken_IsRevoked_def)
  with I(2) obtain w3 where R: "RefreshTokenStore_RevokeRefreshToken NewRefreshTokenRepository
      (RefreshToken_ID t) w2 = (Inr (), w3)" "plan w3 = []"
    by (simp add: NewRefreshTokenRepository_def RefreshTokenRepository_RevokeRefreshToken_def andThen_def
        mapErr_def sql_empty revoke_refresh_token_def ret_def)
  have b: "refresh_tx ?s ?h (pgauth.stores pg) ?w1 = (Inr (new_AuthResponse acc refr (scan_user u)), w3)"
    using F U I(1) R(1) t(3) by (simp add: refresh_tx_def andThen_def mapErr_def ret_def)
  from auth_run_ok [where w = w and body = "refresh_tx ?s ?h (pgauth.stores pg)", OF assms(1) b R(2)]
  show ?thesis
    by (auto simp: auth_Refresh_def Let_def auth_WithinTx_factory auth_factory_def new_AuthResponse_def)
qed

text \<open>
  C32: A refresh with an active token succeeds when the services answer: the token is known, not
  revoked and not expired, its user exists, the random source gives a fresh token and the access
  token can be signed.
\<close>

theorem refresh_succeeds:
  assumes "plan w = []" and "entropy w = Inr raw # rest"
    and t: "find (\<lambda>t. RefreshToken_TokenHash t = RefreshTokenManager_Hash (env_sha256 env) tok)
      (refresh_tokens (db w)) = Some t" "RefreshToken_ID t \<noteq> 0" "RefreshToken_IsActive t (clock w)"
    and u: "find (\<lambda>u. User_ID u = RefreshToken_UserID t) (users (db w)) = Some u"
    and jwt: "jwt_SignedString (env_jwt env) SigningMethodHS256
      (token_claims (env_jwt env) tokens (User_ID u) (User_Email u) (User_Role u) (clock w))
      (TokenManager_secret tokens) = Inr acc"
    and fresh: "RefreshTokenManager_Hash (env_sha256 env) (RawURLEncoding (take 32 (raw @ replicate 32 (CHR 0x00))))
        \<notin> set (map RefreshToken_TokenHash (refresh_tokens (db w)))"
  shows "\<exists>resp w'. auth_Refresh (pg_auth pg hasher tokens ttl env) \<lparr>RefreshRequest_RefreshToken = tok\<rparr> w =
    (Inr resp, w') \<and> AuthResponse_AccessToken resp = acc"
  by (rule refresh_ok [OF assms])

section \<open>The properties at a concrete input\<close>

definition sample_auth_claims :: Claims where
  "sample_auth_claims = \<lparr>Claims_UserID = 1, Claims_Email = ''a@b.c'', Claims_Role = ''USER'',
     Claims_Issuer = ''identity'', Claims_Subject = FormatInt 1, Claims_IssuedAt = Some 0,
     Claims_ExpiresAt = Some 900\<rparr>"

definition sample_env :: auth_env where
  "sample_env = \<lparr>env_lower = (\<lambda>t. t), env_bcrypt = sample_bcrypt, env_jwt = sample_jwt sample_auth_claims,
     env_sha256 = (\<lambda>t. t), env_marshal = (\<lambda>_. Inr ''payload'')\<rparr>"

definition sample_pg :: pg_locale where
  "sample_pg = \<lparr>pg_ilike = (\<lambda>_ _. True), pg_collate = (\<lambda>_. 0)\<rparr>"

abbreviation sample_auth :: auth_Service where
  "sample_auth \<equiv> pg_auth sample_pg NewPasswordHasher sample_manager 1000 sample_env"

definition sample_register :: RegisterRequest where
  "sample_register = \<lparr>RegisterRequest_Name = '' Ann '', RegisterRequest_Email = ''A@b.C '',
     RegisterRequest_Age = 30, RegisterRequest_Password = ''password1''\<rparr>"

definition sample_start :: world where
  "sample_start = empty_world\<lparr>entropy := [Inr ''salt'', Inr ''random'']\<rparr>"

lemma sample_texts:
  "TrimSpace (RegisterRequest_Name sample_register) = ''Ann''"
  "normalize_email (env_lower sample_env) (RegisterRequest_Email sample_register) = ''a@b.c''"
  by (code_simp, code_simp)

lemma sample_env_simps [simp]:
  "env_lower sample_env = (\<lambda>t. t)" "env_bcrypt sample_env = sample_bcrypt"
  "env_jwt sample_env = sample_jwt sample_auth_claims" "env_sha256 sample_env = (\<lambda>t. t)"
  "env_marshal sample_env = (\<lambda>_. Inr ''payload'')"
  by (simp_all add: sample_env_def)

lemma pg_text_samples: "pg_text ''Ann''" "pg_text ''a@b.c''" "pg_text ''$2a$password1''"
  by (simp_all add: pg_text_ascii is_ascii_def)

lemma sample_signs:
  "jwt_SignedString (sample_jwt sample_auth_claims) SigningMethodHS256
     (token_claims (sample_jwt sample_auth_claims) sample_manager 1 ''a@b.c'' RoleUser 0)
     (TokenManager_secret sample_manager) = Inr ''header.claims.mac''"
  by (simp add: sample_jwt_def token_claims_def sample_auth_claims_def sample_manager_def
      NewTokenManager_def RoleUser_def)


text \<open>A state with one registered user who holds one active refresh token.\<close>

definition sample_user :: User where
  "sample_user = \<lparr>User_ID = 1, User_Name = ''Ann'', User_Email = ''a@b.c'', User_Age = 30,
     User_Role = RoleUser, User_PasswordHash = ''$2a$password1'', User_CreatedAt = 0, User_UpdatedAt = 0\<rparr>"

definition sample_token :: RefreshToken where
  "sample_token = \<lparr>RefreshToken_ID = 1, RefreshToken_UserID = 1,
     RefreshToken_TokenHash = RefreshTokenManager_Hash (\<lambda>t. t) ''tok'',
     RefreshToken_ExpiresAt = 1000, RefreshToken_RevokedAt = None, RefreshToken_CreatedAt = 0\<rparr>"

definition sample_member :: world where
  "sample_member = empty_world\<lparr>entropy := [Inr ''random''],
     db := empty_tables\<lparr>users := [sample_user], refresh_tokens := [sample_token]\<rparr>,
     seqs := (seqs empty_world)\<lparr>users_id_seq := 1, refresh_tokens_id_seq := 1\<rparr>\<rparr>"

lemma sample_member_consistent: "consistent (seqs sample_member) sample_member"
  by (rule schema_consistent)
    (simp add: sample_member_def empty_world_def empty_tables_def schema_defs serial_ok_def sample_user_def
      sample_token_def Role_IsValid_def)

lemma sample_member_simps [simp]:
  "plan sample_member = []" "clock sample_member = 0" "entropy sample_member = [Inr ''random'']"
  "users (db sample_member) = [sample_user]" "refresh_tokens (db sample_member) = [sample_token]"
  by (simp_all add: sample_member_def empty_world_def empty_tables_def)

lemma sample_hash_other:
  "RefreshTokenManager_Hash (\<lambda>t. t) (RawURLEncoding (take 32 (''random'' @ replicate 32 (CHR 0x00))))
     \<noteq> RefreshToken_TokenHash sample_token"
proof
  let ?r = "RawURLEncoding (take 32 (''random'' @ replicate 32 (CHR 0x00)))"
  have hl: "length (hex_EncodeToString x) = 2 * length x" for x
    by (induction x) (simp_all add: hex_EncodeToString_def)
  assume "RefreshTokenManager_Hash (\<lambda>t. t) ?r = RefreshToken_TokenHash sample_token"
  then have "length (hex_EncodeToString ?r) = length (hex_EncodeToString ''tok'')"
    by (simp only: RefreshTokenManager_Hash_def Let_def sample_token_def RefreshToken.simps)
  then show False unfolding hl length_RawURLEncoding by simp
qed

lemma sample_token_facts:
  "find (\<lambda>t. RefreshToken_TokenHash t = RefreshTokenManager_Hash (env_sha256 sample_env) ''tok'')
      (refresh_tokens (db sample_member)) = Some sample_token"
  "RefreshToken_ID sample_token \<noteq> 0" "RefreshToken_IsActive sample_token (clock sample_member)"
  "find (\<lambda>u. User_ID u = RefreshToken_UserID sample_token) (users (db sample_member)) = Some sample_user"
  "jwt_SignedString (env_jwt sample_env) SigningMethodHS256
      (token_claims (env_jwt sample_env) sample_manager (User_ID sample_user) (User_Email sample_user)
        (User_Role sample_user) (clock sample_member)) (TokenManager_secret sample_manager) = Inr ''header.claims.mac''"
  "RefreshTokenManager_Hash (env_sha256 sample_env)
      (RawURLEncoding (take 32 (''random'' @ replicate 32 (CHR 0x00))))
        \<notin> set (map RefreshToken_TokenHash (refresh_tokens (db sample_member)))"
  using sample_signs sample_hash_other
  by (simp_all add: sample_token_def sample_user_def RefreshToken_IsActive_def RefreshToken_IsRevoked_def
      RefreshToken_IsExpired_def)

theorem refresh_succeeds_witness:
  "\<exists>resp w'. auth_Refresh sample_auth \<lparr>RefreshRequest_RefreshToken = ''tok''\<rparr> sample_member = (Inr resp, w') \<and>
     AuthResponse_AccessToken resp = ''header.claims.mac''"
  by (rule refresh_succeeds [OF _ _ sample_token_facts]) simp_all

theorem refresh_rotates_witness:
  "\<exists>resp w'. auth_Refresh sample_auth \<lparr>RefreshRequest_RefreshToken = ''tok''\<rparr> sample_member = (Inr resp, w') \<and>
     auth_Refresh sample_auth \<lparr>RefreshRequest_RefreshToken = ''tok''\<rparr>
       (w'\<lparr>clock := 5, plan := [], entropy := [Inr ''more'']\<rparr>) \<noteq> (Inr resp, w')"
proof -
  obtain resp w' where 1: "auth_Refresh sample_auth \<lparr>RefreshRequest_RefreshToken = ''tok''\<rparr> sample_member = (Inr resp, w')"
    using refresh_ok [OF _ _ sample_token_facts, of "[]" sample_pg NewPasswordHasher 1000] by auto
  from refresh_rotates [OF sample_member_consistent 1, where c = 5 and p = "[]" and e = "[Inr ''more'']" and resp' = resp and w'' = w'] 1 show ?thesis
    by blast
qed

lemma sample_unknown_hash: "RefreshTokenManager_Hash (\<lambda>t. t) ''unknown'' \<noteq> RefreshToken_TokenHash sample_token"
  by (simp add: sample_token_def RefreshTokenManager_Hash_def hex_EncodeToString_def)

theorem refresh_atomic_witness:
  "\<exists>w'. auth_Refresh sample_auth \<lparr>RefreshRequest_RefreshToken = ''unknown''\<rparr> sample_member =
     (Inl NewUnauthorizedError, w') \<and> db w' = db sample_member"
proof -
  let ?h = "RefreshTokenManager_Hash (\<lambda>t. t) ''unknown''"
  have "pg_text ?h" by (simp add: RefreshTokenManager_Hash_def Let_def)
  moreover have "RefreshToken_TokenHash sample_token \<noteq> ?h" using sample_unknown_hash by simp
  ultimately have "refresh_tx sample_auth ?h (pgauth.stores sample_pg) (started 0 [] sample_member) =
      (Inl NewUnauthorizedError, started 0 [] sample_member)"
    by (simp add: refresh_tx_def andThen_def mapErr_def NewRefreshTokenRepository_def
        RefreshTokenRepository_FindRefreshTokenByHash_def sql_empty select_refresh_token_def)
  then have "auth_run (refresh_tx sample_auth ?h (pgauth.stores sample_pg)) sample_member =
      (Inl NewUnauthorizedError, (started 0 [] sample_member)\<lparr>tx := None, db := db sample_member\<rparr>)"
    by (intro auth_tx.run_err db_only_frames(1) pgauth.refresh_tx_only) simp_all
  then have r: "auth_Refresh sample_auth \<lparr>RefreshRequest_RefreshToken = ''unknown''\<rparr> sample_member =
      (Inl NewUnauthorizedError, (started 0 [] sample_member)\<lparr>tx := None, db := db sample_member\<rparr>)"
    by (simp add: auth_Refresh_def Let_def auth_WithinTx_factory auth_factory_def)
  with refresh_atomic [OF r] show ?thesis by (simp add: public_error_defs)
qed

theorem logout_final_witness:
  "\<exists>w'. auth_Logout sample_auth \<lparr>LogoutRequest_RefreshToken = ''tok''\<rparr> sample_member = (Inr (), w') \<and>
     fst (auth_Refresh sample_auth \<lparr>RefreshRequest_RefreshToken = ''tok''\<rparr>
       (w'\<lparr>clock := 5, plan := [], entropy := [Inr ''more'']\<rparr>)) \<notin> range Inr"
proof -
  let ?h = "RefreshTokenManager_Hash (\<lambda>t. t) ''tok''"
  have h: "pg_text ?h" by (simp add: RefreshTokenManager_Hash_def Let_def)
  have "\<exists>w'. auth_Logout sample_auth \<lparr>LogoutRequest_RefreshToken = ''tok''\<rparr> sample_member = (Inr (), w')"
    using h sample_token_facts(1,2)
    by (simp add: auth_Logout_def Let_def attempt_def andThen_def mapErr_def NewRefreshTokenRepository_def
        RefreshTokenRepository_FindRefreshTokenByHash_def RefreshTokenRepository_RevokeRefreshToken_def
        sql_empty select_refresh_token_def revoke_refresh_token_def ret_def)
      (simp add: sample_token_def unrevoked_def RefreshToken_IsRevoked_def)
  then obtain w' where 1: "auth_Logout sample_auth \<lparr>LogoutRequest_RefreshToken = ''tok''\<rparr> sample_member = (Inr (), w')"
    by blast
  let ?r = "auth_Refresh sample_auth \<lparr>RefreshRequest_RefreshToken = ''tok''\<rparr>
    (w'\<lparr>clock := 5, plan := [], entropy := [Inr ''more'']\<rparr>)"
  have "?r \<noteq> (Inr resp, w'')" for resp w''
    by (rule logout_final [OF sample_member_consistent 1])
  then have "fst ?r \<noteq> Inr resp" for resp by (metis prod.collapse)
  then have "fst ?r \<notin> range Inr" by blast
  with 1 show ?thesis by blast
qed

theorem login_failure_uniform_witness:
  "auth_Login sample_auth \<lparr>LoginRequest_Email = ''A@b.c'', LoginRequest_Password = ''guess''\<rparr> sample_member =
     (Inl NewInvalidCredentialsError, sample_member)"
proof (rule login_failure_uniform)
  have n: "normalize_email (\<lambda>t. t) ''A@b.c'' = ''a@b.c''" by code_simp
  then show "pg_text (normalize_email (env_lower sample_env)
      (LoginRequest_Email \<lparr>LoginRequest_Email = ''A@b.c'', LoginRequest_Password = ''guess''\<rparr>))"
    by (simp add: pg_text_samples)
  fix u assume "u \<in> set (users (db sample_member))"
  then show "\<not> PasswordHasher_Compare (env_bcrypt sample_env) (User_PasswordHash u)
      (LoginRequest_Password \<lparr>LoginRequest_Email = ''A@b.c'', LoginRequest_Password = ''guess''\<rparr>)"
    by (simp add: sample_user_def PasswordHasher_Compare_def sample_bcrypt_def)
qed simp

theorem login_sound_witness:
  "\<exists>resp w'. auth_Login sample_auth \<lparr>LoginRequest_Email = ''A@b.c'', LoginRequest_Password = ''password1''\<rparr>
     sample_member = (Inr resp, w') \<and> AuthResponse_User resp = ToResponse sample_user"
proof -
  have n: "normalize_email (\<lambda>t. t) ''A@b.c'' = ''a@b.c''" by code_simp
  have uid: "User_ID sample_user \<in> set (map User_ID (users (db sample_member)))" by simp
  obtain refr w' where "issueTokenPairWithStore sample_auth NewRefreshTokenRepository sample_user sample_member =
      (Inr (''header.claims.mac'', refr), w')"
    using issue_ok [of sample_member "''random''" "[]" sample_auth sample_user "''header.claims.mac''"]
      sample_token_facts(5,6) uid by auto
  then have 1: "auth_Login sample_auth \<lparr>LoginRequest_Email = ''A@b.c'', LoginRequest_Password = ''password1''\<rparr>
      sample_member = (Inr (new_AuthResponse ''header.claims.mac'' refr sample_user), w')"
    using n by (simp add: auth_Login_def Let_def attempt_def user_NewPostgresRepository_def
        user_PostgresRepository_FindByEmail_def mapErr_def sql_empty select_user_def pg_text_samples
        issueTokenPair_def andThen_def ret_def)
      (simp add: sample_user_def PasswordHasher_Compare_def sample_bcrypt_def)
  from login_sound [OF 1] have "\<exists>row. row \<in> set (users (db sample_member)) \<and>
      AuthResponse_User (new_AuthResponse ''header.claims.mac'' refr sample_user) = ToResponse row" by blast
  with 1 show ?thesis by auto
qed

lemma sample_registered: "\<exists>resp w'. auth_Register sample_auth sample_register sample_start = (Inr resp, w')"
proof (rule register_ok)
  show "entropy sample_start = Inr ''salt'' # Inr ''random'' # []" by (simp add: sample_start_def)
  show "bcrypt_GenerateFromPassword (env_bcrypt sample_env) (take 16 (''salt'' @ replicate 16 (CHR 0x00)))
      (RegisterRequest_Password sample_register) (PasswordHasher_cost NewPasswordHasher) =
      Inr ''$2a$password1''"
    by (simp add: sample_bcrypt_def sample_register_def)
  show "jwt_SignedString (env_jwt sample_env) SigningMethodHS256
      (token_claims (env_jwt sample_env) sample_manager (users_id_seq (seqs sample_start) + 1)
        (normalize_email (env_lower sample_env) (RegisterRequest_Email sample_register)) RoleUser
        (clock sample_start)) (TokenManager_secret sample_manager) = Inr ''header.claims.mac''"
    unfolding sample_texts using sample_signs by (simp add: sample_start_def empty_world_def)
qed (unfold sample_texts, simp_all add: sample_start_def empty_world_def empty_tables_def pg_text_samples)

theorem register_all_or_nothing_witness:
  "\<exists>resp w'. auth_Register sample_auth sample_register sample_start = (Inr resp, w') \<and>
     registration sample_env NewPasswordHasher sample_register (db sample_start) (db w') resp"
proof -
  obtain resp w' where 1: "auth_Register sample_auth sample_register sample_start = (Inr resp, w')"
    using sample_registered by blast
  from register_all_or_nothing [OF 1] have "registration sample_env NewPasswordHasher sample_register
      (db sample_start) (db w') resp" by auto
  with 1 show ?thesis by blast
qed


end
