(* ===== verification/Redis.thy ===== *)
theory Redis
  imports Metrics
begin

text \<open>
  The commands of Redis the program uses, on the part \<open>redis\<close> of the world: a key holds a
  value and the time it expires at, and an expired key is absent. GET, SET with an expiry and
  DEL serve the cache of internal/user/user_cache.go; INCR and PEXPIRE, in one script that Redis
  runs atomically, serve internal/ratelimit/redis_limiter.go. Times are in nanoseconds, Redis
  keeps milliseconds.
\<close>

definition live_at :: "int \<Rightarrow> redis_entry option \<Rightarrow> redis_entry option" where
  "live_at now x = (case x of None \<Rightarrow> None
     | Some e \<Rightarrow> (case redis_expires e of None \<Rightarrow> Some e
                 | Some t \<Rightarrow> if now < t then Some e else None))"

definition redis_lookup :: "world \<Rightarrow> string \<Rightarrow> redis_entry option" where
  "redis_lookup w k = live_at (clock w) (redis w k)"

definition redis_store :: "string \<Rightarrow> redis_entry option \<Rightarrow> world \<Rightarrow> world" where
  "redis_store k x w = w\<lparr>redis := (redis w)(k := x)\<rparr>"

definition millis :: "int \<Rightarrow> int" where
  "millis d = d div 1000000"

text \<open>\<open>client.Get\<close>; a missing key is the error \<open>redis.Nil\<close>.\<close>

definition redis_Get :: "string \<Rightarrow> redis_value prog" where
  "redis_Get k = external (\<lambda>w. case redis_lookup w k of
       None \<Rightarrow> (Inl (Sentinel RedisNil), w) | Some e \<Rightarrow> (Inr (redis_value e), w))"

text \<open>
  \<open>client.Set\<close> with an expiration: whole milliseconds and at least one if it is positive, none
  if it is not. (The special value -1, which keeps the old expiry, is not used by the program.)
\<close>

definition set_expiry :: "int \<Rightarrow> int \<Rightarrow> int option" where
  "set_expiry now ttl = (if ttl > 0 then Some (now + max 1 (millis ttl) * 1000000) else None)"

definition redis_Set :: "string \<Rightarrow> redis_value \<Rightarrow> int \<Rightarrow> unit prog" where
  "redis_Set k v ttl = external (\<lambda>w. (Inr (),
     redis_store k (Some \<lparr>redis_value = v, redis_expires = set_expiry (clock w) ttl\<rparr>) w))"

definition redis_Del :: "string \<Rightarrow> unit prog" where
  "redis_Del k = external (\<lambda>w. (Inr (), redis_store k None w))"

section \<open>Scripts\<close>

text \<open>INCR keeps the expiry of a live key, counts an absent one from 0, and is refused on a string.\<close>

definition redis_INCR :: "string \<Rightarrow> int prog" where
  "redis_INCR k w =
     (case redis_lookup w k of
        None \<Rightarrow> (Inr 1, redis_store k (Some \<lparr>redis_value = RedisInt 1, redis_expires = None\<rparr>) w)
      | Some e \<Rightarrow> (case redis_value e of
            RedisInt n \<Rightarrow> if n < int64_max
              then (Inr (n + 1), redis_store k (Some (e\<lparr>redis_value := RedisInt (n + 1)\<rparr>)) w)
              else (Inl (NewError ''ERR increment or decrement would overflow''), w)
          | _ \<Rightarrow> (Inl (NewError ''ERR value is not an integer or out of range''), w)))"

definition redis_PEXPIRE :: "string \<Rightarrow> int \<Rightarrow> unit prog" where
  "redis_PEXPIRE k ms w =
     (case redis_lookup w k of
        None \<Rightarrow> (Inr (), w)
      | Some e \<Rightarrow> (Inr (), redis_store k (Some (e\<lparr>redis_expires := Some (clock w + ms * 1000000)\<rparr>)) w))"

section \<open>Facts\<close>

definition redis_step :: "world \<Rightarrow> world \<Rightarrow> bool" where
  "redis_step w w' \<longleftrightarrow> db w' = db w \<and> seqs w' = seqs w \<and> tx w' = tx w \<and> entropy w' = entropy w \<and>
     topic_log w' = topic_log w \<and> committed w' = committed w \<and> counters w' = counters w \<and> clock w \<le> clock w'"

definition redis_only :: "'a prog \<Rightarrow> bool" where
  "redis_only m \<longleftrightarrow> (\<forall>w. redis_step w (snd (m w)))"

lemma redis_onlyD: "redis_only m \<Longrightarrow> m w = (r, w') \<Longrightarrow> redis_step w w'"
  by (auto simp: redis_only_def dest: spec [where x = w])

lemma redis_only_external:
  assumes "\<And>w. redis_step w (snd (f w))"
  shows "redis_only (external f)"
proof -
  have "redis_step w (snd (external f w))" for w
  proof -
    from next_outcome_form [of w] obtain oc c p
      where n: "next_outcome w = (oc, w\<lparr>clock := c, plan := p\<rparr>)" and c: "clock w \<le> c" by auto
    from assms [of "w\<lparr>clock := c, plan := p\<rparr>"] c n show ?thesis
      by (cases oc) (auto simp: external_def redis_step_def)
  qed
  then show ?thesis by (simp add: redis_only_def)
qed

lemma redis_store_step [simp]: "redis_step w (redis_store k x w)"
  by (simp add: redis_step_def redis_store_def)

lemma redis_step_refl [simp]: "redis_step w w"
  by (simp add: redis_step_def)

lemma redis_commands_only: "redis_only (redis_Get k)" "redis_only (redis_Set k v ttl)" "redis_only (redis_Del k)"
  unfolding redis_Get_def redis_Set_def redis_Del_def
  by (rule redis_only_external; simp split: option.split)+

lemma redis_only_frames:
  assumes "redis_only m"
  shows "frame db m" "frame seqs m" "frame tx m" "frame counters m"
  using assms by (simp_all add: redis_only_def redis_step_def frame_def)

lemma redis_command_frames [frame_intros]:
  "frame db (redis_Get k)" "frame db (redis_Set k v ttl)" "frame db (redis_Del k)"
  "frame seqs (redis_Get k)" "frame seqs (redis_Set k v ttl)" "frame seqs (redis_Del k)"
  "frame tx (redis_Get k)" "frame tx (redis_Set k v ttl)" "frame tx (redis_Del k)"
  by (rule redis_only_frames; rule redis_commands_only)+

lemma live_at_le: "live_at t x = Some e \<Longrightarrow> s \<le> t \<Longrightarrow> live_at s x = Some e"
  by (auto simp: live_at_def split: option.splits if_splits)

lemma redis_lookup_store:
  "redis_lookup (redis_store k x w) k' = (if k' = k then live_at (clock w) x else redis_lookup w k')"
  by (simp add: redis_lookup_def redis_store_def)

text \<open>What a command can have done to the live keys, whether or not its answer arrived.\<close>

lemma redis_Get_lookup: "redis_Get k w = (r, w') \<Longrightarrow> redis_lookup w' k' = Some e \<Longrightarrow> redis_lookup w k' = Some e"
  unfolding redis_Get_def
  by (erule external_cases) (auto simp: redis_lookup_def split: option.splits intro: live_at_le)

lemma redis_Get_InrD: "redis_Get k w = (Inr v, w') \<Longrightarrow> \<exists>e. redis_lookup w k = Some e \<and> redis_value e = v"
  unfolding redis_Get_def
  by (erule external_InrD) (auto simp: redis_lookup_def split: option.splits dest: live_at_le)

lemma redis_Set_lookup:
  "redis_Set k v ttl w = (r, w') \<Longrightarrow> redis_lookup w' k' = Some e \<Longrightarrow>
     redis_lookup w k' = Some e \<or> (k' = k \<and> redis_value e = v)"
  unfolding redis_Set_def
  by (erule external_cases) (auto simp: redis_lookup_def redis_store_def live_at_def
      split: option.splits if_splits)

lemma redis_Del_lookup:
  "redis_Del k w = (r, w') \<Longrightarrow> redis_lookup w' k' = Some e \<Longrightarrow> redis_lookup w k' = Some e"
  unfolding redis_Del_def
  by (erule external_cases) (auto simp: redis_lookup_def redis_store_def live_at_def
      split: option.splits if_splits)

lemma redis_Del_Inr: "redis_Del k w = (Inr u, w') \<Longrightarrow> redis_lookup w' k = None"
  unfolding redis_Del_def
  by (erule external_InrD) (auto simp: redis_lookup_def redis_store_def live_at_def)

end
