(* ===== verification/User_Cache.thy ===== *)
theory User_Cache
  imports Redis
begin

text \<open>
  The cache of users: internal/user/cache.go (the interface), user_cache.go (its implementation
  in Redis, which keeps the JSON document of a user under a key made of the user's id) and
  observer_cache.go (a cache that counts hits and misses and leaves the rest to another).
\<close>

record Cache =
  Cache_GetUser :: "int \<Rightarrow> (User \<times> bool) prog"
  Cache_SetUser :: "User \<Rightarrow> int \<Rightarrow> unit prog"
  Cache_DeleteUser :: "int \<Rightarrow> unit prog"

section \<open>RedisCache\<close>

text \<open>\<open>cacheText\<close> is the text of a JSON error, which the callers do not look at.\<close>

record RedisCache =
  RedisCache_prefix :: string
  RedisCache_timeout :: int
  RedisCache_errorText :: "decode_error \<Rightarrow> string"

definition NewRedisCache :: "string \<Rightarrow> int \<Rightarrow> (decode_error \<Rightarrow> string) \<Rightarrow> RedisCache" where
  "NewRedisCache pre timeout errText =
     \<lparr>RedisCache_prefix = pre, RedisCache_timeout = timeout, RedisCache_errorText = errText\<rparr>"

record cachedUser =
  cachedUser_ID :: int
  cachedUser_Name :: string
  cachedUser_Email :: string
  cachedUser_Age :: int
  cachedUser_Role :: Role
  cachedUser_CreatedAt :: int
  cachedUser_UpdatedAt :: int

definition cachedUserFromDomain :: "User \<Rightarrow> cachedUser" where
  "cachedUserFromDomain u = \<lparr>cachedUser_ID = User_ID u, cachedUser_Name = User_Name u,
     cachedUser_Email = User_Email u, cachedUser_Age = User_Age u, cachedUser_Role = User_Role u,
     cachedUser_CreatedAt = User_CreatedAt u, cachedUser_UpdatedAt = User_UpdatedAt u\<rparr>"

definition cachedUser_toDomain :: "cachedUser \<Rightarrow> User" where
  "cachedUser_toDomain c = \<lparr>User_ID = cachedUser_ID c, User_Name = cachedUser_Name c,
     User_Email = cachedUser_Email c, User_Age = cachedUser_Age c, User_Role = cachedUser_Role c,
     User_PasswordHash = '''', User_CreatedAt = cachedUser_CreatedAt c,
     User_UpdatedAt = cachedUser_UpdatedAt c\<rparr>"

text \<open>The tags of the struct, and its document; encoding/json replaces what is not UTF-8.\<close>

definition cachedUser_schema :: struct_schema where
  "cachedUser_schema = [(''id'', KInt 64), (''name'', KString), (''email'', KString), (''age'', KInt 32),
     (''role'', KString), (''createdAt'', KTime), (''updatedAt'', KTime)]"

definition cachedUser_json :: "cachedUser \<Rightarrow> json" where
  "cachedUser_json c = JObject
     [(''id'', JInt (cachedUser_ID c)), (''name'', JString (valid_text (cachedUser_Name c))),
      (''email'', JString (valid_text (cachedUser_Email c))), (''age'', JInt (cachedUser_Age c)),
      (''role'', JString (valid_text (cachedUser_Role c))), (''createdAt'', JTime (cachedUser_CreatedAt c)),
      (''updatedAt'', JTime (cachedUser_UpdatedAt c))]"

definition cachedUser_of :: "assignment \<Rightarrow> cachedUser" where
  "cachedUser_of m = \<lparr>cachedUser_ID = int_field m ''id'', cachedUser_Name = string_field m ''name'',
     cachedUser_Email = string_field m ''email'', cachedUser_Age = int_field m ''age'',
     cachedUser_Role = string_field m ''role'', cachedUser_CreatedAt = time_field m ''createdAt'',
     cachedUser_UpdatedAt = time_field m ''updatedAt''\<rparr>"

text \<open>\<open>json.Unmarshal\<close>; a value that is not a JSON text is a syntax error.\<close>

definition cachedUser_unmarshal :: "redis_value \<Rightarrow> decode_error + cachedUser" where
  "cachedUser_unmarshal v =
     (case (case v of RedisJson j \<Rightarrow> decode_struct quoted False cachedUser_schema j
            | RedisInt n \<Rightarrow> decode_struct quoted False cachedUser_schema (JInt n)
            | RedisString s \<Rightarrow> Inl SyntaxError) of
        Inl e \<Rightarrow> Inl e | Inr m \<Rightarrow> Inr (cachedUser_of m))"

definition cachedUser_marshal :: "cachedUser \<Rightarrow> go_error + redis_value" where
  "cachedUser_marshal c =
     (if json_time_ok (cachedUser_CreatedAt c) \<and> json_time_ok (cachedUser_UpdatedAt c)
      then Inr (RedisJson (cachedUser_json c))
      else Inl (NewError ''json: error calling MarshalJSON for type time.Time: Time.MarshalJSON: year outside of range [0,9999]''))"

definition RedisCache_userKey :: "RedisCache \<Rightarrow> int \<Rightarrow> string" where
  "RedisCache_userKey c i = RedisCache_prefix c @ '':user:id:'' @ FormatInt i"

definition RedisCache_GetUser :: "RedisCache \<Rightarrow> int \<Rightarrow> (User \<times> bool) prog" where
  "RedisCache_GetUser c i =
     attempt (redis_Get (RedisCache_userKey c i)) (\<lambda>r. case r of
         Inl err \<Rightarrow> if errors_Is err RedisNil then ret (zero_User, False)
                    else throw (wrapf ''get user from redis failed'' err)
       | Inr raw \<Rightarrow> (case cachedUser_unmarshal raw of
             Inl err \<Rightarrow> throw (wrapf ''unmarshal cached user failed'' (NewError (RedisCache_errorText c err)))
           | Inr cached \<Rightarrow> ret (cachedUser_toDomain cached, True)))"

definition RedisCache_SetUser :: "RedisCache \<Rightarrow> User \<Rightarrow> int \<Rightarrow> unit prog" where
  "RedisCache_SetUser c u ttl =
     (case cachedUser_marshal (cachedUserFromDomain u) of
        Inl err \<Rightarrow> throw (wrapf ''marshal cached user failed'' err)
      | Inr data \<Rightarrow> mapErr (wrapf ''set user to redis cache failed'')
                     (redis_Set (RedisCache_userKey c (User_ID u)) data ttl))"

definition RedisCache_DeleteUser :: "RedisCache \<Rightarrow> int \<Rightarrow> unit prog" where
  "RedisCache_DeleteUser c i =
     mapErr (wrapf ''delete user from redis cache failed'') (redis_Del (RedisCache_userKey c i))"

definition redis_cache :: "RedisCache \<Rightarrow> Cache" where
  "redis_cache c = \<lparr>Cache_GetUser = RedisCache_GetUser c, Cache_SetUser = RedisCache_SetUser c,
     Cache_DeleteUser = RedisCache_DeleteUser c\<rparr>"

section \<open>ObservedCache\<close>

definition ObservedCache_GetUser :: "Cache \<Rightarrow> CacheObserver \<Rightarrow> string \<Rightarrow> int \<Rightarrow> (User \<times> bool) prog" where
  "ObservedCache_GetUser cache obs name i =
     attempt (Cache_GetUser cache i) (\<lambda>r. case r of
         Inl err \<Rightarrow> throw err
       | Inr (usr, ok) \<Rightarrow>
           andThen (if ok then CacheObserver_Hit obs name else CacheObserver_Miss obs name)
             (\<lambda>_. ret (usr, ok)))"

definition NewObservedCache :: "Cache \<Rightarrow> CacheObserver \<Rightarrow> string \<Rightarrow> Cache" where
  "NewObservedCache cache obs name =
     \<lparr>Cache_GetUser = ObservedCache_GetUser cache obs name,
      Cache_SetUser = (\<lambda>user ttl. Cache_SetUser cache user ttl),
      Cache_DeleteUser = (\<lambda>i. Cache_DeleteUser cache i)\<rparr>"

section \<open>The contract\<close>

text \<open>
  The cache seen from its client is a partial map from ids to users, \<open>look\<close>. Entries may
  vanish at any time, a call may be lost or take effect without an answer; an entry appears only
  by a \<open>SetUser\<close>, for the id and with the data of the user it was given.
\<close>

definition cache_view :: "User \<Rightarrow> User" where
  "cache_view u = u\<lparr>User_Name := valid_text (User_Name u), User_Email := valid_text (User_Email u),
     User_Role := valid_text (User_Role u), User_PasswordHash := ''''\<rparr>"

locale cache_contract =
  fixes K :: Cache and look :: "world \<Rightarrow> int \<Rightarrow> User option"
  assumes get_Inr: "Cache_GetUser K i w = (Inr (u, ok), w') \<Longrightarrow> ok \<Longrightarrow> look w i = Some u"
    and get_look: "Cache_GetUser K i w = (r, w') \<Longrightarrow> look w' j = Some x \<Longrightarrow> look w j = Some x"
    and set_look: "Cache_SetUser K u ttl w = (sr, w') \<Longrightarrow> look w' j = Some x \<Longrightarrow>
      look w j = Some x \<or> (j = User_ID u \<and> x = cache_view u)"
    and del_look: "Cache_DeleteUser K i w = (dr, w') \<Longrightarrow> look w' j = Some x \<Longrightarrow> look w j = Some x"
    and del_Inr: "Cache_DeleteUser K i w = (Inr v, w') \<Longrightarrow> look w' i = None"
    and look_world: "redis w' = redis w \<Longrightarrow> clock w \<le> clock w' \<Longrightarrow> look w' j = Some x \<Longrightarrow> look w j = Some x"
    and cache_frames: "frame db (Cache_GetUser K i)" "frame db (Cache_SetUser K u ttl)"
      "frame db (Cache_DeleteUser K i)" "frame seqs (Cache_GetUser K i)" "frame seqs (Cache_SetUser K u ttl)"
      "frame seqs (Cache_DeleteUser K i)"


section \<open>The Redis cache meets it\<close>

definition redis_look :: "RedisCache \<Rightarrow> world \<Rightarrow> int \<Rightarrow> User option" where
  "redis_look c w i = (case redis_lookup w (RedisCache_userKey c i) of None \<Rightarrow> None
     | Some e \<Rightarrow> (case cachedUser_unmarshal (redis_value e) of
          Inl _ \<Rightarrow> None | Inr cached \<Rightarrow> Some (cachedUser_toDomain cached)))"

lemma cached_fields [simp]:
  "find_field cachedUser_schema ''id'' = Some (''id'', KInt 64)"
  "find_field cachedUser_schema ''name'' = Some (''name'', KString)"
  "find_field cachedUser_schema ''email'' = Some (''email'', KString)"
  "find_field cachedUser_schema ''age'' = Some (''age'', KInt 32)"
  "find_field cachedUser_schema ''role'' = Some (''role'', KString)"
  "find_field cachedUser_schema ''createdAt'' = Some (''createdAt'', KTime)"
  "find_field cachedUser_schema ''updatedAt'' = Some (''updatedAt'', KTime)"
  by (simp_all add: find_field_def cachedUser_schema_def)

definition cached_text :: "cachedUser \<Rightarrow> cachedUser" where
  "cached_text c = c\<lparr>cachedUser_Name := valid_text (cachedUser_Name c),
     cachedUser_Email := valid_text (cachedUser_Email c), cachedUser_Role := valid_text (cachedUser_Role c)\<rparr>"

lemma cachedUser_roundtrip:
  assumes "in_int64 (cachedUser_ID c)" "- (2 ^ 31) \<le> cachedUser_Age c" "cachedUser_Age c < 2 ^ 31"
  shows "cachedUser_unmarshal (RedisJson (cachedUser_json c)) = Inr (cached_text c)"
  using assms
  by (simp add: cachedUser_unmarshal_def cachedUser_json_def cachedUser_of_def cached_text_def
      int_field_def string_field_def time_field_def in_int64_def int64_min_def int64_max_def)

lemma cachedUser_unmarshal_json:
  "cachedUser_unmarshal (RedisJson (cachedUser_json c)) = Inr c' \<Longrightarrow> c' = cached_text c"
  by (auto simp: cachedUser_unmarshal_def cachedUser_json_def cachedUser_of_def cached_text_def
      int_field_def string_field_def time_field_def first_error_def split: if_splits sum.splits)

lemma cached_text_view: "cachedUser_toDomain (cached_text (cachedUserFromDomain u)) = cache_view u"
  by (cases u) (simp add: cachedUser_toDomain_def cached_text_def cachedUserFromDomain_def cache_view_def)

lemma userKey_inj [simp]: "RedisCache_userKey c i = RedisCache_userKey c j \<longleftrightarrow> i = j"
  by (auto simp: RedisCache_userKey_def dest: FormatInt_inj)

lemma redis_look_mono:
  assumes "\<And>k e. redis_lookup w' k = Some e \<Longrightarrow> redis_lookup w k = Some e" and "redis_look c w' j = Some x"
  shows "redis_look c w j = Some x"
  using assms(2) assms(1) [of "RedisCache_userKey c j"] by (auto simp: redis_look_def split: option.splits)


lemma cache_commands_frames:
  "frame db (RedisCache_GetUser c i)" "frame db (RedisCache_SetUser c u ttl)" "frame db (RedisCache_DeleteUser c i)"
  "frame seqs (RedisCache_GetUser c i)" "frame seqs (RedisCache_SetUser c u ttl)" "frame seqs (RedisCache_DeleteUser c i)"
  unfolding RedisCache_GetUser_def RedisCache_SetUser_def RedisCache_DeleteUser_def
  by (intro frame_intros)+

interpretation redis_users: cache_contract "redis_cache c" "redis_look c"
proof (unfold_locales, unfold redis_cache_def Cache.simps, goal_cases)
  case (1 i w u ok w')
  then show ?case
    unfolding RedisCache_GetUser_def
    by (auto elim!: attemptE dest!: redis_Get_InrD simp: redis_look_def split: sum.splits if_splits)
next
  case (2 i w r w' j x)
  from 2(1) obtain q where "redis_Get (RedisCache_userKey c i) w = (q, w')"
    unfolding RedisCache_GetUser_def by (auto elim!: attemptE split: sum.splits if_splits)
  from redis_look_mono [OF redis_Get_lookup [OF this] 2(2)] show ?case by blast
next
  case (3 u ttl w r w' j x)
  show ?case
  proof (cases "cachedUser_marshal (cachedUserFromDomain u)")
    case (Inl e)
    with 3 show ?thesis by (simp add: RedisCache_SetUser_def)
  next
    case (Inr data)
    then have data: "data = RedisJson (cachedUser_json (cachedUserFromDomain u))"
      by (auto simp: cachedUser_marshal_def split: if_splits)
    from 3(1) Inr obtain q where s: "redis_Set (RedisCache_userKey c (User_ID u)) data ttl w = (q, w')"
      by (auto simp: RedisCache_SetUser_def mapErr_def split: prod.splits sum.splits)
    from 3(2) obtain e cu where e: "redis_lookup w' (RedisCache_userKey c j) = Some e"
      "cachedUser_unmarshal (redis_value e) = Inr cu" "x = cachedUser_toDomain cu"
      by (auto simp: redis_look_def split: option.splits sum.splits)
    from redis_Set_lookup [OF s e(1)] show ?thesis
    proof
      assume "redis_lookup w (RedisCache_userKey c j) = Some e"
      with e show ?thesis by (simp add: redis_look_def)
    next
      assume "RedisCache_userKey c j = RedisCache_userKey c (User_ID u) \<and> redis_value e = data"
      then have j: "j = User_ID u" "redis_value e = RedisJson (cachedUser_json (cachedUserFromDomain u))"
        using data by simp_all
      from cachedUser_unmarshal_json [OF e(2) [unfolded j(2)]] e(3) j(1) show ?thesis
        by (simp add: cached_text_view)
    qed
  qed
next
  case (4 i w r w' j x)
  from 4(1) obtain q where "redis_Del (RedisCache_userKey c i) w = (q, w')"
    unfolding RedisCache_DeleteUser_def by (auto simp: mapErr_def split: prod.splits sum.splits)
  from redis_look_mono [OF redis_Del_lookup [OF this] 4(2)] show ?case by blast
next
  case (5 i w v w')
  then show ?case
    unfolding RedisCache_DeleteUser_def
    by (auto dest!: mapErr_InrD redis_Del_Inr simp: redis_look_def)
next
  case (6 w' w j x)
  show ?case
    by (rule redis_look_mono [OF _ 6(3)]) (use 6 in \<open>auto simp: redis_lookup_def intro: live_at_le\<close>)
qed (rule cache_commands_frames)+

text \<open>An observed cache is a cache.\<close>

lemma observed_get:
  assumes "cache_observer obs" and "Cache_GetUser (NewObservedCache K obs name) i w = (r, w')"
  obtains w1 where "Cache_GetUser K i w = (r, w1)" "\<exists>n. w' = w1\<lparr>counters := n\<rparr>"
proof -
  from assms(2) obtain q w1 where 1: "Cache_GetUser K i w = (q, w1)"
    and 2: "(case q of Inl err \<Rightarrow> throw err
       | Inr (usr, ok) \<Rightarrow> andThen (if ok then CacheObserver_Hit obs name else CacheObserver_Miss obs name)
             (\<lambda>_. ret (usr, ok))) w1 = (r, w')"
    unfolding NewObservedCache_def Cache.simps ObservedCache_GetUser_def by (rule attemptE)
  have c: "counts_only (if ok then CacheObserver_Hit obs name else CacheObserver_Miss obs name)" for ok
    using cache_observer.cache_counts [OF assms(1)] by simp
  have "q = r \<and> (\<exists>n. w' = w1\<lparr>counters := n\<rparr>)"
  proof (cases q)
    case (Inr uo)
    obtain usr ok where uo: "uo = (usr, ok)" by (cases uo)
    from c obtain n where "(if ok then CacheObserver_Hit obs name else CacheObserver_Miss obs name) w1 =
        (Inr (), w1\<lparr>counters := n\<rparr>)" unfolding counts_only_def by blast
    with 2 Inr uo show ?thesis by (auto simp: andThen_def)
  next
    case (Inl e)
    with 2 have "q = r" "w' = w1\<lparr>counters := counters w1\<rparr>" by simp_all
    then show ?thesis by blast
  qed
  with 1 show thesis by (intro that) auto
qed

lemma observed_frame:
  assumes "cache_observer obs" and "\<And>w c. v (w\<lparr>counters := c\<rparr>) = v w" and "frame v (Cache_GetUser K i)"
  shows "frame v (Cache_GetUser (NewObservedCache K obs name) i)"
proof (rule frameI)
  fix w
  obtain r w' where g: "Cache_GetUser (NewObservedCache K obs name) i w = (r, w')"
    by (cases "Cache_GetUser (NewObservedCache K obs name) i w")
  from observed_get [OF assms(1) g] obtain w1 n where "Cache_GetUser K i w = (r, w1)"
    "w' = w1\<lparr>counters := n\<rparr>" by metis
  with frameD [OF assms(3)] g assms(2) show "v (snd (Cache_GetUser (NewObservedCache K obs name) i w)) = v w"
    by simp
qed

lemma observed_cache:
  assumes k: "cache_contract K look" and obs: "cache_observer obs"
  shows "cache_contract (NewObservedCache K obs name) look"
proof (unfold_locales, goal_cases)
  case (1 i w u ok w')
  from observed_get [OF obs 1(1)] 1(2) cache_contract.get_Inr [OF k] show ?case by metis
next
  case (2 i w r w' j x)
  from observed_get [OF obs 2(1)] obtain w1 n where 1: "Cache_GetUser K i w = (r, w1)"
    and w': "w' = w1\<lparr>counters := n\<rparr>" by metis
  with cache_contract.look_world [OF k, of w' w1] 2(2) cache_contract.get_look [OF k 1] show ?case by simp
next
  case (7 i)
  show ?case by (rule observed_frame [OF obs _ cache_contract.cache_frames(1) [OF k]]) simp
next
  case (10 i)
  show ?case by (rule observed_frame [OF obs _ cache_contract.cache_frames(4) [OF k]]) simp
next
  case (3 u ttl w sr w' j x)
  with cache_contract.set_look [OF k] show ?case by (simp add: NewObservedCache_def)
next
  case (4 i w dr w' j x)
  with cache_contract.del_look [OF k] show ?case by (simp add: NewObservedCache_def)
next
  case (5 i w v w')
  with cache_contract.del_Inr [OF k] show ?case by (simp add: NewObservedCache_def)
next
  case (6 w' w j x)
  then show ?case by (rule cache_contract.look_world [OF k])
qed (simp_all add: NewObservedCache_def cache_contract.cache_frames [OF k])

text \<open>The cache that internal/app/app.go gives the user service.\<close>

definition app_cache :: "int \<Rightarrow> (decode_error \<Rightarrow> string) \<Rightarrow> Cache" where
  "app_cache timeout txt =
     NewObservedCache (redis_cache (NewRedisCache ''identity'' timeout txt)) metrics_CacheObserver ''user''"

interpretation app_cache: cache_contract "app_cache timeout txt" "redis_look (NewRedisCache ''identity'' timeout txt)"
  unfolding app_cache_def
  by (intro observed_cache redis_users.cache_contract_axioms metrics_cache_obs.cache_observer_axioms)

end
