(* ===== verification/User_Service.thy ===== *)
theory User_Service
  imports Auth_Service User_Cache
begin

text \<open>
  internal/user/service.go and postgres_tx.go: creating, reading, listing, updating and deleting
  users, with the outbox event of a creation in the same transaction and the cache in front of
  the lookup by id. The service is a record of its collaborators, the cache and the transaction
  factory are optional as in the code; its lemmas are proved from the contracts of the
  repository, the outbox store, the transaction runner and the cache (locale \<open>user_deps\<close>).
  \<open>mail.ParseAddress\<close> and the other library functions are parameters; warnings that are only
  logged are left out.
\<close>

section \<open>Collaborators\<close>

record user_env =
  uenv_lower :: "string \<Rightarrow> string"
  uenv_bcrypt :: bcrypt_lib
  uenv_marshal :: "UserRegistered \<Rightarrow> go_error + string"
  uenv_ParseAddress :: "string \<Rightarrow> bool"                  \<comment> \<open>\<open>mail.ParseAddress\<close> returns no error\<close>

record user_TxStores =
  TxStores_UserRepo :: Repository
  TxStores_OutBoxStore :: Store

record ProfileWithUser =
  ProfileWithUser_User :: User
  ProfileWithUser_Profile :: Profile

text \<open>
  What the closures assign to the variables they capture: \<open>created\<close> in \<open>CreateUser\<close>,
  \<open>res\<close> in \<open>CreateUserWithProfile\<close>.
\<close>

type_synonym captured = "User \<times> Profile option"
type_synonym user_TxFactory = "(user_TxStores \<Rightarrow> captured prog) \<Rightarrow> captured prog"

record user_Service =
  user_repo :: Repository
  user_txFactory :: "user_TxFactory option"
  user_hasher :: PasswordHasher
  user_cache :: "Cache option"
  user_cacheTTL :: int
  user_lib :: user_env

definition user_WithCache :: "Cache \<Rightarrow> int \<Rightarrow> user_Service \<Rightarrow> user_Service" where
  "user_WithCache cache ttl s = s\<lparr>user_cache := Some cache, user_cacheTTL := ttl\<rparr>"

definition user_NewService ::
  "Repository \<Rightarrow> user_TxFactory option \<Rightarrow> PasswordHasher \<Rightarrow> user_env \<Rightarrow>
     (user_Service \<Rightarrow> user_Service) list \<Rightarrow> user_Service" where
  "user_NewService repo txFactory hasher env opts =
     foldl (\<lambda>service opt. opt service)
       \<lparr>user_repo = repo, user_txFactory = txFactory, user_hasher = hasher, user_cache = None,
        user_cacheTTL = 0, user_lib = env\<rparr> opts"

section \<open>PostgresTxRepositoryFactory\<close>

definition user_run :: "'a prog \<Rightarrow> 'a prog" where
  "user_run = run_tx (wrapf ''begin transaction'') (wrapf ''commit transaction'') (\<lambda>_ err. err)"

definition user_WithinTx :: "pg_locale \<Rightarrow> (user_TxStores \<Rightarrow> 'a prog) \<Rightarrow> 'a prog" where
  "user_WithinTx pg fn =
     (let stores = \<lparr>TxStores_UserRepo = user_NewPostgresRepository pg,
                    TxStores_OutBoxStore = outbox_NewPostgresRepository\<rparr>
      in user_run (fn stores))"

section \<open>Inputs\<close>

record CreateUserInput =
  CreateUserInput_Name :: string
  CreateUserInput_Email :: string
  CreateUserInput_Age :: int
  CreateUserInput_Password :: string

record UpdateUserInput =
  UpdateUserInput_Name :: string
  UpdateUserInput_Email :: string
  UpdateUserInput_Age :: int

record CreateUserWithProfileInput =
  WithProfileInput_Name :: string
  WithProfileInput_Email :: string
  WithProfileInput_Age :: int
  WithProfileInput_Password :: string
  WithProfileInput_Bio :: string

record ListUsersInput =
  ListUsersInput_Limit :: int
  ListUsersInput_Offset :: int
  ListUsersInput_Email :: string
  ListUsersInput_Sort :: string

record ListUsersOutput =
  ListUsersOutput_Users :: "User list"
  ListUsersOutput_Total :: int

definition input_fields :: "(string \<Rightarrow> bool) \<Rightarrow> string \<Rightarrow> string \<Rightarrow> int \<Rightarrow> fields" where
  "input_fields parseAddress name email age =
     (if TrimSpace name = '''' then [(''name'', ''is required'')]
      else if length name < 2 \<or> length name > 100 then [(''name'', ''min len 2 and max len 100'')]
      else []) @
     (if TrimSpace email = '''' then [(''email'', ''is required'')]
      else if length email > 255 then [(''email'', ''max email len is 255'')]
      else if \<not> parseAddress email then [(''email'', ''not valid email'')]
      else []) @
     (if age < 0 \<or> age > 150
      then [(''age'', ''must be greater than or equal to 0 and lower than 150'')] else [])"

definition validateUserInput :: "(string \<Rightarrow> bool) \<Rightarrow> string \<Rightarrow> string \<Rightarrow> int \<Rightarrow> unit prog" where
  "validateUserInput parseAddress name email age =
     (let fields = input_fields parseAddress name email age
      in if length fields > 0 then throw (NewFieldValidationError fields) else ret ())"

definition createOutboxEvent :: "user_env \<Rightarrow> user_TxStores \<Rightarrow> User \<Rightarrow> unit prog" where
  "createOutboxEvent env stores created =
     (case MarshalUserRegistered (uenv_marshal env) (User_ID created) (User_Email created) (User_Role created) of
        Inl err \<Rightarrow> throw err
      | Inr payload \<Rightarrow>
          andThen (mapErr (wrapf ''create user registered outbox event'')
                     (Store_Create (TxStores_OutBoxStore stores)
                        (new_OutboxEvent EventTypeUserRegistered AggregateUser (FormatInt (User_ID created))
                           payload ContentTypeProtobuf ProtoMessageUserRegistered EventVersionV1))) (\<lambda>_. ret ()))"

section \<open>The operations\<close>

definition create_user_tx :: "user_env \<Rightarrow> string \<Rightarrow> string \<Rightarrow> int \<Rightarrow> string \<Rightarrow> user_TxStores \<Rightarrow> captured prog" where
  "create_user_tx env name email age password stores =
     andThen (mapErr (wrapf ''create user'') (Repository_ExistsByEmail (TxStores_UserRepo stores) email)) (\<lambda>exists.
     if exists then throw NewEmailAlreadyExistsError
     else andThen (mapErr (wrapf ''create user'')
                     (Repository_Create (TxStores_UserRepo stores)
                        (zero_User\<lparr>User_Name := name, User_Email := email, User_Age := age,
                                   User_PasswordHash := password\<rparr>))) (\<lambda>created.
          andThen (mapErr (wrapf ''create outbox event'') (createOutboxEvent env stores created)) (\<lambda>_.
            ret (created, None))))"

definition CreateUser :: "user_Service \<Rightarrow> CreateUserInput \<Rightarrow> User prog" where
  "CreateUser s request =
     (case user_txFactory s of
        None \<Rightarrow> throw (NewError ''tx factory is nil'')
      | Some withinTx \<Rightarrow>
          (let name = TrimSpace (CreateUserInput_Name request);
               email = normalize_email (uenv_lower (user_lib s)) (CreateUserInput_Email request);
               age = CreateUserInput_Age request
           in andThen (validateUserInput (uenv_ParseAddress (user_lib s)) name email age) (\<lambda>_.
              andThen (PasswordHasher_Hash (uenv_bcrypt (user_lib s)) (user_hasher s)
                         (CreateUserInput_Password request)) (\<lambda>password.
              andThen (withinTx (create_user_tx (user_lib s) name email age password)) (\<lambda>(created, _).
                ret created)))))"

definition GetUser :: "user_Service \<Rightarrow> int \<Rightarrow> User prog" where
  "GetUser s i =
     (let fromRepo =
        andThen (mapErr (\<lambda>err. if errors_Is err ErrUserNotFound then NewUserNotFoundError
                               else wrapf (''find user by id '' @ FormatInt i) err)
                   (Repository_FindByID (user_repo s) i)) (\<lambda>user.
          case user_cache s of
            None \<Rightarrow> ret user
          | Some cache \<Rightarrow> attempt (Cache_SetUser cache user (user_cacheTTL s)) (\<lambda>_. ret user))
      in if i \<le> 0 then throw NewInvalidUserIDError
         else case user_cache s of
             None \<Rightarrow> fromRepo
           | Some cache \<Rightarrow> attempt (Cache_GetUser cache i) (\<lambda>r. case r of
                 Inr (cached, ok) \<Rightarrow> if ok then ret cached else fromRepo
               | Inl _ \<Rightarrow> fromRepo))"

definition ListUsers :: "user_Service \<Rightarrow> ListUsersInput \<Rightarrow> ListUsersOutput prog" where
  "ListUsers s input =
     (let email = normalize_email (uenv_lower (user_lib s)) (ListUsersInput_Email input)
      in andThen (mapErr (wrapf ''list users'')
           (Repository_List (user_repo s)
              \<lparr>ListUsersFilter_Limit = ListUsersInput_Limit input, ListUsersFilter_Offset = ListUsersInput_Offset input,
               ListUsersFilter_Email = email, ListUsersFilter_Sort = ListUsersInput_Sort input\<rparr>)) (\<lambda>result.
         ret \<lparr>ListUsersOutput_Users = ListUsersResult_Users result, ListUsersOutput_Total = ListUsersResult_Total result\<rparr>))"

definition invalidate :: "user_Service \<Rightarrow> int \<Rightarrow> 'a \<Rightarrow> 'a prog" where
  "invalidate s i a =
     (case user_cache s of None \<Rightarrow> ret a | Some cache \<Rightarrow> attempt (Cache_DeleteUser cache i) (\<lambda>_. ret a))"

definition UpdateUser :: "user_Service \<Rightarrow> int \<Rightarrow> UpdateUserInput \<Rightarrow> User prog" where
  "UpdateUser s i user =
     (let name = TrimSpace (UpdateUserInput_Name user);
          email = normalize_email (uenv_lower (user_lib s)) (UpdateUserInput_Email user);
          age = UpdateUserInput_Age user
      in if i \<le> 0 then throw NewInvalidUserIDError
         else
           andThen (validateUserInput (uenv_ParseAddress (user_lib s)) name email age) (\<lambda>_.
           andThen (mapErr (\<lambda>err. if errors_Is err ErrUserNotFound then NewUserNotFoundError
                                  else Errorf (''update user by id: '' @ FormatInt i @ '', '') err '''')
                      (Repository_FindByID (user_repo s) i)) (\<lambda>existing.
           andThen (if User_Email existing \<noteq> email
                    then andThen (mapErr (wrapf ''checked email exists'')
                                    (Repository_ExistsByEmail (user_repo s) email)) (\<lambda>exists.
                           if exists then throw NewEmailAlreadyExistsError else ret ())
                    else ret ()) (\<lambda>_.
           andThen (mapErr (\<lambda>err. if errors_Is err ErrUserNotFound then NewUserNotFoundError
                                  else Errorf (''update user by id '' @ FormatInt i @ '': '') err '' '')
                      (Repository_Update (user_repo s)
                         (zero_User\<lparr>User_ID := i, User_Name := name, User_Email := email, User_Age := age\<rparr>)))
             (\<lambda>updated. invalidate s i updated)))))"

definition DeleteUser :: "user_Service \<Rightarrow> int \<Rightarrow> unit prog" where
  "DeleteUser s i =
     (if i \<le> 0 then throw NewInvalidUserIDError
      else andThen (mapErr (\<lambda>err. if errors_Is err ErrUserNotFound then NewUserNotFoundError
                                  else wrapf (''delete user by id '' @ FormatInt i) err)
                      (Repository_Delete (user_repo s) i)) (\<lambda>_. invalidate s i ()))"

definition GetUserByEmail :: "user_Service \<Rightarrow> string \<Rightarrow> User prog" where
  "GetUserByEmail s email =
     (let email = normalize_email (uenv_lower (user_lib s)) email
      in if email = '''' then throw (NewFieldValidationError [(''email'', ''is required'')])
         else mapErr (\<lambda>err. if errors_Is err ErrUserNotFound then NewUserNotFoundError
                            else wrapf (''get user by email '' @ email) err)
                (Repository_FindByEmail (user_repo s) email))"

definition with_profile_tx ::
  "user_env \<Rightarrow> string \<Rightarrow> string \<Rightarrow> int \<Rightarrow> string \<Rightarrow> string \<Rightarrow> user_TxStores \<Rightarrow> captured prog" where
  "with_profile_tx env name email age bio passwordHash stores =
     andThen (mapErr (wrapf ''check email exists'') (Repository_ExistsByEmail (TxStores_UserRepo stores) email)) (\<lambda>exists.
     if exists then throw NewEmailAlreadyExistsError
     else andThen (mapErr (\<lambda>err. if errors_Is err ErrEmailAlreadyExists then NewEmailAlreadyExistsError
                                 else wrapf ''create user'' err)
                     (Repository_Create (TxStores_UserRepo stores)
                        (zero_User\<lparr>User_Name := name, User_Email := email, User_Age := age,
                                   User_PasswordHash := passwordHash\<rparr>))) (\<lambda>createdUser.
          andThen (mapErr (wrapf ''create user profile'')
                     (Repository_CreateProfile (TxStores_UserRepo stores)
                        (zero_Profile\<lparr>Profile_UserID := User_ID createdUser, Profile_Bio := bio\<rparr>))) (\<lambda>createdProfile.
          andThen (mapErr (wrapf ''create outbox event'') (createOutboxEvent env stores createdUser)) (\<lambda>_.
            ret (createdUser, Some createdProfile)))))"

definition CreateUserWithProfile :: "user_Service \<Rightarrow> CreateUserWithProfileInput \<Rightarrow> ProfileWithUser prog" where
  "CreateUserWithProfile s input =
     (case user_txFactory s of
        None \<Rightarrow> throw (NewError ''tx factory is nil'')
      | Some withinTx \<Rightarrow>
          andThen (validateUserInput (uenv_ParseAddress (user_lib s)) (WithProfileInput_Name input)
                     (WithProfileInput_Email input) (WithProfileInput_Age input)) (\<lambda>_.
          let name = TrimSpace (WithProfileInput_Name input);
              email = normalize_email (uenv_lower (user_lib s)) (WithProfileInput_Email input);
              age = WithProfileInput_Age input;
              bio = TrimSpace (WithProfileInput_Bio input)
          in andThen (PasswordHasher_Hash (uenv_bcrypt (user_lib s)) (user_hasher s)
                        (WithProfileInput_Password input)) (\<lambda>passwordHash.
             andThen (withinTx (with_profile_tx (user_lib s) name email age bio passwordHash)) (\<lambda>(usr, pr).
               ret \<lparr>ProfileWithUser_User = usr,
                    ProfileWithUser_Profile = (case pr of Some q \<Rightarrow> q | None \<Rightarrow> zero_Profile)\<rparr>))))"

section \<open>What a creation does\<close>

text \<open>The outbox event that announces a user.\<close>

definition announces :: "(UserRegistered \<Rightarrow> go_error + string) \<Rightarrow> User \<Rightarrow> OutboxEvent \<Rightarrow> bool" where
  "announces marshal u ev \<longleftrightarrow>
     OutboxEvent_Status ev = StatusNew \<and> OutboxEvent_EventType ev = EventTypeUserRegistered \<and>
     OutboxEvent_AggregateType ev = AggregateUser \<and> OutboxEvent_AggregateID ev = FormatInt (User_ID u) \<and>
     OutboxEvent_ContentType ev = ContentTypeProtobuf \<and>
     OutboxEvent_ProtoMessage ev = ProtoMessageUserRegistered \<and> OutboxEvent_EventVersion ev = EventVersionV1 \<and>
     marshal \<lparr>UserRegistered_UserId = User_ID u, UserRegistered_Email = User_Email u,
       UserRegistered_Role = User_Role u\<rparr> = Inr (OutboxEvent_Payload ev)"

text \<open>
  Seen abstractly, a creation appends a row with the given data and a fresh email, the profiles
  of the given texts that belong to it, and the event that announces it.
\<close>

definition user_created ::
  "user_env \<Rightarrow> string \<Rightarrow> string \<Rightarrow> int \<Rightarrow> string \<Rightarrow> string list \<Rightarrow> tables \<Rightarrow> tables \<Rightarrow> User \<Rightarrow> Profile list \<Rightarrow> bool" where
  "user_created env name email age hash bios d d' u ps \<longleftrightarrow>
     (\<exists>row ev. d' = d\<lparr>users := users d @ [row], user_profiles := user_profiles d @ ps,
                     outbox_events := outbox_events d @ [ev]\<rparr> \<and>
        u = scan_user row \<and> User_Name row = name \<and> User_Email row = email \<and>
        email \<notin> set (map User_Email (users d)) \<and> User_Age row = age \<and> User_Role row = RoleUser \<and>
        User_PasswordHash row = hash \<and> map Profile_Bio ps = bios \<and>
        (\<forall>p \<in> set ps. Profile_UserID p = User_ID row) \<and> announces (uenv_marshal env) row ev)"

text \<open>The entry of an id, if any, is the JSON view of the row of that id.\<close>

definition cache_coherent_at :: "(world \<Rightarrow> int \<Rightarrow> User option) \<Rightarrow> int \<Rightarrow> world \<Rightarrow> bool" where
  "cache_coherent_at look i w \<longleftrightarrow> (\<forall>u. look w i = Some u \<longrightarrow>
     (\<exists>row. find (\<lambda>r. User_ID r = i) (users (db w)) = Some row \<and> u = cache_view row))"

text \<open>What a lookup may answer: the row of the id, without its password hash, or its JSON view.\<close>

definition answers :: "int \<Rightarrow> User \<Rightarrow> world \<Rightarrow> bool" where
  "answers i u w \<longleftrightarrow> (\<exists>row. find (\<lambda>r. User_ID r = i) (users (db w)) = Some row \<and>
     (u = scan_user row \<or> u = cache_view row))"

section \<open>What the operations rely on\<close>

locale user_deps = usr: user_repository U + obx: outbox_store S + txf: tx_factory run uncertain +
    csh: cache_contract K look
  for U :: Repository and S :: Store and run :: "captured prog \<Rightarrow> captured prog"
    and uncertain :: "go_error \<Rightarrow> bool" and K :: Cache and look :: "world \<Rightarrow> int \<Rightarrow> User option" +
  fixes s :: user_Service
  assumes wiring: "user_repo s = U" "user_cache s = Some K"
    "user_txFactory s = Some (\<lambda>fn. run (fn \<lparr>TxStores_UserRepo = U, TxStores_OutBoxStore = S\<rparr>))"
begin

abbreviation stores :: user_TxStores where
  "stores \<equiv> \<lparr>TxStores_UserRepo = U, TxStores_OutBoxStore = S\<rparr>"

lemma createOutboxEvent_only:
  "db_only (createOutboxEvent env stores u)" "keeps (consistent q) (createOutboxEvent env stores u)"
  unfolding createOutboxEvent_def user_TxStores.simps
  by (intro db_only_intros keeps_intros obx.only_db obx.keeps_schema)+

lemma create_user_tx_only:
  "db_only (create_user_tx env name email age h stores)"
  "keeps (consistent q) (create_user_tx env name email age h stores)"
  unfolding create_user_tx_def user_TxStores.simps
  by (intro db_only_intros keeps_intros usr.only_db usr.repo_consistent createOutboxEvent_only)+

lemma with_profile_tx_only:
  "db_only (with_profile_tx env name email age bio h stores)"
  "keeps (consistent q) (with_profile_tx env name email age bio h stores)"
  unfolding with_profile_tx_def user_TxStores.simps
  by (intro db_only_intros keeps_intros usr.only_db usr.repo_consistent createOutboxEvent_only)+

lemma createOutboxEvent_Inr:
  assumes "createOutboxEvent env stores u w = (Inr x, w')"
  shows "\<exists>ev. announces (uenv_marshal env) u ev \<and>
    db w' = (db w)\<lparr>outbox_events := outbox_events (db w) @ [ev]\<rparr>"
proof -
  from assms obtain pl ev w1 where 1: "MarshalUserRegistered (uenv_marshal env) (User_ID u) (User_Email u) (User_Role u) = Inr pl"
    and 2: "Store_Create S (new_OutboxEvent EventTypeUserRegistered AggregateUser (FormatInt (User_ID u)) pl
       ContentTypeProtobuf ProtoMessageUserRegistered EventVersionV1) w = (Inr ev, w1)" and 3: "w1 = w'"
    unfolding createOutboxEvent_def user_TxStores.simps
    by (auto elim!: andThen_InrE dest!: mapErr_InrD split: sum.splits)
  from obx.create_Inr [OF 2] 3 obtain t where
    "ev = outbox_row (outbox_events_id_seq (seqs w) + 1) (new_OutboxEvent EventTypeUserRegistered AggregateUser
       (FormatInt (User_ID u)) pl ContentTypeProtobuf ProtoMessageUserRegistered EventVersionV1) t"
    "db w' = (db w)\<lparr>outbox_events := outbox_events (db w) @ [ev]\<rparr>" by blast
  with 1 show ?thesis
    by (intro exI [of _ ev]) (auto simp: announces_def outbox_row_def new_OutboxEvent_def
        MarshalUserRegistered_def split: sum.splits)
qed

lemma announces_scan [simp]: "announces m (scan_user u) ev = announces m u ev"
  by (simp add: announces_def scan_user_def)

lemma create_user_tx_Inr:
  assumes "create_user_tx env name email age h stores w = (Inr (u, pr), w')"
  shows "pr = None \<and> user_created env name email age h [] (db w) (db w') u []"
proof -
  let ?u = "zero_User\<lparr>User_Name := name, User_Email := email, User_Age := age, User_PasswordHash := h\<rparr>"
  from assms obtain w1 w2 x where
    1: "Repository_ExistsByEmail U email w = (Inr False, w1)" and
    2: "Repository_Create U ?u w1 = (Inr u, w2)" and
    3: "createOutboxEvent env stores u w2 = (Inr x, w')" and pr: "pr = None"
    unfolding create_user_tx_def user_TxStores.simps
    by (auto elim!: andThen_InrE dest!: mapErr_InrD split: if_splits)
  have d: "db w1 = db w" "seqs w1 = seqs w"
    using frameD [OF usr.readers(4) 1] frameD [OF usr.readers(9) 1] by auto
  from usr.create_Inr [OF 2] obtain t where
    u: "u = scan_user (user_row (users_id_seq (seqs w) + 1) ?u t)" "email \<notin> set (map User_Email (users (db w)))"
      "db w2 = (db w)\<lparr>users := users (db w) @ [user_row (users_id_seq (seqs w) + 1) ?u t]\<rparr>"
    unfolding d by auto
  from createOutboxEvent_Inr [OF 3] obtain ev where
    ev: "announces (uenv_marshal env) u ev" "db w' = (db w2)\<lparr>outbox_events := outbox_events (db w2) @ [ev]\<rparr>"
    by blast
  note ann = ev(1) [unfolded u(1) announces_scan]
  show ?thesis unfolding user_created_def
    by (intro conjI pr exI [of _ "user_row (users_id_seq (seqs w) + 1) ?u t"] exI [of _ ev])
      (use u ann ev(2) in \<open>simp_all add: user_row_def zero_User_def\<close>)
qed

lemma with_profile_tx_Inr:
  assumes "with_profile_tx env name email age bio h stores w = (Inr (u, pr), w')"
  shows "\<exists>p. pr = Some p \<and> user_created env name email age h [bio] (db w) (db w') u [p]"
proof -
  let ?u = "zero_User\<lparr>User_Name := name, User_Email := email, User_Age := age, User_PasswordHash := h\<rparr>"
  let ?p = "\<lambda>u. zero_Profile\<lparr>Profile_UserID := User_ID u, Profile_Bio := bio\<rparr>"
  from assms obtain w1 w2 p w3 x where
    1: "Repository_ExistsByEmail U email w = (Inr False, w1)" and
    2: "Repository_Create U ?u w1 = (Inr u, w2)" and
    3: "Repository_CreateProfile U (?p u) w2 = (Inr p, w3)" and
    4: "createOutboxEvent env stores u w3 = (Inr x, w')" and pr: "pr = Some p"
    unfolding with_profile_tx_def user_TxStores.simps
    by (auto elim!: andThen_InrE dest!: mapErr_InrD split: if_splits)
  have d: "db w1 = db w" "seqs w1 = seqs w"
    using frameD [OF usr.readers(4) 1] frameD [OF usr.readers(9) 1] by auto
  from usr.create_Inr [OF 2] obtain t where
    u: "u = scan_user (user_row (users_id_seq (seqs w) + 1) ?u t)" "email \<notin> set (map User_Email (users (db w)))"
      "db w2 = (db w)\<lparr>users := users (db w) @ [user_row (users_id_seq (seqs w) + 1) ?u t]\<rparr>"
    unfolding d by auto
  from usr.create_profile_Inr [OF 3] have
    p: "Profile_UserID p = User_ID u" "Profile_Bio p = bio"
      "db w3 = (db w2)\<lparr>user_profiles := user_profiles (db w2) @ [p]\<rparr>" by auto
  from createOutboxEvent_Inr [OF 4] obtain ev where
    ev: "announces (uenv_marshal env) u ev" "db w' = (db w3)\<lparr>outbox_events := outbox_events (db w3) @ [ev]\<rparr>"
    by blast
  note ann = ev(1) [unfolded u(1) announces_scan]
  show ?thesis unfolding user_created_def
    by (intro exI [of _ p] conjI pr exI [of _ "user_row (users_id_seq (seqs w) + 1) ?u t"] exI [of _ ev])
      (use u ann p ev(2) in \<open>simp_all add: user_row_def zero_User_def scan_user_def\<close>)
qed

text \<open>Hash the password, then run a transaction: nothing happened, or the closure ran.\<close>

lemma hashed_tx_cases:
  assumes "andThen (PasswordHasher_Hash B h pw) (\<lambda>hash. andThen (run (body hash)) (\<lambda>x. ret (g x))) w = (r, w')"
    and fr: "\<And>hash. frame tx (body hash)"
  obtains (nothing) e where "r = Inl e" "db w' = db w"
    | (ran) salt hash w0 c p a w1 where
        "bcrypt_GenerateFromPassword B salt pw (PasswordHasher_cost h) = Inr hash"
        "body hash (started c p w0) = (Inr a, w1)" "db w0 = db w" "seqs w0 = seqs w" "db w' = db w1"
        "r = Inr (g a) \<or> (\<exists>e. r = Inl e \<and> uncertain e)"
proof -
  obtain q w0 where H: "PasswordHasher_Hash B h pw w = (q, w0)" by (cases "PasswordHasher_Hash B h pw w")
  have d: "db w0 = db w" "seqs w0 = seqs w"
    using frameD [OF Hash_only(2) H] frameD [OF Hash_only(3) H] by auto
  show thesis
  proof (cases q)
    case (Inl e)
    with assms(1) H d show thesis by (intro that(1) [of e]) (auto simp: andThen_def)
  next
    case (Inr hash)
    from Hash_generated [OF H [unfolded Inr]] obtain salt where
      salt: "bcrypt_GenerateFromPassword B salt pw (PasswordHasher_cost h) = Inr hash" by blast
    obtain q' w2 where R: "run (body hash) w0 = (q', w2)" by (cases "run (body hash) w0")
    from assms(1) H Inr R have r: "r = (case q' of Inl e \<Rightarrow> Inl e | Inr a \<Rightarrow> Inr (g a))" "w' = w2"
      by (auto simp: andThen_def ret_def split: sum.splits)
    from fr R show thesis
    proof (cases rule: txf.run_outcome)
      case (nothing e)
      with r d show thesis by (intro that(1) [of e]) auto
    next
      case (ran c p a w1)
      from ran(4) r(1) have "r = Inr (g a) \<or> (\<exists>e. r = Inl e \<and> uncertain e)" by auto
      with that(2) [OF salt ran(2) d] ran(3) r(2) show thesis by simp
    qed
  qed
qed

lemma validateUserInput_state:
  "validateUserInput pa name email age w =
     (if input_fields pa name email age = [] then Inr ()
      else Inl (NewFieldValidationError (input_fields pa name email age)), w)"
  by (simp add: validateUserInput_def Let_def throw_def ret_def)

lemma CreateUser_cases:
  assumes "CreateUser s req w = (r, w')"
  obtains (nothing) e where "r = Inl e" "db w' = db w"
    | (created) salt hash u where
        "bcrypt_GenerateFromPassword (uenv_bcrypt (user_lib s)) salt (CreateUserInput_Password req)
           (PasswordHasher_cost (user_hasher s)) = Inr hash"
        "input_fields (uenv_ParseAddress (user_lib s)) (TrimSpace (CreateUserInput_Name req))
           (normalize_email (uenv_lower (user_lib s)) (CreateUserInput_Email req)) (CreateUserInput_Age req) = []"
        "user_created (user_lib s) (TrimSpace (CreateUserInput_Name req))
           (normalize_email (uenv_lower (user_lib s)) (CreateUserInput_Email req)) (CreateUserInput_Age req) hash []
           (db w) (db w') u []"
        "r = Inr u \<or> (\<exists>e. r = Inl e \<and> uncertain e)"
proof -
  let ?n = "TrimSpace (CreateUserInput_Name req)" and ?a = "CreateUserInput_Age req"
  let ?m = "normalize_email (uenv_lower (user_lib s)) (CreateUserInput_Email req)"
  let ?f = "input_fields (uenv_ParseAddress (user_lib s)) ?n ?m ?a"
  let ?b = "\<lambda>h. create_user_tx (user_lib s) ?n ?m ?a h stores"
  show thesis
  proof (cases "?f = []")
    case False
    with assms show thesis
      by (intro that(1) [of "NewFieldValidationError ?f"])
        (auto simp: CreateUser_def wiring andThen_def validateUserInput_state Let_def)
  next
    case True
    from assms True have 1: "andThen (PasswordHasher_Hash (uenv_bcrypt (user_lib s)) (user_hasher s)
          (CreateUserInput_Password req)) (\<lambda>h. andThen (run (?b h)) (\<lambda>x. ret (fst x))) w = (r, w')"
      by (simp add: CreateUser_def wiring validateUserInput_state Let_def case_prod_unfold
          andThen_Inr [where m = "validateUserInput pa nm em ag" for pa nm em ag])
    have fr: "frame tx (?b h)" for h by (rule db_only_frames(1) [OF create_user_tx_only(1)])
    from 1 fr show thesis
    proof (cases rule: hashed_tx_cases)
      case (nothing e)
      then show thesis by (rule that(1))
    next
      case (ran salt hash w0 c p a w1)
      obtain u q where a: "a = (u, q)" by (cases a)
      from create_user_tx_Inr [OF ran(2) [unfolded a]] ran(3,5) have
        "user_created (user_lib s) ?n ?m ?a hash [] (db w) (db w') u []" by simp
      from that(2) [OF ran(1) True this] ran(6) a show thesis by simp
    qed
  qed
qed

lemma CreateUserWithProfile_cases:
  assumes "CreateUserWithProfile s req w = (r, w')"
  obtains (nothing) e where "r = Inl e" "db w' = db w"
    | (created) salt hash u p where
        "bcrypt_GenerateFromPassword (uenv_bcrypt (user_lib s)) salt (WithProfileInput_Password req)
           (PasswordHasher_cost (user_hasher s)) = Inr hash"
        "input_fields (uenv_ParseAddress (user_lib s)) (WithProfileInput_Name req)
           (WithProfileInput_Email req) (WithProfileInput_Age req) = []"
        "user_created (user_lib s) (TrimSpace (WithProfileInput_Name req))
           (normalize_email (uenv_lower (user_lib s)) (WithProfileInput_Email req)) (WithProfileInput_Age req) hash
           [TrimSpace (WithProfileInput_Bio req)] (db w) (db w') u [p]"
        "r = Inr \<lparr>ProfileWithUser_User = u, ProfileWithUser_Profile = p\<rparr> \<or> (\<exists>e. r = Inl e \<and> uncertain e)"
proof -
  let ?n = "TrimSpace (WithProfileInput_Name req)" and ?a = "WithProfileInput_Age req"
  let ?m = "normalize_email (uenv_lower (user_lib s)) (WithProfileInput_Email req)"
  let ?bio = "TrimSpace (WithProfileInput_Bio req)"
  let ?f = "input_fields (uenv_ParseAddress (user_lib s)) (WithProfileInput_Name req)
           (WithProfileInput_Email req) (WithProfileInput_Age req)"
  let ?b = "\<lambda>h. with_profile_tx (user_lib s) ?n ?m ?a ?bio h stores"
  let ?g = "\<lambda>x. \<lparr>ProfileWithUser_User = fst x,
     ProfileWithUser_Profile = (case snd x of Some q \<Rightarrow> q | None \<Rightarrow> zero_Profile)\<rparr>"
  show thesis
  proof (cases "?f = []")
    case False
    with assms show thesis
      by (intro that(1) [of "NewFieldValidationError ?f"])
        (auto simp: CreateUserWithProfile_def wiring andThen_def validateUserInput_state)
  next
    case True
    from assms True have 1: "andThen (PasswordHasher_Hash (uenv_bcrypt (user_lib s)) (user_hasher s)
          (WithProfileInput_Password req)) (\<lambda>h. andThen (run (?b h)) (\<lambda>x. ret (?g x))) w = (r, w')"
      by (simp add: CreateUserWithProfile_def wiring validateUserInput_state Let_def case_prod_unfold
          andThen_Inr [where m = "validateUserInput pa nm em ag" for pa nm em ag])
    have fr: "frame tx (?b h)" for h by (rule db_only_frames(1) [OF with_profile_tx_only(1)])
    from 1 fr show thesis
    proof (cases rule: hashed_tx_cases)
      case (nothing e)
      then show thesis by (rule that(1))
    next
      case (ran salt hash w0 c p a w1)
      obtain u q where a: "a = (u, q)" by (cases a)
      from with_profile_tx_Inr [OF ran(2) [unfolded a]] ran(3,5) obtain pr where pr: "q = Some pr"
        "user_created (user_lib s) ?n ?m ?a hash [?bio] (db w) (db w') u [pr]" by auto
      from that(2) [OF ran(1) True pr(2)] ran(6) a pr(1) show thesis by simp
    qed
  qed
qed

abbreviation coherent_at :: "int \<Rightarrow> world \<Rightarrow> bool" where
  "coherent_at \<equiv> cache_coherent_at look"

lemma coherent_atD:
  "coherent_at i w \<Longrightarrow> look w i = Some u \<Longrightarrow>
     \<exists>row. find (\<lambda>r. User_ID r = i) (users (db w)) = Some row \<and> u = cache_view row"
  by (auto simp: cache_coherent_at_def)

text \<open>What keeps the rows of an id and adds no entry keeps its coherence.\<close>

lemma coherent_at_mono:
  assumes "coherent_at i w" and "\<And>u. look w' i = Some u \<Longrightarrow> look w i = Some u"
    and "find (\<lambda>r. User_ID r = i) (users (db w')) = find (\<lambda>r. User_ID r = i) (users (db w))"
  shows "coherent_at i w'"
  using assms unfolding cache_coherent_at_def by simp

lemma look_db_only:
  "db_only m \<Longrightarrow> m w = (r, w') \<Longrightarrow> look w' i = Some u \<Longrightarrow> look w i = Some u"
  by (drule (1) db_onlyD) (auto simp: db_step_def intro: csh.look_world)

lemma find_by_id_coherent:
  assumes "coherent_at j w" and "Repository_FindByID U i w = (r, w1)"
  shows "coherent_at j w1"
  by (rule coherent_at_mono [OF assms(1) look_db_only [OF usr.only_db(2) assms(2)]])
    (simp_all add: frameD [OF usr.readers(1) assms(2)])

lemma cache_view_scan [simp]: "cache_view (scan_user u) = cache_view u"
  by (simp add: cache_view_def scan_user_def)

lemma SetUser_coherent:
  assumes "coherent_at j w" and "Cache_SetUser K (scan_user row) ttl w = (r, w1)"
    and "find (\<lambda>r. User_ID r = User_ID row) (users (db w)) = Some row"
  shows "coherent_at j w1"
proof -
  have d: "db w1 = db w" by (rule frameD [OF csh.cache_frames(2) assms(2)])
  show ?thesis
    unfolding cache_coherent_at_def d
  proof (intro allI impI)
    fix u assume "look w1 j = Some u"
    from csh.set_look [OF assms(2) this] assms(1,3)
    show "\<exists>row. find (\<lambda>r. User_ID r = j) (users (db w)) = Some row \<and> u = cache_view row"
      by (auto simp: scan_user_def [of row] dest: coherent_atD) (simp_all add: cache_view_def)
  qed
qed

text \<open>The lookup in the repository, which fills the cache.\<close>

lemma from_repo:
  assumes "\<And>j. coherent_at j w"
    and "andThen (mapErr f (Repository_FindByID U i)) (\<lambda>user. attempt (Cache_SetUser K user ttl) (\<lambda>_. ret user)) w = (r, w')"
  shows "db w' = db w \<and> coherent_at j w' \<and> (\<forall>u. r = Inr u \<longrightarrow> answers i u w)"
proof -
  obtain q w1 where 1: "Repository_FindByID U i w = (q, w1)" by (cases "Repository_FindByID U i w")
  have d: "db w1 = db w" by (rule frameD [OF usr.readers(1) 1])
  have c: "coherent_at j w1" for j by (rule find_by_id_coherent [OF assms(1) 1])
  show ?thesis
  proof (cases q)
    case (Inl e)
    with assms(2) 1 d c show ?thesis by (auto simp: andThen_def mapErr_def)
  next
    case (Inr u)
    from usr.find_by_id_Inr [OF 1 [unfolded Inr]] obtain row where
      row: "find (\<lambda>r. User_ID r = i) (users (db w)) = Some row" "u = scan_user row" by blast
    then have i: "User_ID row = i" by (auto dest: find_SomeD)
    obtain q2 w2 where 2: "Cache_SetUser K u ttl w1 = (q2, w2)" by (cases "Cache_SetUser K u ttl w1")
    from SetUser_coherent [OF c 2 [unfolded row(2)], of j] row(1) i d have "coherent_at j w2" by simp
    moreover have "db w2 = db w" using frameD [OF csh.cache_frames(2) 2] d by simp
    moreover from assms(2) 1 2 Inr have "r = Inr u" "w' = w2"
      by (auto simp: andThen_def mapErr_def attempt_def)
    ultimately show ?thesis using row by (auto simp: answers_def)
  qed
qed

lemma GetUser_coherent:
  assumes "\<And>j. coherent_at j w" and "GetUser s i w = (r, w')"
  shows "db w' = db w \<and> coherent_at j w' \<and> (\<forall>u. r = Inr u \<longrightarrow> answers i u w)"
proof (cases "i \<le> 0")
  case True
  with assms show ?thesis by (simp add: GetUser_def)
next
  case False
  obtain q w1 where 1: "Cache_GetUser K i w = (q, w1)" by (cases "Cache_GetUser K i w")
  have d: "db w1 = db w" by (rule frameD [OF csh.cache_frames(1) 1])
  have c: "coherent_at j w1" for j
    by (rule coherent_at_mono [OF assms(1) csh.get_look [OF 1]]) (simp_all add: d)
  show ?thesis
  proof (cases "\<exists>u. q = Inr (u, True)")
    case True
    then obtain u where u: "q = Inr (u, True)" by blast
    with assms(2) 1 False have "r = Inr u" "w' = w1" by (simp_all add: GetUser_def wiring attempt_def Let_def)
    moreover from csh.get_Inr [OF 1 [unfolded u]] have "look w i = Some u" by simp
    ultimately show ?thesis using coherent_atD [OF assms(1)] c d by (auto simp: answers_def)
  next
    case miss: False
    with assms(2) 1 False have
      "andThen (mapErr (\<lambda>err. if errors_Is err ErrUserNotFound then NewUserNotFoundError
          else wrapf (''find user by id '' @ FormatInt i) err) (Repository_FindByID U i))
        (\<lambda>user. attempt (Cache_SetUser K user (user_cacheTTL s)) (\<lambda>_. ret user)) w1 = (r, w')"
      by (cases q) (auto simp: GetUser_def wiring attempt_def Let_def split: if_splits)
    from from_repo [OF c this, of j] d show ?thesis by (simp add: answers_def)
  qed
qed

text \<open>
  An update or a deletion that succeeds, followed by the deletion of the entry: the other ids keep
  their coherence, and the id itself has no entry if the cache confirmed the deletion.
\<close>

lemma invalidate_coherent:
  assumes "invalidate s i a w = (r, w')" and "\<And>j. j \<noteq> i \<Longrightarrow> coherent_at j w"
  shows "r = Inr a \<and> db w' = db w \<and> (\<forall>j. j \<noteq> i \<longrightarrow> coherent_at j w') \<and>
    (\<exists>wd dr. Cache_DeleteUser K i wd = (dr, w') \<and> (dr = Inr () \<longrightarrow> coherent_at i w'))"
proof -
  obtain dr w1 where 1: "Cache_DeleteUser K i w = (dr, w1)" by (cases "Cache_DeleteUser K i w")
  with assms(1) have r: "r = Inr a" "w' = w1" by (auto simp: invalidate_def wiring attempt_def)
  have d: "db w1 = db w" by (rule frameD [OF csh.cache_frames(3) 1])
  have "coherent_at j w1" if "j \<noteq> i" for j
    by (rule coherent_at_mono [OF assms(2) [OF that] csh.del_look [OF 1]]) (simp_all add: d)
  moreover have "dr = Inr () \<longrightarrow> coherent_at i w1"
    using csh.del_Inr [of i w "()" w1] 1 by (auto simp: cache_coherent_at_def)
  ultimately show ?thesis using r d 1 by blast
qed

lemma validate_InrD:
  "validateUserInput pa name email age w = (Inr x, w') \<Longrightarrow> input_fields pa name email age = [] \<and> w' = w"
  by (auto simp: validateUserInput_state split: if_splits)

lemma find_update_where:
  assumes "\<And>r. User_ID (f r) = User_ID r" and "j \<noteq> i"
  shows "find (\<lambda>r. User_ID r = j) (update_where (\<lambda>r. User_ID r = i) f us) = find (\<lambda>r. User_ID r = j) us"
  by (induction us) (use assms in auto)

lemma find_filter_other:
  "j \<noteq> i \<Longrightarrow> find (\<lambda>r. User_ID r = j) (filter (\<lambda>u. User_ID u \<noteq> i) us) = find (\<lambda>r. User_ID r = j) us"
  by (induction us) auto

lemma UpdateUser_Inr:
  assumes c: "\<And>j. coherent_at j w" and run: "UpdateUser s i inp w = (Inr u, w')"
  shows "\<exists>row t. 0 < i \<and> find (\<lambda>r. User_ID r = i) (users (db w)) = Some row \<and>
      input_fields (uenv_ParseAddress (user_lib s)) (TrimSpace (UpdateUserInput_Name inp))
        (normalize_email (uenv_lower (user_lib s)) (UpdateUserInput_Email inp)) (UpdateUserInput_Age inp) = [] \<and>
      (let upd = (\<lambda>v. v\<lparr>User_Name := TrimSpace (UpdateUserInput_Name inp),
             User_Email := normalize_email (uenv_lower (user_lib s)) (UpdateUserInput_Email inp),
             User_Age := UpdateUserInput_Age inp, User_UpdatedAt := t\<rparr>)
       in u = scan_user (upd row) \<and>
          db w' = (db w)\<lparr>users := update_where (\<lambda>v. User_ID v = i) upd (users (db w))\<rparr>)"
    and "j \<noteq> i \<Longrightarrow> coherent_at j w'"
    and "\<exists>wd dr. Cache_DeleteUser K i wd = (dr, w') \<and> (dr = Inr () \<longrightarrow> coherent_at i w')"
proof -
  let ?n = "TrimSpace (UpdateUserInput_Name inp)" and ?a = "UpdateUserInput_Age inp"
  let ?m = "normalize_email (uenv_lower (user_lib s)) (UpdateUserInput_Email inp)"
  let ?u = "zero_User\<lparr>User_ID := i, User_Name := ?n, User_Email := ?m, User_Age := ?a\<rparr>"
  let ?chk = "\<lambda>ex. if User_Email ex \<noteq> ?m
      then andThen (mapErr (wrapf ''checked email exists'') (Repository_ExistsByEmail U ?m)) (\<lambda>exists.
             if exists then throw NewEmailAlreadyExistsError else ret ()) else ret ()"
  from run have i: "0 < i" by (auto simp: UpdateUser_def Let_def split: if_splits)
  from run i obtain v w0 ex w1 y w2 c w3 where
    0: "validateUserInput (uenv_ParseAddress (user_lib s)) ?n ?m ?a w = (Inr v, w0)" and
    1: "Repository_FindByID U i w0 = (Inr ex, w1)" and
    2: "?chk ex w1 = (Inr y, w2)" and
    3: "Repository_Update U ?u w2 = (Inr c, w3)" and
    4: "invalidate s i c w3 = (Inr u, w')"
    unfolding UpdateUser_def Let_def wiring
    by (auto elim!: andThen_InrE dest!: mapErr_InrD simp del: ret_iff throw_iff)
  note 0 = validate_InrD [OF 0]
  have d1: "db w1 = db w" using frameD [OF usr.readers(1) 1] 0 by simp
  have "db_only (?chk ex)" by (intro db_only_intros usr.only_db)
  note do2 = this
  have "frame db (?chk ex)" by (intro frame_intros usr.readers)
  from frameD [OF this 2] d1 have d2: "db w2 = db w" by simp
  from usr.update_Inr [OF 3] obtain t row where
    u: "find (\<lambda>r. User_ID r = i) (users (db w)) = Some row"
      "c = scan_user (row\<lparr>User_Name := ?n, User_Email := ?m, User_Age := ?a, User_UpdatedAt := t\<rparr>)"
      "db w3 = (db w)\<lparr>users := update_where (\<lambda>v. User_ID v = i)
         (\<lambda>v. v\<lparr>User_Name := ?n, User_Email := ?m, User_Age := ?a, User_UpdatedAt := t\<rparr>) (users (db w))\<rparr>"
    unfolding d2 by auto
  have l: "look w j = Some x" if "look w3 j = Some x" for j x
    using look_db_only [OF usr.only_db(5) 3 that, THEN look_db_only [OF do2 2],
        THEN look_db_only [OF usr.only_db(2) 1]] 0 by simp
  have co: "coherent_at j w3" if "j \<noteq> i" for j
    by (rule coherent_at_mono [OF c l]) (simp_all add: u(3) find_update_where [OF _ that])
  from invalidate_coherent [OF 4 co] have 5: "u = c" "db w' = db w3" "\<forall>j. j \<noteq> i \<longrightarrow> coherent_at j w'"
    "\<exists>wd dr. Cache_DeleteUser K i wd = (dr, w') \<and> (dr = Inr () \<longrightarrow> coherent_at i w')" by auto
  show "\<exists>row t. 0 < i \<and> find (\<lambda>r. User_ID r = i) (users (db w)) = Some row \<and>
      input_fields (uenv_ParseAddress (user_lib s)) ?n ?m ?a = [] \<and>
      (let upd = (\<lambda>v. v\<lparr>User_Name := ?n, User_Email := ?m, User_Age := ?a, User_UpdatedAt := t\<rparr>)
       in u = scan_user (upd row) \<and>
          db w' = (db w)\<lparr>users := update_where (\<lambda>v. User_ID v = i) upd (users (db w))\<rparr>)"
    by (rule exI [of _ row], rule exI [of _ t]) (use i 0 u 5(1,2) in \<open>simp add: Let_def\<close>)
  show "j \<noteq> i \<Longrightarrow> coherent_at j w'" using 5(3) by blast
  show "\<exists>wd dr. Cache_DeleteUser K i wd = (dr, w') \<and> (dr = Inr () \<longrightarrow> coherent_at i w')" by (rule 5(4))
qed

lemma DeleteUser_Inr:
  assumes c: "\<And>j. coherent_at j w" and run: "DeleteUser s i w = (Inr x, w')"
  shows "0 < i \<and> i \<in> set (map User_ID (users (db w))) \<and>
    db w' = (db w)\<lparr>users := filter (\<lambda>u. User_ID u \<noteq> i) (users (db w)),
        user_profiles := filter (\<lambda>p. Profile_UserID p \<noteq> i) (user_profiles (db w)),
        refresh_tokens := filter (\<lambda>t. RefreshToken_UserID t \<noteq> i) (refresh_tokens (db w))\<rparr>"
    and "j \<noteq> i \<Longrightarrow> coherent_at j w'"
    and "\<exists>wd dr. Cache_DeleteUser K i wd = (dr, w') \<and> (dr = Inr () \<longrightarrow> look w' i = None)"
proof -
  from run have i: "0 < i" by (auto simp: DeleteUser_def split: if_splits)
  from run i obtain y w1 where 1: "Repository_Delete U i w = (Inr y, w1)"
    and 2: "invalidate s i () w1 = (Inr x, w')"
    unfolding DeleteUser_def wiring by (auto elim!: andThen_InrE dest!: mapErr_InrD)
  note d = usr.delete_Inr [OF 1]
  have co: "coherent_at j w1" if "j \<noteq> i" for j
    by (rule coherent_at_mono [OF c look_db_only [OF usr.only_db(6) 1]])
      (use d that in \<open>simp_all add: find_filter_other\<close>)
  from invalidate_coherent [OF 2 co] have 5: "db w' = db w1" "\<forall>j. j \<noteq> i \<longrightarrow> coherent_at j w'"
    "\<exists>wd dr. Cache_DeleteUser K i wd = (dr, w')" by auto
  show "0 < i \<and> i \<in> set (map User_ID (users (db w))) \<and>
    db w' = (db w)\<lparr>users := filter (\<lambda>u. User_ID u \<noteq> i) (users (db w)),
        user_profiles := filter (\<lambda>p. Profile_UserID p \<noteq> i) (user_profiles (db w)),
        refresh_tokens := filter (\<lambda>t. RefreshToken_UserID t \<noteq> i) (refresh_tokens (db w))\<rparr>"
    using i d 5(1) by simp
  show "j \<noteq> i \<Longrightarrow> coherent_at j w'" using 5(2) by blast
  from 5(3) obtain wd dr where "Cache_DeleteUser K i wd = (dr, w')" by blast
  with csh.del_Inr [of i wd "()" w'] show "\<exists>wd dr. Cache_DeleteUser K i wd = (dr, w') \<and> (dr = Inr () \<longrightarrow> look w' i = None)"
    by blast
qed

text \<open>Every operation keeps the schema.\<close>

lemma user_ops_only:
  "keeps (consistent q) (CreateUser s cu)" "keeps (consistent q) (CreateUserWithProfile s cp)"
  "keeps (consistent q) (GetUser s i)" "keeps (consistent q) (ListUsers s li)"
  "keeps (consistent q) (UpdateUser s i ui)" "keeps (consistent q) (DeleteUser s i)"
  "keeps (consistent q) (GetUserByEmail s m)"
proof -
  have v: "keeps (consistent q) (validateUserInput pa n m a)" for pa n m a
    by (simp add: keeps_def validateUserInput_state)
  have k: "keeps (consistent q) (Cache_GetUser K i)" "keeps (consistent q) (Cache_SetUser K u ttl)"
    "keeps (consistent q) (Cache_DeleteUser K i)" for i u ttl
    by (rule consistent_frame; rule csh.cache_frames)+
  have iv: "keeps (consistent q) (invalidate s i a)" for i and a :: 'z
    unfolding invalidate_def wiring by (auto intro!: keeps_intros k)
  show "keeps (consistent q) (CreateUser s cu)"
    unfolding CreateUser_def wiring option.case Let_def
    by (intro keeps_intros v consistent_frame Hash_only txf.run_consistent db_only_frames create_user_tx_only)
  show "keeps (consistent q) (CreateUserWithProfile s cp)"
    unfolding CreateUserWithProfile_def wiring option.case Let_def
    by (intro keeps_intros v consistent_frame Hash_only txf.run_consistent db_only_frames with_profile_tx_only)
  show "keeps (consistent q) (GetUser s i)"
    unfolding GetUser_def wiring option.case Let_def by (intro keeps_intros k usr.repo_consistent)
  show "keeps (consistent q) (ListUsers s li)"
    unfolding ListUsers_def wiring Let_def by (intro keeps_intros usr.repo_consistent)
  show "keeps (consistent q) (UpdateUser s i ui)"
    unfolding UpdateUser_def wiring Let_def by (intro keeps_intros v usr.repo_consistent iv)
  show "keeps (consistent q) (DeleteUser s i)"
    unfolding DeleteUser_def wiring by (intro keeps_intros usr.repo_consistent iv)
  show "keeps (consistent q) (GetUserByEmail s m)"
    unfolding GetUserByEmail_def wiring Let_def by (intro keeps_intros usr.repo_consistent)
qed

end

section \<open>The service of internal/app/app.go\<close>

fun user_commit_error :: "go_error \<Rightarrow> bool" where
  "user_commit_error (Errorf p e q) = (p = ''commit transaction: '')"
| "user_commit_error _ = False"

interpretation user_tx: tx_factory "user_run :: 'a prog \<Rightarrow> 'a prog" user_commit_error
  unfolding user_run_def by (rule run_tx_factory) (simp_all add: wrapf_def)

definition pg_user ::
  "pg_locale \<Rightarrow> PasswordHasher \<Rightarrow> user_env \<Rightarrow> Cache \<Rightarrow> int \<Rightarrow> user_Service" where
  "pg_user pg hasher env cache ttl =
     user_NewService (user_NewPostgresRepository pg) (Some (user_WithinTx pg)) hasher env
       [user_WithCache cache ttl]"

lemma pg_user_simps [simp]:
  "user_lib (pg_user pg hasher env cache ttl) = env" "user_hasher (pg_user pg hasher env cache ttl) = hasher"
  "user_cacheTTL (pg_user pg hasher env cache ttl) = ttl"
  "user_repo (pg_user pg hasher env cache ttl) = user_NewPostgresRepository pg"
  "user_cache (pg_user pg hasher env cache ttl) = Some cache"
  "user_txFactory (pg_user pg hasher env cache ttl) = Some (user_WithinTx pg)"
  by (simp_all add: pg_user_def user_NewService_def user_WithCache_def)

interpretation pguser: user_deps "user_NewPostgresRepository pg" outbox_NewPostgresRepository
    user_run user_commit_error "app_cache timeout errText" "redis_look (NewRedisCache ''identity'' timeout errText)"
    "pg_user pg hasher env (app_cache timeout errText) ttl"
  by unfold_locales (simp_all add: user_WithinTx_def Let_def fun_eq_iff)

end
