(* ===== verification/User_Handler.thy ===== *)
theory User_Handler
  imports Validation User_Service
begin

text \<open>
  internal/user: the requests of dto.go with their JSON and validation tags, and the handlers of
  handler.go. Each handler is the whole function, early returns included, over the user service.
\<close>

section \<open>dto.go\<close>

record CreateUserRequest =
  CreateUserRequest_Name :: string
  CreateUserRequest_Email :: string
  CreateUserRequest_Age :: int
  CreateUserRequest_Password :: string

record UpdateUserRequest =
  UpdateUserRequest_Name :: string
  UpdateUserRequest_Email :: string
  UpdateUserRequest_Age :: int

record CreateUserWithProfileRequest =
  CreateUserWithProfileRequest_Name :: string
  CreateUserWithProfileRequest_Email :: string
  CreateUserWithProfileRequest_Age :: int
  CreateUserWithProfileRequest_Bio :: string
  CreateUserWithProfileRequest_Password :: string

record ListUsersRequest =
  ListUsersRequest_Limit :: int
  ListUsersRequest_Offset :: int
  ListUsersRequest_Email :: string
  ListUsersRequest_Sort :: string

record UserWithProfileResponse =
  UserWithProfileResponse_User :: UserResponse
  UserWithProfileResponse_Profile :: ProfileResponse

text \<open>A field with a JSON or a query tag and a validation tag.\<close>

definition tagged :: "string \<Rightarrow> string \<Rightarrow> string \<Rightarrow> string \<Rightarrow> field_value \<Rightarrow> struct_field" where
  "tagged goName key name rules v =
     \<lparr>field_GoName = goName, field_Tags = [(key, name), (''validate'', rules)], field_Value = v\<rparr>"

definition name_rules :: string where "name_rules = ''required,min=2,max=100''"
definition email_rules :: string where "email_rules = ''required,email,max=255''"
definition age_rules :: string where "age_rules = ''gte=0,lte=150''"
definition password_rules :: string where "password_rules = ''required,min=8,max=72''"

definition CreateUserRequest_schema :: struct_schema where
  "CreateUserRequest_schema =
     [(''name'', KString), (''email'', KString), (''age'', KInt 32), (''password'', KString)]"

definition CreateUserRequest_of :: "assignment \<Rightarrow> CreateUserRequest" where
  "CreateUserRequest_of m =
     \<lparr>CreateUserRequest_Name = string_field m ''name'', CreateUserRequest_Email = string_field m ''email'',
      CreateUserRequest_Age = int_field m ''age'', CreateUserRequest_Password = string_field m ''password''\<rparr>"

definition CreateUserRequest_fields :: "CreateUserRequest \<Rightarrow> struct_field list" where
  "CreateUserRequest_fields r =
     [tagged ''Name'' ''json'' ''name'' name_rules (VString (CreateUserRequest_Name r)),
      tagged ''Email'' ''json'' ''email'' email_rules (VString (CreateUserRequest_Email r)),
      tagged ''Age'' ''json'' ''age'' age_rules (VInt (CreateUserRequest_Age r)),
      tagged ''Password'' ''json'' ''password'' password_rules (VString (CreateUserRequest_Password r))]"

definition UpdateUserRequest_schema :: struct_schema where
  "UpdateUserRequest_schema = [(''name'', KString), (''email'', KString), (''age'', KInt 32)]"

definition UpdateUserRequest_of :: "assignment \<Rightarrow> UpdateUserRequest" where
  "UpdateUserRequest_of m =
     \<lparr>UpdateUserRequest_Name = string_field m ''name'', UpdateUserRequest_Email = string_field m ''email'',
      UpdateUserRequest_Age = int_field m ''age''\<rparr>"

definition UpdateUserRequest_fields :: "UpdateUserRequest \<Rightarrow> struct_field list" where
  "UpdateUserRequest_fields r =
     [tagged ''Name'' ''json'' ''name'' name_rules (VString (UpdateUserRequest_Name r)),
      tagged ''Email'' ''json'' ''email'' email_rules (VString (UpdateUserRequest_Email r)),
      tagged ''Age'' ''json'' ''age'' age_rules (VInt (UpdateUserRequest_Age r))]"

definition CreateUserWithProfileRequest_schema :: struct_schema where
  "CreateUserWithProfileRequest_schema =
     [(''name'', KString), (''email'', KString), (''age'', KInt 32), (''bio'', KString),
      (''password'', KString)]"

definition CreateUserWithProfileRequest_of :: "assignment \<Rightarrow> CreateUserWithProfileRequest" where
  "CreateUserWithProfileRequest_of m =
     \<lparr>CreateUserWithProfileRequest_Name = string_field m ''name'',
      CreateUserWithProfileRequest_Email = string_field m ''email'',
      CreateUserWithProfileRequest_Age = int_field m ''age'',
      CreateUserWithProfileRequest_Bio = string_field m ''bio'',
      CreateUserWithProfileRequest_Password = string_field m ''password''\<rparr>"

definition CreateUserWithProfileRequest_fields :: "CreateUserWithProfileRequest \<Rightarrow> struct_field list" where
  "CreateUserWithProfileRequest_fields r =
     [tagged ''Name'' ''json'' ''name'' name_rules (VString (CreateUserWithProfileRequest_Name r)),
      tagged ''Email'' ''json'' ''email'' email_rules (VString (CreateUserWithProfileRequest_Email r)),
      tagged ''Age'' ''json'' ''age'' age_rules (VInt (CreateUserWithProfileRequest_Age r)),
      tagged ''Bio'' ''json'' ''bio'' ''max=1000'' (VString (CreateUserWithProfileRequest_Bio r)),
      tagged ''Password'' ''json'' ''password'' password_rules
        (VString (CreateUserWithProfileRequest_Password r))]"

definition ListUsersRequest_fields :: "ListUsersRequest \<Rightarrow> struct_field list" where
  "ListUsersRequest_fields r =
     [tagged ''Limit'' ''query'' ''limit'' ''gte=1,lte=100'' (VInt (ListUsersRequest_Limit r)),
      tagged ''Offset'' ''query'' ''offset'' ''gte=0'' (VInt (ListUsersRequest_Offset r)),
      tagged ''Email'' ''query'' ''email'' ''omitempty,max=250'' (VString (ListUsersRequest_Email r)),
      tagged ''Sort'' ''query'' ''sort''
        ''oneof=id_asc id_desc email_asc email_desc created_at_asc created_at_desc''
        (VString (ListUsersRequest_Sort r))]"

text \<open>The responses as encoding/json writes them.\<close>

definition UserResponse_json :: "UserResponse \<Rightarrow> json" where
  "UserResponse_json u = JObject
     [(''id'', JInt (UserResponse_ID u)), (''name'', json_text (UserResponse_Name u)),
      (''email'', json_text (UserResponse_Email u)), (''age'', JInt (UserResponse_Age u)),
      (''role'', json_text (UserResponse_Role u)), (''createdAt'', JTime (UserResponse_CreatedAt u)),
      (''updatedAt'', JTime (UserResponse_UpdatedAt u))]"

definition ProfileResponse_json :: "ProfileResponse \<Rightarrow> json" where
  "ProfileResponse_json p = JObject
     [(''id'', JInt (ProfileResponse_ID p)), (''userId'', JInt (ProfileResponse_UserID p)),
      (''bio'', json_text (ProfileResponse_Bio p)), (''createdAt'', JTime (ProfileResponse_CreatedAt p)),
      (''updatedAt'', JTime (ProfileResponse_UpdatedAt p))]"

definition UserWithProfileResponse_json :: "UserWithProfileResponse \<Rightarrow> json" where
  "UserWithProfileResponse_json r = JObject
     [(''user'', UserResponse_json (UserWithProfileResponse_User r)),
      (''profile'', ProfileResponse_json (UserWithProfileResponse_Profile r))]"


section \<open>handler.go\<close>

text \<open>The logger is the connection's; \<open>pr\<close> is the table of printable runes that \<open>%q\<close> uses.\<close>

record user_Handler =
  userh_service :: user_Service
  userh_validator :: Validator
  userh_pr :: "string \<Rightarrow> bool"

definition user_NewHandler :: "user_Service \<Rightarrow> Validator \<Rightarrow> (string \<Rightarrow> bool) \<Rightarrow> user_Handler" where
  "user_NewHandler service validator pr =
     \<lparr>userh_service = service, userh_validator = validator, userh_pr = pr\<rparr>"

definition parseId :: "request \<Rightarrow> int option http" where
  "parseId r =
     (let rawId = PathValue r ''id''
      in case ParseInt rawId of
           None \<Rightarrow>
             andThen (SendValidationError [(''id'', ''Required in path variable or id invalid'')])
               (\<lambda>_. ret None)
         | Some i \<Rightarrow> ret (Some i))"

definition parseString :: "request \<Rightarrow> string \<Rightarrow> string option http" where
  "parseString r str =
     (let res = TrimSpace (PathValue r str)
      in if res = '''' then
           andThen (SendValidationError [(str, ''Required in path variable'')]) (\<lambda>_. ret None)
         else ret (Some res))"

text \<open>The number read and the map of field errors afterwards.\<close>

definition parseIntQuery :: "string \<Rightarrow> string \<Rightarrow> int \<Rightarrow> fields \<Rightarrow> int \<times> fields" where
  "parseIntQuery raw0 fieldName defaultValue fs =
     (let raw = TrimSpace raw0
      in if raw = '''' then (defaultValue, fs)
         else (case ParseInt raw of
                 None \<Rightarrow> (defaultValue, map_set fieldName ''must be a number'' fs)
               | Some v \<Rightarrow> (v, fs)))"

definition ParseListUsersRequest :: "user_Handler \<Rightarrow> request \<Rightarrow> go_error + ListUsersRequest" where
  "ParseListUsersRequest h r =
     (let (limit, fs1) = parseIntQuery (Query_Get r ''limit'') ''limit'' 20 [];
          (offset, fs2) = parseIntQuery (Query_Get r ''offset'') ''offset'' 0 fs1;
          sort1 = TrimSpace (Query_Get r ''sort'');
          sortValue = (if sort1 = '''' then ''id_asc'' else sort1);
          req = \<lparr>ListUsersRequest_Limit = limit, ListUsersRequest_Offset = offset,
                 ListUsersRequest_Email = Query_Get r ''email'', ListUsersRequest_Sort = sortValue\<rparr>
      in if fs2 \<noteq> [] then Inl (NewFieldValidationError fs2)
         else (case Validator_Struct (userh_validator h) (ListUsersRequest_fields req) of
                 Some err \<Rightarrow> Inl err | None \<Rightarrow> Inr req))"

definition Handler_CreateUser :: "user_Handler \<Rightarrow> http_Handler" where
  "Handler_CreateUser h r =
     when_ok (DecodeJSON (userh_pr h) CreateUserRequest_schema CreateUserRequest_of r) (\<lambda>req.
     validated (userh_validator h) (CreateUserRequest_fields req)
       (handled (CreateUser (userh_service h)
          \<lparr>CreateUserInput_Name = CreateUserRequest_Name req, CreateUserInput_Email = CreateUserRequest_Email req,
           CreateUserInput_Age = CreateUserRequest_Age req,
           CreateUserInput_Password = CreateUserRequest_Password req\<rparr>) (\<lambda>created.
        JSON 201 (Some (UserResponse_json (ToResponse created))))))"

definition Handler_GetUserById :: "user_Handler \<Rightarrow> http_Handler" where
  "Handler_GetUserById h r =
     when_ok (parseId r) (\<lambda>i.
     handled (GetUser (userh_service h) i) (\<lambda>found.
       JSON 200 (Some (UserResponse_json (ToResponse found)))))"

definition Handler_ListUsers :: "user_Handler \<Rightarrow> http_Handler" where
  "Handler_ListUsers h r =
     (case ParseListUsersRequest h r of
        Inl err \<Rightarrow> HandleError err
      | Inr req \<Rightarrow>
          handled (ListUsers (userh_service h)
            \<lparr>ListUsersInput_Limit = ListUsersRequest_Limit req, ListUsersInput_Offset = ListUsersRequest_Offset req,
             ListUsersInput_Email = ListUsersRequest_Email req, ListUsersInput_Sort = ListUsersRequest_Sort req\<rparr>)
            (\<lambda>result.
              JSON 200 (Some (Page_json UserResponse_json
                \<lparr>Page_Items = ToResponseList (ListUsersOutput_Users result),
                 Page_Pagination = \<lparr>Pagination_Limit = ListUsersRequest_Limit req,
                   Pagination_Offset = ListUsersRequest_Offset req,
                   Pagination_Total = ListUsersOutput_Total result\<rparr>\<rparr>))))"

definition Handler_UpdateUser :: "user_Handler \<Rightarrow> http_Handler" where
  "Handler_UpdateUser h r =
     when_ok (parseId r) (\<lambda>i.
     when_ok (DecodeJSON (userh_pr h) UpdateUserRequest_schema UpdateUserRequest_of r) (\<lambda>req.
     validated (userh_validator h) (UpdateUserRequest_fields req)
       (handled (UpdateUser (userh_service h) i
          \<lparr>UpdateUserInput_Name = UpdateUserRequest_Name req, UpdateUserInput_Email = UpdateUserRequest_Email req,
           UpdateUserInput_Age = UpdateUserRequest_Age req\<rparr>) (\<lambda>updated.
        JSON 200 (Some (UserResponse_json (ToResponse updated)))))))"

definition Handler_DeleteUser :: "user_Handler \<Rightarrow> http_Handler" where
  "Handler_DeleteUser h r =
     when_ok (parseId r) (\<lambda>i.
     handled (DeleteUser (userh_service h) i) (\<lambda>_. JSON 204 None))"

definition Handler_GetUsersByEmail :: "user_Handler \<Rightarrow> http_Handler" where
  "Handler_GetUsersByEmail h r =
     when_ok (parseString r ''email'') (\<lambda>email.
     handled (GetUserByEmail (userh_service h) email) (\<lambda>usr.
       JSON 200 (Some (UserResponse_json (ToResponse usr)))))"

definition Handler_CreateUserWithProfile :: "user_Handler \<Rightarrow> http_Handler" where
  "Handler_CreateUserWithProfile h r =
     when_ok (DecodeJSON (userh_pr h) CreateUserWithProfileRequest_schema CreateUserWithProfileRequest_of r) (\<lambda>req.
     validated (userh_validator h) (CreateUserWithProfileRequest_fields req)
       (handled (CreateUserWithProfile (userh_service h)
          \<lparr>WithProfileInput_Name = CreateUserWithProfileRequest_Name req,
           WithProfileInput_Email = CreateUserWithProfileRequest_Email req,
           WithProfileInput_Age = CreateUserWithProfileRequest_Age req,
           WithProfileInput_Password = CreateUserWithProfileRequest_Password req,
           WithProfileInput_Bio = CreateUserWithProfileRequest_Bio req\<rparr>) (\<lambda>created.
        JSON 201 (Some (UserWithProfileResponse_json
          \<lparr>UserWithProfileResponse_User = ToResponse (ProfileWithUser_User created),
           UserWithProfileResponse_Profile = ProfileToResponse (ProfileWithUser_Profile created)\<rparr>)))))"

end
