(* ===== verification/RateLimit.thy ===== *)
theory RateLimit
  imports Redis
begin

text \<open>
  internal/ratelimit: the limiter kept in memory (limiter_in_memory.go, a map of counters with
  the time they are reset at) and the limiter kept in Redis (redis_limiter.go, a counter that
  expires), behind the interface \<open>RateLimiter\<close> of internal/auth/config.go. Both count in
  fixed windows: the first request of a key opens one.
\<close>

record RateLimiter =
  RateLimiter_Allow :: "string \<Rightarrow> int \<Rightarrow> int \<Rightarrow> bool prog"

section \<open>In memory\<close>

record limiter_entry =
  entry_count :: int
  entry_resetAt :: int

type_synonym Limiter = "string \<Rightarrow> limiter_entry option"

definition NewLimiter :: Limiter where
  "NewLimiter = (\<lambda>_. None)"

definition Limiter_Allow :: "int \<Rightarrow> string \<Rightarrow> int \<Rightarrow> int \<Rightarrow> Limiter \<Rightarrow> bool \<times> Limiter" where
  "Limiter_Allow now key limit window l =
     (if limit \<le> 0 then (True, l)
      else let fresh = l(key \<mapsto> \<lparr>entry_count = 1, entry_resetAt = now + window\<rparr>)
           in case l key of
                None \<Rightarrow> (True, fresh)
              | Some current \<Rightarrow>
                  if \<not> entry_resetAt current > now then (True, fresh)
                  else if entry_count current \<ge> limit then (False, l)
                  else (True, l(key \<mapsto> current\<lparr>entry_count := entry_count current + 1\<rparr>)))"

section \<open>In Redis\<close>

record RedisLimiter =
  RedisLimiter_prefix :: string
  RedisLimiter_timeout :: int

definition NewRedisLimiter :: "string \<Rightarrow> int \<Rightarrow> RedisLimiter" where
  "NewRedisLimiter pre timeout = \<lparr>RedisLimiter_prefix = pre, RedisLimiter_timeout = timeout\<rparr>"

definition incrAndExpireScript :: "string \<Rightarrow> int \<Rightarrow> int prog" where
  "incrAndExpireScript key ttl =
     andThen (redis_INCR key) (\<lambda>current.
     andThen (if current = 1 then redis_PEXPIRE key ttl else ret ()) (\<lambda>_.
       ret current))"

text \<open>\<open>window.Milliseconds()\<close> truncates towards zero, so a negative window is not positive either.\<close>

definition RedisLimiter_Allow :: "RedisLimiter \<Rightarrow> string \<Rightarrow> int \<Rightarrow> int \<Rightarrow> bool prog" where
  "RedisLimiter_Allow l key limit window =
     (if limit \<le> 0 then ret True
      else let redisKey = RedisLimiter_prefix l @ '':'' @ key;
               ttlMillis = (if window < 0 then - millis (- window) else millis window)
           in if ttlMillis \<le> 0 then throw (NewError ''rate limit window must be at least 1 millisecond'')
              else andThen (mapErr (wrapf ''run redis rate limit script'')
                              (external (incrAndExpireScript redisKey ttlMillis))) (\<lambda>count.
                     ret (count \<le> limit)))"

definition redis_limiter :: "RedisLimiter \<Rightarrow> RateLimiter" where
  "redis_limiter l = \<lparr>RateLimiter_Allow = RedisLimiter_Allow l\<rparr>"

section \<open>The contract\<close>

text \<open>What a client relies on: a limiter leaves the tables and sequences alone.\<close>

locale rate_limiter =
  fixes L :: RateLimiter
  assumes allow_frames: "frame db (RateLimiter_Allow L k lim win)" "frame seqs (RateLimiter_Allow L k lim win)"
    and allow_unlimited: "lim \<le> 0 \<Longrightarrow> RateLimiter_Allow L k lim win w = (Inr True, w)"
begin

lemma allow_consistent: "keeps (consistent s) (RateLimiter_Allow L k lim win)"
  by (rule consistent_frame [OF allow_frames])

end

lemma script_frames [frame_intros]:
  "frame db (incrAndExpireScript k t)" "frame seqs (incrAndExpireScript k t)"
proof -
  have i: "frame db (redis_INCR k)" "frame seqs (redis_INCR k)" "frame db (redis_PEXPIRE k t)" "frame seqs (redis_PEXPIRE k t)"
    by (auto simp: frame_def redis_INCR_def redis_PEXPIRE_def redis_store_def split: option.split redis_value.split)
  show "frame db (incrAndExpireScript k t)" "frame seqs (incrAndExpireScript k t)"
    unfolding incrAndExpireScript_def by (intro frame_intros i)+
qed

interpretation redis_limiter: rate_limiter "redis_limiter l"
proof (unfold_locales, unfold redis_limiter_def RateLimiter.simps RedisLimiter_Allow_def Let_def, goal_cases)
  case (3 lim k win w)
  then show ?case by (simp add: ret_def)
qed (intro frame_intros; simp)+

section \<open>Requests in sequence\<close>

text \<open>The decisions on a list of requests, each with its time and key, under one limit and window.\<close>

fun memory_run :: "int \<Rightarrow> int \<Rightarrow> (int \<times> string) list \<Rightarrow> Limiter \<Rightarrow> bool list" where
  "memory_run limit window [] l = []"
| "memory_run limit window ((t, k) # rs) l =
     (case Limiter_Allow t k limit window l of (b, l') \<Rightarrow> b # memory_run limit window rs l')"

fun redis_run :: "RedisLimiter \<Rightarrow> int \<Rightarrow> int \<Rightarrow> (int \<times> string) list \<Rightarrow> world \<Rightarrow> (go_error + bool) list" where
  "redis_run r limit window [] w = []"
| "redis_run r limit window ((t, k) # rs) w =
     (case RedisLimiter_Allow r k limit window (w\<lparr>clock := t\<rparr>) of (b, w') \<Rightarrow> b # redis_run r limit window rs w')"

text \<open>
  The entry of the limiter in memory that stands for a counter in Redis: Redis goes on counting
  the requests it rejects, and drops an entry when it expires. \<open>m\<close> more requests are to come,
  which the counters have room for.
\<close>

definition same_window :: "RedisLimiter \<Rightarrow> int \<Rightarrow> nat \<Rightarrow> int \<Rightarrow> Limiter \<Rightarrow> world \<Rightarrow> bool" where
  "same_window r limit m t l w \<longleftrightarrow> (\<forall>k.
     case live_at t (redis w (RedisLimiter_prefix r @ '':'' @ k)) of
       None \<Rightarrow> (\<forall>e. l k = Some e \<longrightarrow> entry_resetAt e \<le> t)
     | Some x \<Rightarrow> (\<exists>n e. redis_value x = RedisInt n \<and> 0 < n \<and> n + int m \<le> int64_max \<and>
         redis_expires x = Some (entry_resetAt e) \<and> l k = Some e \<and> entry_count e = min n limit))"

lemma same_window_later:
  assumes "same_window r limit m t0 l w" and "t0 \<le> t"
  shows "same_window r limit m t l w"
  unfolding same_window_def
proof
  fix k
  let ?x = "redis w (RedisLimiter_prefix r @ '':'' @ k)"
  from assms(1) have 0: "case live_at t0 ?x of
       None \<Rightarrow> (\<forall>e. l k = Some e \<longrightarrow> entry_resetAt e \<le> t0)
     | Some x \<Rightarrow> (\<exists>n e. redis_value x = RedisInt n \<and> 0 < n \<and> n + int m \<le> int64_max \<and>
         redis_expires x = Some (entry_resetAt e) \<and> l k = Some e \<and> entry_count e = min n limit)"
    by (simp add: same_window_def)
  show "case live_at t ?x of
       None \<Rightarrow> (\<forall>e. l k = Some e \<longrightarrow> entry_resetAt e \<le> t)
     | Some x \<Rightarrow> (\<exists>n e. redis_value x = RedisInt n \<and> 0 < n \<and> n + int m \<le> int64_max \<and>
         redis_expires x = Some (entry_resetAt e) \<and> l k = Some e \<and> entry_count e = min n limit)"
  proof (cases "live_at t0 ?x")
    case None
    then have "live_at t ?x = None" using live_at_le [of t ?x _ t0] assms(2) by (cases "live_at t ?x") auto
    with 0 None assms(2) show ?thesis by fastforce
  next
    case (Some x)
    with 0 obtain n e where x: "redis_value x = RedisInt n" "0 < n" "n + int m \<le> int64_max"
      "redis_expires x = Some (entry_resetAt e)" "l k = Some e" "entry_count e = min n limit" by auto
    from Some have "?x = Some x" by (auto simp: live_at_def split: option.splits if_splits)
    with x show ?thesis by (auto simp: live_at_def)
  qed
qed

lemma allow_step:
  assumes "plan w = []" "0 < limit" "0 < window" "millis window * 1000000 = window"
    and "same_window r limit (Suc m) t l w" and "int (Suc m) \<le> int64_max"
  shows "\<exists>b l' w'. RedisLimiter_Allow r k limit window (w\<lparr>clock := t\<rparr>) = (Inr b, w') \<and>
    Limiter_Allow t k limit window l = (b, l') \<and> plan w' = [] \<and> same_window r limit m t l' w'"
proof -
  let ?K = "\<lambda>k. RedisLimiter_prefix r @ '':'' @ k"
  let ?w = "w\<lparr>clock := t\<rparr>"
  have ms: "0 < millis window" using assms(3,4) by (cases "millis window > 0") auto
  have r: "RedisLimiter_Allow r k limit window ?w =
      andThen (mapErr (wrapf ''run redis rate limit script'') (incrAndExpireScript (?K k) (millis window)))
        (\<lambda>count. ret (count \<le> limit)) ?w"
    using assms(1-3) ms by (simp add: RedisLimiter_Allow_def Let_def andThen_def mapErr_def external_empty)
  from assms(5) have all: "case live_at t (redis w (?K j)) of
       None \<Rightarrow> (\<forall>e. l j = Some e \<longrightarrow> entry_resetAt e \<le> t)
     | Some x \<Rightarrow> (\<exists>n e. redis_value x = RedisInt n \<and> 0 < n \<and> n + int (Suc m) \<le> int64_max \<and>
         redis_expires x = Some (entry_resetAt e) \<and> l j = Some e \<and> entry_count e = min n limit)" for j
    unfolding same_window_def by blast
  show ?thesis
  proof (cases "live_at t (redis w (?K k))")
    case None
    let ?e = "\<lparr>redis_value = RedisInt 1, redis_expires = Some (t + window)\<rparr>"
    let ?l = "l(k \<mapsto> \<lparr>entry_count = 1, entry_resetAt = t + window\<rparr>)"
    from None have R: "RedisLimiter_Allow r k limit window ?w = (Inr True, redis_store (?K k) (Some ?e) ?w)"
      unfolding r using assms(2,4)
      by (simp add: andThen_def mapErr_def incrAndExpireScript_def redis_INCR_def redis_PEXPIRE_def
          redis_lookup_def redis_store_def live_at_def ret_def)
    have L: "Limiter_Allow t k limit window l = (True, ?l)"
      using all [of k] None assms(2) by (auto simp: Limiter_Allow_def Let_def split: option.split)
    have "same_window r limit m t ?l (redis_store (?K k) (Some ?e) ?w)"
      unfolding same_window_def
    proof
      fix j
      show "case live_at t (redis (redis_store (?K k) (Some ?e) ?w) (?K j)) of
         None \<Rightarrow> (\<forall>e. ?l j = Some e \<longrightarrow> entry_resetAt e \<le> t)
       | Some x \<Rightarrow> (\<exists>n e. redis_value x = RedisInt n \<and> 0 < n \<and> n + int m \<le> int64_max \<and>
           redis_expires x = Some (entry_resetAt e) \<and> ?l j = Some e \<and> entry_count e = min n limit)"
      proof (cases "j = k")
        case True
        then show ?thesis using assms(2,3,6) by (simp add: redis_store_def live_at_def)
      next
        case False
        with all [of j] show ?thesis by (auto simp: redis_store_def split: option.splits)
      qed
    qed
    with R L assms(1) show ?thesis by (auto simp: redis_store_def)
  next
    case (Some x)
    with all [of k] obtain n e where x: "redis_value x = RedisInt n" "0 < n" "n + int (Suc m) \<le> int64_max"
      "redis_expires x = Some (entry_resetAt e)" "l k = Some e" "entry_count e = min n limit" by auto
    from Some have e: "redis w (?K k) = Some x" by (auto simp: live_at_def split: option.splits if_splits)
    with Some x(4) have later: "t < entry_resetAt e" by (auto simp: live_at_def split: if_splits)
    let ?x = "x\<lparr>redis_value := RedisInt (n + 1)\<rparr>"
    let ?e = "e\<lparr>entry_count := min (n + 1) limit\<rparr>"
    let ?l = "l(k \<mapsto> ?e)"
    from Some x have R: "RedisLimiter_Allow r k limit window ?w = (Inr (n + 1 \<le> limit), redis_store (?K k) (Some ?x) ?w)"
      unfolding r
      by (simp add: andThen_def mapErr_def incrAndExpireScript_def redis_INCR_def redis_lookup_def ret_def)
    have l: "l = ?l" if "\<not> n + 1 \<le> limit" using that x(5,6) by (auto simp: fun_eq_iff)
    have L: "Limiter_Allow t k limit window l = (n + 1 \<le> limit, ?l)"
      using x(5,6) later assms(2) l by (auto simp: Limiter_Allow_def Let_def)
    have "same_window r limit m t ?l (redis_store (?K k) (Some ?x) ?w)"
      unfolding same_window_def
    proof
      fix j
      show "case live_at t (redis (redis_store (?K k) (Some ?x) ?w) (?K j)) of
         None \<Rightarrow> (\<forall>e. ?l j = Some e \<longrightarrow> entry_resetAt e \<le> t)
       | Some x \<Rightarrow> (\<exists>n e. redis_value x = RedisInt n \<and> 0 < n \<and> n + int m \<le> int64_max \<and>
           redis_expires x = Some (entry_resetAt e) \<and> ?l j = Some e \<and> entry_count e = min n limit)"
      proof (cases "j = k")
        case True
        with x later show ?thesis by (auto simp: redis_store_def live_at_def)
      next
        case False
        with all [of j] show ?thesis by (auto simp: redis_store_def split: option.splits)
      qed
    qed
    with R L assms(1) show ?thesis by (auto simp: redis_store_def)
  qed
qed

lemma runs_agree:
  assumes "0 < limit" "0 < window" "millis window * 1000000 = window"
  shows "plan w = [] \<Longrightarrow> sorted (map fst rs) \<Longrightarrow> (\<And>t k. (t, k) \<in> set rs \<Longrightarrow> t0 \<le> t) \<Longrightarrow>
    int (length rs) \<le> int64_max \<Longrightarrow> same_window r limit (length rs) t0 l w \<Longrightarrow>
    redis_run r limit window rs w = map Inr (memory_run limit window rs l)"
proof (induction rs arbitrary: t0 l w)
  case (Cons q rs)
  obtain t k where q: "q = (t, k)" by (cases q)
  from Cons.prems(3) [of t k] q have "t0 \<le> t" by simp
  with Cons.prems(5) have sw: "same_window r limit (Suc (length rs)) t l w" by (auto intro: same_window_later)
  from Cons.prems(4) have "int (Suc (length rs)) \<le> int64_max" by simp
  from allow_step [OF Cons.prems(1) assms sw this, of k] obtain b l' w' where
    s: "RedisLimiter_Allow r k limit window (w\<lparr>clock := t\<rparr>) = (Inr b, w')"
      "Limiter_Allow t k limit window l = (b, l')" "plan w' = []" "same_window r limit (length rs) t l' w'" by blast
  have "redis_run r limit window rs w' = map Inr (memory_run limit window rs l')"
    by (rule Cons.IH [OF s(3) _ _ _ s(4)]) (use Cons.prems(2,4) q in auto)
  with s q show ?case by simp
qed simp

lemma same_window_start:
  "(\<And>k. redis w (RedisLimiter_prefix r @ '':'' @ k) = None) \<Longrightarrow> same_window r limit m t NewLimiter w"
  by (simp add: same_window_def live_at_def NewLimiter_def)


text \<open>The decisions for one key.\<close>

definition decisions :: "string \<Rightarrow> (int \<times> string) list \<Rightarrow> bool list \<Rightarrow> bool list" where
  "decisions k rs bs = map snd (filter (\<lambda>(q, b). snd q = k) (zip rs bs))"

lemma decisions_simps [simp]:
  "decisions k [] bs = []"
  "decisions k ((t, j) # rs) (b # bs) = (if j = k then b # decisions k rs bs else decisions k rs bs)"
  by (simp_all add: decisions_def)

text \<open>How many requests of a key a window with \<open>n\<close> of them still allows.\<close>

lemma window_decisions:
  assumes "0 < limit"
  shows "l k = Some e \<Longrightarrow> 0 < entry_count e \<Longrightarrow> entry_count e \<le> limit \<Longrightarrow>
    (\<And>t j. (t, j) \<in> set rs \<Longrightarrow> t < entry_resetAt e) \<Longrightarrow>
    decisions k rs (memory_run limit window rs l) =
      map (\<lambda>i. entry_count e + int i < limit) [0..<length (filter (\<lambda>q. snd q = k) rs)]"
proof (induction rs arbitrary: l e)
  case (Cons q rs)
  obtain t j where q: "q = (t, j)" by (cases q)
  obtain b l' where s: "Limiter_Allow t j limit window l = (b, l')" by (cases "Limiter_Allow t j limit window l")
  show ?case
  proof (cases "j = k")
    case False
    from s False Cons.prems(1) have "l' k = Some e"
      by (auto simp: Limiter_Allow_def Let_def split: if_splits option.splits)
    then have "decisions k rs (memory_run limit window rs l') =
        map (\<lambda>i. entry_count e + int i < limit) [0..<length (filter (\<lambda>q. snd q = k) rs)]"
      by (rule Cons.IH) (use Cons.prems in auto)
    with q s False show ?thesis by simp
  next
    case True
    let ?e = "if entry_count e < limit then e\<lparr>entry_count := entry_count e + 1\<rparr> else e"
    from Cons.prems(4) q have later: "t < entry_resetAt e" by auto
    with s True Cons.prems(1) assms have b: "b = (entry_count e < limit)" "l' k = Some ?e"
      by (auto simp: Limiter_Allow_def Let_def split: if_splits)
    from b(2) have IH: "decisions k rs (memory_run limit window rs l') =
        map (\<lambda>i. entry_count ?e + int i < limit) [0..<length (filter (\<lambda>q. snd q = k) rs)]"
      by (rule Cons.IH) (use Cons.prems in auto)
    have "map (\<lambda>i. entry_count ?e + int i < limit) [0..<n] = map (\<lambda>i. entry_count e + int (Suc i) < limit) [0..<n]" for n
      by (auto simp: map_eq_conv)
    with IH b True q s show ?thesis
      by (simp add: map_upt_Suc del: upt_Suc)
  qed
qed simp

lemma memory_window:
  assumes "0 < limit" and "\<And>t' j. (t', j) \<in> set rs \<Longrightarrow> t' < t + window"
  shows "decisions k ((t, k) # rs) (memory_run limit window ((t, k) # rs) NewLimiter) =
    map (\<lambda>i. int i < limit) [0..<length (filter (\<lambda>q. snd q = k) ((t, k) # rs))]"
proof -
  let ?e = "\<lparr>entry_count = 1, entry_resetAt = t + window\<rparr>"
  have s: "Limiter_Allow t k limit window NewLimiter = (True, NewLimiter(k \<mapsto> ?e))"
    using assms(1) by (simp add: Limiter_Allow_def Let_def NewLimiter_def)
  have "decisions k rs (memory_run limit window rs (NewLimiter(k \<mapsto> ?e))) =
      map (\<lambda>i. 1 + int i < limit) [0..<length (filter (\<lambda>q. snd q = k) rs)]"
    using window_decisions [OF assms(1), of "NewLimiter(k \<mapsto> ?e)" k ?e rs window] assms by simp
  with s assms(1) show ?thesis
    by (simp add: map_upt_Suc del: upt_Suc)
qed

text \<open>
  C20: At most the limit. In the window that the first request of a key opens, exactly the first
  \<open>limit\<close> requests of the key are allowed and all later ones are rejected, whatever requests of
  other keys come between.
\<close>

theorem redis_limiter_window:
  assumes "0 < limit" "0 < window" "millis window * 1000000 = window"
    and "plan w = []" "\<And>j. redis w (RedisLimiter_prefix r @ '':'' @ j) = None"
    and "sorted (map fst ((t, k) # rs))" "int (length ((t, k) # rs)) \<le> int64_max"
    and "\<And>t' j. (t', j) \<in> set rs \<Longrightarrow> t' < t + window"
  shows "\<exists>bs. redis_run r limit window ((t, k) # rs) w = map Inr bs \<and>
    decisions k ((t, k) # rs) bs =
      map (\<lambda>i. int i < limit) [0..<length (filter (\<lambda>q. snd q = k) ((t, k) # rs))]"
proof (intro exI conjI)
  show "redis_run r limit window ((t, k) # rs) w = map Inr (memory_run limit window ((t, k) # rs) NewLimiter)"
    by (rule runs_agree [OF assms(1-4,6) _ assms(7) same_window_start [OF assms(5)], of t])
      (use assms(6) in auto)
  show "decisions k ((t, k) # rs) (memory_run limit window ((t, k) # rs) NewLimiter) =
      map (\<lambda>i. int i < limit) [0..<length (filter (\<lambda>q. snd q = k) ((t, k) # rs))]"
    by (rule memory_window [OF assms(1)]) (rule assms(8))
qed

section \<open>A concrete run\<close>

definition sample_limiter :: RedisLimiter where
  "sample_limiter = NewRedisLimiter ''identity'' 1"

definition sample_requests :: "(int \<times> string) list" where
  "sample_requests = [(5, ''a''), (6, ''b''), (7, ''a''), (8, ''a'')]"


theorem redis_limiter_window_witness:
  "\<exists>bs. redis_run sample_limiter 2 1000000 ((5, ''a'') # [(6, ''b''), (7, ''a''), (8, ''a'')]) empty_world = map Inr bs \<and>
     decisions ''a'' ((5, ''a'') # [(6, ''b''), (7, ''a''), (8, ''a'')]) bs =
       map (\<lambda>i. int i < 2) [0..<length (filter (\<lambda>q. snd q = ''a'') ((5::int, ''a'') # [(6, ''b''), (7, ''a''), (8, ''a'')]))]"
  by (rule redis_limiter_window) (auto simp: empty_world_def millis_def int64_max_def)

end
