(* ===== verification/Auth_Http.thy ===== *)
theory Auth_Http
  imports User_Handler RateLimit
begin

text \<open>
  internal/auth over HTTP: handler.go with the request structs of dto.go and the client address,
  and middleware.go, the checks of the bearer token and of the role in front of a handler.
\<close>

section \<open>middleware.go\<close>

text \<open>\<open>MiddleWare\<close> holds the token manager; the JWT library is a parameter.\<close>

record MiddleWare =
  MiddleWare_tokens :: TokenManager
  MiddleWare_jwt :: jwt_lib

definition NewMiddleWare :: "TokenManager \<Rightarrow> jwt_lib \<Rightarrow> MiddleWare" where
  "NewMiddleWare tokens jwt = \<lparr>MiddleWare_tokens = tokens, MiddleWare_jwt = jwt\<rparr>"

type_synonym http_Middleware = "http_Handler \<Rightarrow> http_Handler"

definition unauthorized :: "unit http" where
  "unauthorized = SendError 401 ''unauthorized'' ''Unauthorized''"

definition RequireAuth :: "MiddleWare \<Rightarrow> http_Middleware" where
  "RequireAuth m next r =
     (let header = TrimSpace (Header_Get r ''Authorization'')
      in if header = '''' then unauthorized
         else if \<not> HasPrefix header ''Bearer '' then unauthorized
         else let tokenString = TrimSpace (TrimPrefix header ''Bearer '')
              in if tokenString = '''' then unauthorized
                 else (\<lambda>c. (case TokenManager_Parse (MiddleWare_jwt m) (MiddleWare_tokens m) tokenString
                                 (clock (conn_world c)) of
                       Inl err \<Rightarrow> unauthorized
                     | Inr claims \<Rightarrow>
                         (let ctx = ContextWithUser (Req_Context r)
                                \<lparr>Principal_UserID = Claims_UserID claims, Principal_Email = Claims_Email claims,
                                 Principal_Role = Claims_Role claims\<rparr>
                          in next (WithContext r ctx))) c))"

definition RequireRole :: "MiddleWare \<Rightarrow> Role list \<Rightarrow> http_Middleware" where
  "RequireRole m roles next =
     RequireAuth m (\<lambda>r.
       case PrincipalFromContext (Req_Context r) of
         None \<Rightarrow> unauthorized
       | Some prin \<Rightarrow>
           if Principal_Role prin \<notin> set roles then SendError 403 ''forbidden'' ''Forbidden''
           else next r)"

type_synonym ResourceIDExtractor = "request \<Rightarrow> go_error + int"

definition RequireSelfOrRole :: "MiddleWare \<Rightarrow> ResourceIDExtractor \<Rightarrow> Role list \<Rightarrow> http_Middleware" where
  "RequireSelfOrRole m extractResourceUserID roles next =
     RequireAuth m (\<lambda>r.
       case PrincipalFromContext (Req_Context r) of
         None \<Rightarrow> unauthorized
       | Some prin \<Rightarrow>
           if Principal_Role prin \<in> set roles then next r
           else (case extractResourceUserID r of
                   Inl err \<Rightarrow> SendError 400 ''invalid_path_param'' ''Invalid path parameter''
                 | Inr resourceUserID \<Rightarrow>
                     if Principal_UserID prin \<noteq> resourceUserID
                     then SendError 403 ''forbidden'' ''Forbidden''
                     else next r))"

definition PathInt64Param :: "string \<Rightarrow> ResourceIDExtractor" where
  "PathInt64Param name r =
     (let raw = TrimSpace (PathValue r name)
      in if raw = '''' then Inl (NewError (''path parameter '' @ name @ '' is required''))
         else (case ParseInt raw of
                 None \<Rightarrow> Inl (wrapf (''path parameter '' @ name @ '' must be integer'')
                           (NewError ''strconv.ParseInt''))
               | Some i \<Rightarrow>
                   if i \<le> 0 then Inl (NewError (''path parameter '' @ name @ '' must be positive''))
                   else Inr i))"

section \<open>dto.go\<close>

definition RegisterRequest_schema :: struct_schema where
  "RegisterRequest_schema =
     [(''name'', KString), (''email'', KString), (''age'', KInt 32), (''password'', KString)]"

definition RegisterRequest_of :: "assignment \<Rightarrow> RegisterRequest" where
  "RegisterRequest_of m =
     \<lparr>RegisterRequest_Name = string_field m ''name'', RegisterRequest_Email = string_field m ''email'',
      RegisterRequest_Age = int_field m ''age'', RegisterRequest_Password = string_field m ''password''\<rparr>"

definition RegisterRequest_fields :: "RegisterRequest \<Rightarrow> struct_field list" where
  "RegisterRequest_fields r =
     [tagged ''Name'' ''json'' ''name'' name_rules (VString (RegisterRequest_Name r)),
      tagged ''Email'' ''json'' ''email'' email_rules (VString (RegisterRequest_Email r)),
      tagged ''Age'' ''json'' ''age'' age_rules (VInt (RegisterRequest_Age r)),
      tagged ''Password'' ''json'' ''password'' password_rules (VString (RegisterRequest_Password r))]"

definition LoginRequest_schema :: struct_schema where
  "LoginRequest_schema = [(''email'', KString), (''password'', KString)]"

definition LoginRequest_of :: "assignment \<Rightarrow> LoginRequest" where
  "LoginRequest_of m =
     \<lparr>LoginRequest_Email = string_field m ''email'', LoginRequest_Password = string_field m ''password''\<rparr>"

definition LoginRequest_fields :: "LoginRequest \<Rightarrow> struct_field list" where
  "LoginRequest_fields r =
     [tagged ''Email'' ''json'' ''email'' email_rules (VString (LoginRequest_Email r)),
      tagged ''Password'' ''json'' ''password'' password_rules (VString (LoginRequest_Password r))]"

definition refresh_schema :: struct_schema where
  "refresh_schema = [(''refreshToken'', KString)]"

definition RefreshRequest_of :: "assignment \<Rightarrow> RefreshRequest" where
  "RefreshRequest_of m = \<lparr>RefreshRequest_RefreshToken = string_field m ''refreshToken''\<rparr>"

definition RefreshRequest_fields :: "RefreshRequest \<Rightarrow> struct_field list" where
  "RefreshRequest_fields r =
     [tagged ''RefreshToken'' ''json'' ''refreshToken'' ''required'' (VString (RefreshRequest_RefreshToken r))]"

definition LogoutRequest_of :: "assignment \<Rightarrow> LogoutRequest" where
  "LogoutRequest_of m = \<lparr>LogoutRequest_RefreshToken = string_field m ''refreshToken''\<rparr>"

definition LogoutRequest_fields :: "LogoutRequest \<Rightarrow> struct_field list" where
  "LogoutRequest_fields r =
     [tagged ''RefreshToken'' ''json'' ''refreshToken'' ''required'' (VString (LogoutRequest_RefreshToken r))]"

definition AuthResponse_json :: "AuthResponse \<Rightarrow> json" where
  "AuthResponse_json a = JObject
     [(''accessToken'', json_text (AuthResponse_AccessToken a)),
      (''tokenType'', json_text (AuthResponse_TokenType a)),
      (''refreshToken'', json_text (AuthResponse_RefreshToken a)),
      (''user'', UserResponse_json (AuthResponse_User a))]"

definition MeResponse_json :: "MeResponse \<Rightarrow> json" where
  "MeResponse_json m = JObject [(''user'', UserResponse_json (MeResponse_User m))]"

section \<open>handler.go\<close>

record RateLimitConfig =
  LoginLimit :: int
  LoginWindow :: int
  RegisterLimit :: int
  RegisterWindow :: int
  RefreshLimit :: int
  RefreshWindow :: int

record auth_Handler =
  authh_service :: auth_Service
  authh_validator :: Validator
  authh_limiter :: "RateLimiter option"
  authh_rateLimitConfig :: RateLimitConfig
  authh_pr :: "string \<Rightarrow> bool"

definition auth_NewHandler ::
  "auth_Service \<Rightarrow> Validator \<Rightarrow> RateLimiter option \<Rightarrow> RateLimitConfig \<Rightarrow> (string \<Rightarrow> bool) \<Rightarrow> auth_Handler" where
  "auth_NewHandler service validator limiter cfg pr =
     \<lparr>authh_service = service, authh_validator = validator, authh_limiter = limiter,
      authh_rateLimitConfig = cfg, authh_pr = pr\<rparr>"

text \<open>
  \<open>net.SplitHostPort\<close>: the host, if the address is a host or a bracketed host, a colon and a
  port.
\<close>

definition SplitHostPort :: "string \<Rightarrow> string option" where
  "SplitHostPort hostport =
     (if CHR '':'' \<notin> set hostport then None
      else let i = length (tl (dropWhile (\<lambda>c. c \<noteq> CHR '':'') (rev hostport)))
           in if hd hostport = CHR ''['' then
                let e = length (takeWhile (\<lambda>c. c \<noteq> CHR '']'') hostport)
                in if e = length hostport \<or> e + 1 \<noteq> i then None
                   else if CHR ''['' \<in> set (drop 1 hostport) \<or> CHR '']'' \<in> set (drop (e + 1) hostport) then None
                   else Some (take (e - 1) (drop 1 hostport))
              else if CHR '':'' \<in> set (take i hostport) then None
              else if CHR ''['' \<in> set hostport \<or> CHR '']'' \<in> set hostport then None
              else Some (take i hostport))"

definition clientIP :: "request \<Rightarrow> string" where
  "clientIP r =
     (case SplitHostPort (Req_RemoteAddr r) of
        Some host \<Rightarrow> host
      | None \<Rightarrow> if Req_RemoteAddr r \<noteq> '''' then Req_RemoteAddr r else ''unknown'')"

definition rejectRateLimited :: "unit http" where
  "rejectRateLimited = SendError 429 ''rate_limited'' ''Too many requests''"

text \<open>The block \<open>if h.limiter != nil { ... }\<close> of the handlers.\<close>

definition rate_limited :: "auth_Handler \<Rightarrow> string \<Rightarrow> int \<Rightarrow> int \<Rightarrow> unit http \<Rightarrow> unit http" where
  "rate_limited h key limit window k =
     (case authh_limiter h of
        None \<Rightarrow> k
      | Some limiter \<Rightarrow>
          handled (RateLimiter_Allow limiter key limit window) (\<lambda>allowed.
            if \<not> allowed then rejectRateLimited else k))"

definition Handler_Register :: "auth_Handler \<Rightarrow> http_Handler" where
  "Handler_Register h r =
     when_ok (DecodeJSON (authh_pr h) RegisterRequest_schema RegisterRequest_of r) (\<lambda>req.
     validated (authh_validator h) (RegisterRequest_fields req)
       (rate_limited h (''auth:register:ip:'' @ clientIP r)
          (RegisterLimit (authh_rateLimitConfig h)) (RegisterWindow (authh_rateLimitConfig h))
          (handled (auth_Register (authh_service h) req) (\<lambda>result.
             JSON 201 (Some (AuthResponse_json result))))))"

definition Handler_Login :: "auth_Handler \<Rightarrow> http_Handler" where
  "Handler_Login h r =
     when_ok (DecodeJSON (authh_pr h) LoginRequest_schema LoginRequest_of r) (\<lambda>req.
     validated (authh_validator h) (LoginRequest_fields req)
       (let email = TrimSpace (ToLower (env_lower (auth_lib (authh_service h))) (LoginRequest_Email req));
            ip = clientIP r
        in rate_limited h (''auth:login:email_ip:'' @ email @ '':'' @ ip)
             (LoginLimit (authh_rateLimitConfig h)) (LoginWindow (authh_rateLimitConfig h))
             (handled (auth_Login (authh_service h) req) (\<lambda>result.
                JSON 200 (Some (AuthResponse_json result))))))"

definition Handler_Refresh :: "auth_Handler \<Rightarrow> http_Handler" where
  "Handler_Refresh h r =
     when_ok (DecodeJSON (authh_pr h) refresh_schema RefreshRequest_of r) (\<lambda>req.
     validated (authh_validator h) (RefreshRequest_fields req)
       (rate_limited h (''auth:refresh:ip:'' @ clientIP r)
          (RefreshLimit (authh_rateLimitConfig h)) (RefreshWindow (authh_rateLimitConfig h))
          (handled (auth_Refresh (authh_service h) req) (\<lambda>result.
             JSON 200 (Some (AuthResponse_json result))))))"

definition Handler_Logout :: "auth_Handler \<Rightarrow> http_Handler" where
  "Handler_Logout h r =
     when_ok (DecodeJSON (authh_pr h) refresh_schema LogoutRequest_of r) (\<lambda>req.
     validated (authh_validator h) (LogoutRequest_fields req)
       (handled (auth_Logout (authh_service h) req) (\<lambda>_. WriteHeader 204)))"

definition Handler_Me :: "auth_Handler \<Rightarrow> http_Handler" where
  "Handler_Me h r =
     (case PrincipalFromContext (Req_Context r) of
        None \<Rightarrow> HandleError NewUnauthorizedError
      | Some prin \<Rightarrow>
          handled (auth_Me (authh_service h) (Principal_UserID prin)) (\<lambda>result.
            JSON 200 (Some (MeResponse_json result))))"
end
