(* ===== verification/Middleware.thy ===== *)
theory Middleware
  imports Http
begin

text \<open>
  internal/middleware: the wrappers around the mux (request id, security headers, CORS, metrics,
  logging, recovery) and their chain. Each wrapper is a function on handlers, as in the code.
\<close>

type_synonym Middleware = "http_Handler \<Rightarrow> http_Handler"

text \<open>The loop of \<open>Chain\<close> runs from the last middleware to the first.\<close>

definition Chain :: "http_Handler \<Rightarrow> Middleware list \<Rightarrow> http_Handler" where
  "Chain handler middlewares = fold (\<lambda>mw h. mw h) (rev middlewares) handler"

section \<open>request_id.go\<close>

definition RequestIDHeader :: string where "RequestIDHeader = ''X-Request-ID''"

definition generateRequestId :: "string http" where
  "generateRequestId =
     andThen (call (rand_Read 16)) (\<lambda>res.
       case res of Inl err \<Rightarrow> ret ''unknown'' | Inr b \<Rightarrow> ret (hex_EncodeToString b))"

definition RequestId :: Middleware where
  "RequestId next r =
     andThen (if Header_Get r RequestIDHeader = '''' then generateRequestId
              else ret (Header_Get r RequestIDHeader)) (\<lambda>requestId.
     andThen (Header_Set RequestIDHeader requestId) (\<lambda>_.
       next (WithContext r ((Req_Context r)\<lparr>ctx_request_id := Some requestId\<rparr>))))"

definition GetRequestID :: "request_context \<Rightarrow> string" where
  "GetRequestID ctx = (case ctx_request_id ctx of Some requestId \<Rightarrow> requestId | None \<Rightarrow> '''')"

section \<open>security_headers.go\<close>

definition SecurityHeaders :: Middleware where
  "SecurityHeaders next r =
     andThen (Header_Set ''X-Content-Type-Options'' ''nosniff'') (\<lambda>_.
     andThen (Header_Set ''X-Frame-Options'' ''DENY'') (\<lambda>_.
     andThen (Header_Set ''Referrer-Policy'' ''no-referrer'') (\<lambda>_.
     andThen (Header_Set ''Permissions-Policy'' ''geolocation=(), microphone=(), camera=()'') (\<lambda>_.
       next r))))"

section \<open>cors.go\<close>

record CORSConfig =
  CORSConfig_AllowedOrigins :: "string list"
  CORSConfig_AllowedMethods :: "string list"
  CORSConfig_AllowedHeaders :: "string list"

definition CORS :: "CORSConfig \<Rightarrow> Middleware" where
  "CORS cfg next r =
     (let origins = CORSConfig_AllowedOrigins cfg;
          methods = Join (CORSConfig_AllowedMethods cfg) '', '';
          headers = Join (CORSConfig_AllowedHeaders cfg) '', '';
          origin = Header_Get r ''Origin''
      in andThen
           (if origin \<noteq> '''' \<and> origin \<in> set origins
            then andThen (Header_Set ''Access-Control-Allow-Origin'' origin) (\<lambda>_.
                 andThen (Header_Set ''Vary'' ''Origin'') (\<lambda>_.
                 andThen (Header_Set ''Access-Control-Allow-Methods'' methods) (\<lambda>_.
                   Header_Set ''Access-Control-Allow-Headers'' headers)))
            else ret ()) (\<lambda>_.
           if Req_Method r = ''OPTIONS'' then WriteHeader 204 else next r))"

section \<open>metrics.go and logging.go\<close>

text \<open>
  \<open>rw := newResponseWriter(w); next.ServeHTTP(rw, r); rw.Status()\<close>. A panic passes through,
  leaving the wrapper behind.
\<close>

definition with_responseWriter :: "unit http \<Rightarrow> int http" where
  "with_responseWriter m c =
     (case m (c\<lparr>conn_writers := newResponseWriter # conn_writers c\<rparr>) of
        (Inl p, c') \<Rightarrow> (Inl p, c'\<lparr>conn_writers := tl (conn_writers c')\<rparr>)
      | (Inr _, c') \<Rightarrow>
          (Inr (case conn_writers c' of [] \<Rightarrow> 200 | rw # _ \<Rightarrow> rw_status rw),
           c'\<lparr>conn_writers := tl (conn_writers c')\<rparr>))"

text \<open>An observation of a histogram is counted; its sum and buckets are left out.\<close>

definition Metrics_middleware :: Middleware where
  "Metrics_middleware next r =
     andThen (with_responseWriter (next r)) (\<lambda>code c.
       (let route = (if conn_pattern c = '''' then ''unknown'' else conn_pattern c);
            status = FormatInt code;
            labels = [Req_Method r, route, status]
        in andThen (call (metric_inc ''http_requests_total'' labels)) (\<lambda>_.
           andThen (call (metric_inc ''http_request_duration_seconds'' labels)) (\<lambda>_. ret ())) c))"

definition skipSuccessPaths :: "string list" where
  "skipSuccessPaths = [''/health'', ''/ready'', ''/ping'', ''/info'', ''/version'']"

definition Logging :: Middleware where
  "Logging next r =
     (\<lambda>c0. andThen (with_responseWriter (next r)) (\<lambda>status c.
       (let requestID = GetRequestID (Req_Context r);
            args = [(''request_id'', requestID), (''method'', Req_Method r), (''path'', URL_Path r),
                    (''query'', Req_RawQuery r), (''status'', FormatInt status),
                    (''duration_ms'', FormatInt ((clock (conn_world c) - clock (conn_world c0)) div 10 ^ 6)),
                    (''remote_addr'', Req_RemoteAddr r), (''user_agent'', Header_Get r ''User-Agent'')]
        in if URL_Path r \<in> set skipSuccessPaths \<and> status < 400 then ret ()
           else if status \<ge> 500 then log_at Err ''http request completed'' args
           else if status \<ge> 400 then log_at Warn ''http request completed'' args
           else log_at Info ''http request completed'' args) c) c0)"

section \<open>recovery.go\<close>

text \<open>The deferred function recovers a panic of the handler; the stack is left out of the log.\<close>

definition Recovery :: Middleware where
  "Recovery next r =
     attempt (next r) (\<lambda>res.
       case res of
         Inr _ \<Rightarrow> ret ()
       | Inl rec \<Rightarrow>
           andThen (log_at Err ''panic recovered''
             [(''request_id'', GetRequestID (Req_Context r)), (''panic'', rec)]) (\<lambda>_.
           SendError 500 ''internal_error'' ''Internal server error''))"

text \<open>The chain of internal/app/app.go.\<close>

definition app_chain :: "CORSConfig \<Rightarrow> http_Handler \<Rightarrow> http_Handler" where
  "app_chain cors mux =
     Chain mux [RequestId, SecurityHeaders, CORS cors, Metrics_middleware, Logging, Recovery]"


section \<open>What the wrappers add\<close>

text \<open>The status of an answer; net/http sends 200 when a handler has sent none.\<close>

definition final_status :: "conn \<Rightarrow> int" where
  "final_status c = (case conn_status c of None \<Rightarrow> 200 | Some s \<Rightarrow> s)"

definition http_counts :: "conn \<Rightarrow> string list \<Rightarrow> nat" where
  "http_counts c ls = counters (conn_world c) (''http_requests_total'', ls)"

lemma recorded_status [simp]: "rw_status (recorded st) = (case st of None \<Rightarrow> 200 | Some s \<Rightarrow> s)"
  by (simp add: recorded_def newResponseWriter_def split: option.splits)

lemma push_in_step [simp]:
  "in_step n c \<Longrightarrow> conn_status c = None \<Longrightarrow>
     in_step (Suc n) (c\<lparr>conn_writers := newResponseWriter # conn_writers c\<rparr>)"
  by (simp add: in_step_def recorded_def)

lemma with_responseWriter_run:
  assumes "in_step (Suc n) c1"
    and run: "m (c\<lparr>conn_writers := newResponseWriter # conn_writers c\<rparr>) = (Inr x, c1)"
  shows "with_responseWriter m c = (Inr (final_status c1), c1\<lparr>conn_writers := tl (conn_writers c1)\<rparr>) \<and>
    in_step n (c1\<lparr>conn_writers := tl (conn_writers c1)\<rparr>)"
proof -
  from assms(1) have "conn_writers c1 = recorded (conn_status c1) # replicate n (recorded (conn_status c1))"
    by (simp add: in_step_def)
  then show ?thesis
    by (simp add: with_responseWriter_def run in_step_def final_status_def)
qed

lemma Recovery_run:
  assumes "\<And>n. keeps (in_step n) (next r)" and "in_step n c" and "next r c = (res, c1)"
  shows "Recovery next r c =
    (Inr (), case res of Inr _ \<Rightarrow> c1
       | Inl rec \<Rightarrow> json_answer 500 (Some (ErrorBody_json
           \<lparr>ErrorInfo_Code = ''internal_error'', ErrorInfo_Message = ''Internal server error'',
            ErrorInfo_Fields = []\<rparr>))
           (c1\<lparr>conn_log := conn_log c1 @ [(Err, ''panic recovered'',
              [(''request_id'', GetRequestID (Req_Context r)), (''panic'', rec)])]\<rparr>))"
proof -
  have i: "in_step n c1" by (rule keepsD [OF assms(1,3,2)])
  have s: "SendError 500 e m c2 = (Inr (), json_answer 500 (Some (ErrorBody_json
       \<lparr>ErrorInfo_Code = e, ErrorInfo_Message = m, ErrorInfo_Fields = []\<rparr>)) c2)"
    if "in_step n c2" for e m c2
    unfolding SendError_def by (rule JSON_in_step [OF that]) (simp add: answer_status_def)
  show ?thesis
    by (cases res) (simp_all add: Recovery_def attempt_def assms(3) andThen_def log_at_def modify_def s i)
qed

lemma Recovery_keeps: "(\<And>n. keeps (in_step n) (next r)) \<Longrightarrow> keeps (in_step n) (Recovery next r)"
  unfolding Recovery_def by (intro keeps_intros) (simp_all add: answer_status_def)

lemma log_cases:
  "\<exists>l. (if a then ret () else if b then log_at l1 m args else if d then log_at l2 m args
        else log_at l3 m args) c = (Inr (), c\<lparr>conn_log := l\<rparr>)"
proof -
  have "\<exists>l. ret () c = (Inr (), c\<lparr>conn_log := l\<rparr>)"
    by (rule exI [where x = "conn_log c"]) (simp add: ret_def)
  moreover have "\<exists>l. log_at l' m args c = (Inr (), c\<lparr>conn_log := l\<rparr>)" for l'
    by (simp add: log_at_def modify_def) blast
  ultimately show ?thesis by simp
qed

lemma Logging_run:
  assumes "in_step (Suc n) c1"
    and run: "next r (c\<lparr>conn_writers := newResponseWriter # conn_writers c\<rparr>) = (Inr (), c1)"
  shows "\<exists>l. Logging next r c = (Inr (), c1\<lparr>conn_writers := tl (conn_writers c1), conn_log := l\<rparr>) \<and>
    in_step n (c1\<lparr>conn_writers := tl (conn_writers c1), conn_log := l\<rparr>)"
proof -
  let ?c2 = "c1\<lparr>conn_writers := tl (conn_writers c1)\<rparr>"
  have run2: "with_responseWriter (next r) c = (Inr (final_status c1), ?c2)" and i: "in_step n ?c2"
    using with_responseWriter_run [where m = "next r" and c = c, OF assms(1) run] by blast+
  have "\<exists>l. Logging next r c = (Inr (), ?c2\<lparr>conn_log := l\<rparr>)"
    unfolding Logging_def andThen_def run2 Let_def prod.case sum.case by (rule log_cases)
  with i show ?thesis by auto
qed

lemma Metrics_run:
  assumes "in_step (Suc n) c1"
    and run: "next r (c\<lparr>conn_writers := newResponseWriter # conn_writers c\<rparr>) = (Inr (), c1)"
  shows "\<exists>w. Metrics_middleware next r c = (Inr (), c1\<lparr>conn_writers := tl (conn_writers c1), conn_world := w\<rparr>) \<and>
    db w = db (conn_world c1) \<and>
    (\<forall>ls. counters w (''http_requests_total'', ls) = http_counts c1 ls +
       (if ls = [Req_Method r, if conn_pattern c1 = '''' then ''unknown'' else conn_pattern c1,
                 FormatInt (final_status c1)] then 1 else 0))"
proof -
  define ls0 where "ls0 = [Req_Method r, if conn_pattern c1 = '''' then ''unknown'' else conn_pattern c1,
    FormatInt (final_status c1)]"
  define w where "w = snd (metric_inc ''http_request_duration_seconds'' ls0
    (snd (metric_inc ''http_requests_total'' ls0 (conn_world c1))))"
  let ?c2 = "c1\<lparr>conn_writers := tl (conn_writers c1)\<rparr>"
  have inc: "call (metric_inc name ls) c' =
      (Inr (Inr ()), c'\<lparr>conn_world := snd (metric_inc name ls (conn_world c'))\<rparr>)" for name ls c'
    by (simp add: call_def metric_inc_def modify_def)
  have run2: "with_responseWriter (next r) c = (Inr (final_status c1), ?c2)"
    using with_responseWriter_run [where m = "next r" and c = c, OF assms(1) run] by blast
  have "db w = db (conn_world c1)" by (simp add: w_def metric_inc_def modify_def)
  moreover have pat: "conn_pattern ?c2 = conn_pattern c1" by simp
  have "Metrics_middleware next r c = (Inr (), ?c2\<lparr>conn_world := w\<rparr>)"
    unfolding Metrics_middleware_def andThen_def run2 Let_def prod.case sum.case pat inc
      ls0_def [symmetric]
    by (simp add: ret_def w_def)
  moreover have "counters w (''http_requests_total'', ls) = http_counts c1 ls + (if ls = ls0 then 1 else 0)" for ls
    by (simp add: w_def metric_inc_def modify_def http_counts_def)
  ultimately show ?thesis unfolding ls0_def by blast
qed


text \<open>What the outer wrappers do before the inner ones run.\<close>

lemma rand_Read_world: "\<exists>e. snd (rand_Read n w) = w\<lparr>entropy := e\<rparr>"
proof (cases "entropy w")
  case Nil
  then have "snd (rand_Read n w) = w\<lparr>entropy := entropy w\<rparr>" by (simp add: rand_Read_def)
  then show ?thesis by blast
qed (auto simp: rand_Read_def split: sum.splits)

definition entered :: "conn \<Rightarrow> conn \<Rightarrow> bool" where
  "entered c c0 \<longleftrightarrow>
     conn_method c0 = conn_method c \<and> conn_status c0 = conn_status c \<and> conn_sent c0 = conn_sent c \<and>
     conn_body c0 = conn_body c \<and> conn_writers c0 = conn_writers c \<and> conn_pattern c0 = conn_pattern c \<and>
     conn_log c0 = conn_log c \<and> db (conn_world c0) = db (conn_world c) \<and>
     seqs (conn_world c0) = seqs (conn_world c) \<and> tx (conn_world c0) = tx (conn_world c) \<and>
     clock (conn_world c0) = clock (conn_world c) \<and> plan (conn_world c0) = plan (conn_world c) \<and>
     redis (conn_world c0) = redis (conn_world c) \<and> topic_log (conn_world c0) = topic_log (conn_world c) \<and>
     committed (conn_world c0) = committed (conn_world c) \<and>
     counters (conn_world c0) = counters (conn_world c)"


lemma entered_refl [simp]: "entered c c"
  by (simp add: entered_def)

lemma entered_trans: "entered c c1 \<Longrightarrow> entered c1 c2 \<Longrightarrow> entered c c2"
  by (simp add: entered_def)

lemma entered_header [simp]: "entered c (c1\<lparr>conn_header := h\<rparr>) = entered c c1"
  by (simp add: entered_def)

lemma enteredD:
  assumes "entered c c0"
  shows "in_step n c0 = in_step n c" "conn_status c0 = conn_status c" "conn_body c0 = conn_body c"
    "http_counts c0 = http_counts c" "db (conn_world c0) = db (conn_world c)"
    "seqs (conn_world c0) = seqs (conn_world c)" "clock (conn_world c0) = clock (conn_world c)"
    "conn_pattern c0 = conn_pattern c" "conn_method c0 = conn_method c" "conn_writers c0 = conn_writers c"
  using assms by (simp_all add: entered_def http_counts_def in_step_def fun_eq_iff)

definition set_header :: "string \<Rightarrow> string \<Rightarrow> conn \<Rightarrow> conn" where
  "set_header k v c = c\<lparr>conn_header := (conn_header c)(CanonicalHeaderKey k \<mapsto> v)\<rparr>"

lemma Header_Set_run: "Header_Set k v c = (Inr (), set_header k v c)"
  by (simp add: Header_Set_def modify_def set_header_def)

lemma Header_Set_then: "andThen (Header_Set k v) f c = f () (set_header k v c)"
  by (simp add: andThen_def Header_Set_run)

lemma entered_set_header [simp]: "entered c (set_header k v c1) = entered c c1"
  by (simp add: set_header_def)

lemma RequestId_enter:
  obtains ctx c0 where "RequestId next r c = next (WithContext r ctx) c0"
    and "ctx_principal ctx = ctx_principal (Req_Context r)" and "entered c c0"
proof -
  obtain rid c1 where g: "(if Header_Get r RequestIDHeader = '''' then generateRequestId
      else ret (Header_Get r RequestIDHeader)) c = (Inr rid, c1)" and e: "entered c c1"
  proof (cases "Header_Get r RequestIDHeader = ''''")
    case True
    obtain res w where w: "rand_Read 16 (conn_world c) = (res, w)" by (rule prod.exhaust)
    have "entered c (c\<lparr>conn_world := w\<rparr>)"
      using rand_Read_world [of 16 "conn_world c"] w by (auto simp: entered_def)
    then show ?thesis
      using that w True by (cases res) (simp_all add: generateRequestId_def andThen_def call_def ret_def)
  qed (use that in \<open>simp add: ret_def\<close>)
  let ?ctx = "(Req_Context r)\<lparr>ctx_request_id := Some rid\<rparr>"
  show ?thesis
  proof (rule that [of ?ctx])
    show "RequestId next r c = next (WithContext r ?ctx)
        (set_header RequestIDHeader rid c1)"
      unfolding RequestId_def andThen_def g Header_Set_run prod.case sum.case ..
  qed (use e in simp_all)
qed

lemma SecurityHeaders_enter:
  obtains c0 where "SecurityHeaders next r c = next r c0" and "entered c c0"
  by (rule that, unfold SecurityHeaders_def Header_Set_then, rule refl, simp)

lemma CORS_enter:
  assumes "Req_Method r \<noteq> ''OPTIONS''"
  obtains c0 where "CORS cfg next r c = next r c0" and "entered c c0"
proof (cases "Header_Get r ''Origin'' \<noteq> '''' \<and> Header_Get r ''Origin'' \<in> set (CORSConfig_AllowedOrigins cfg)")
  case True
  have assoc: "andThen (andThen (Header_Set k v) f) g c' = andThen (f ()) g (set_header k v c')"
    for k v f g c' by (simp add: andThen_def Header_Set_run)
  show ?thesis
    by (rule that, unfold CORS_def Let_def if_P [OF True] assoc Header_Set_then if_not_P [OF assms],
        rule refl, simp)
next
  case False
  show ?thesis
    by (rule that [of c], unfold CORS_def Let_def if_not_P [OF False] if_not_P [OF assms])
      (simp_all add: andThen_def ret_def)
qed


lemma app_chain_unfold:
  "app_chain cors mux =
     RequestId (SecurityHeaders (CORS cors (Metrics_middleware (Logging (Recovery mux)))))"
  by (simp add: app_chain_def Chain_def)

lemma app_chain_enter:
  assumes "Req_Method r \<noteq> ''OPTIONS''"
  obtains ctx c0 where
    "app_chain cors mux r c = Metrics_middleware (Logging (Recovery mux)) (WithContext r ctx) c0"
    and "ctx_principal ctx = ctx_principal (Req_Context r)" and "entered c c0"
proof -
  obtain ctx c1 where 1: "app_chain cors mux r c =
      SecurityHeaders (CORS cors (Metrics_middleware (Logging (Recovery mux)))) (WithContext r ctx) c1"
    "ctx_principal ctx = ctx_principal (Req_Context r)" "entered c c1"
    unfolding app_chain_unfold by (rule RequestId_enter)
  obtain c2 where 2: "SecurityHeaders (CORS cors (Metrics_middleware (Logging (Recovery mux))))
      (WithContext r ctx) c1 = CORS cors (Metrics_middleware (Logging (Recovery mux))) (WithContext r ctx) c2"
    "entered c1 c2" by (rule SecurityHeaders_enter)
  have m: "Req_Method (WithContext r ctx) \<noteq> ''OPTIONS''" using assms by (simp add: WithContext_def)
  obtain c3 where 3: "CORS cors (Metrics_middleware (Logging (Recovery mux))) (WithContext r ctx) c2 =
      Metrics_middleware (Logging (Recovery mux)) (WithContext r ctx) c3" "entered c2 c3"
    by (rule CORS_enter [OF m])
  show ?thesis
    by (rule that [of ctx c3]) (use 1 2 3 in \<open>auto intro: entered_trans\<close>)
qed

text \<open>The interface of a mux for the wrappers: it keeps the writers in step.\<close>

locale answering_handler =
  fixes serve :: http_Handler
  assumes orderly: "keeps (in_step n) (serve r)"
begin

text \<open>The inner wrappers: never a panic, and the answer of the handler, or 500 for its panic.\<close>

lemma inner_run:
  assumes "in_step 0 c" "conn_status c = None" "serve r (c\<lparr>conn_writers := [newResponseWriter, newResponseWriter]\<rparr>) = (res, c1)"
  shows "\<exists>c'. Metrics_middleware (Logging (Recovery serve)) r c = (Inr (), c') \<and> in_step 0 c' \<and>
    (case res of Inr _ \<Rightarrow> conn_status c' = conn_status c1 \<and> conn_body c' = conn_body c1
     | Inl p \<Rightarrow> conn_status c' = Some (case conn_status c1 of None \<Rightarrow> 500 | Some s \<Rightarrow> s)) \<and>
    db (conn_world c') = db (conn_world c1) \<and>
    (\<forall>ls. http_counts c' ls = http_counts c1 ls +
       (if ls = [Req_Method r, if conn_pattern c1 = '''' then ''unknown'' else conn_pattern c1,
                 FormatInt (final_status c')] then 1 else 0))"
proof -
  let ?ca = "c\<lparr>conn_writers := newResponseWriter # conn_writers c\<rparr>"
  let ?cb = "?ca\<lparr>conn_writers := newResponseWriter # conn_writers ?ca\<rparr>"
  have w0: "conn_writers c = []" using assms(1) by (simp add: in_step_def)
  have i2: "in_step 2 ?cb"
    using push_in_step [OF push_in_step [OF assms(1,2)]] assms(2) by (simp add: numeral_2_eq_2)
  have run: "serve r ?cb = (res, c1)" using assms(3) w0 by simp
  have i1: "in_step 2 c1" by (rule keepsD [OF orderly run i2])
  obtain c2 where rec: "Recovery serve r ?cb = (Inr (), c2)" and i3: "in_step 2 c2"
    and c2: "conn_pattern c2 = conn_pattern c1" "conn_world c2 = conn_world c1"
      "case res of Inr _ \<Rightarrow> conn_status c2 = conn_status c1 \<and> conn_body c2 = conn_body c1
     | Inl p \<Rightarrow> conn_status c2 = Some (case conn_status c1 of None \<Rightarrow> 500 | Some s \<Rightarrow> s)"
    using Recovery_run [where ?next = serve and r = r, OF orderly i2 run] i1
    by (cases res; cases "conn_status c1")
      (auto simp: json_answer_def Let_def sent_header_def sent_doc_def in_step_def)
  obtain l where log: "Logging (Recovery serve) r ?ca =
      (Inr (), c2\<lparr>conn_writers := tl (conn_writers c2), conn_log := l\<rparr>)"
    and i4: "in_step 1 (c2\<lparr>conn_writers := tl (conn_writers c2), conn_log := l\<rparr>)"
    using Logging_run [where ?next = "Recovery serve" and r = r and n = 1, OF _ rec] i3
    by (auto simp: numeral_2_eq_2)
  let ?c3 = "c2\<lparr>conn_writers := tl (conn_writers c2), conn_log := l\<rparr>"
  have i5: "in_step (Suc 0) ?c3" using i4 by simp
  obtain w where met: "Metrics_middleware (Logging (Recovery serve)) r c =
      (Inr (), ?c3\<lparr>conn_writers := tl (conn_writers ?c3), conn_world := w\<rparr>)"
    and w: "db w = db (conn_world c2)"
      "\<And>ls. counters w (''http_requests_total'', ls) = http_counts ?c3 ls +
       (if ls = [Req_Method r, if conn_pattern ?c3 = '''' then ''unknown'' else conn_pattern ?c3,
                 FormatInt (final_status ?c3)] then 1 else 0)"
    using Metrics_run [where ?next = "Logging (Recovery serve)" and r = r, OF i5 log] by auto
  let ?c4 = "?c3\<lparr>conn_writers := tl (conn_writers ?c3), conn_world := w\<rparr>"
  have "in_step 0 ?c4" using i5 by (simp add: in_step_def)
  moreover have "http_counts ?c3 = http_counts c1" using c2(2) by (simp add: http_counts_def fun_eq_iff)
  moreover have "http_counts ?c4 ls = counters w (''http_requests_total'', ls)" for ls
    by (simp add: http_counts_def)
  moreover have "final_status ?c4 = final_status ?c3" by (simp add: final_status_def)
  ultimately show ?thesis
    using c2 w by (intro exI [where x = ?c4] conjI met) (simp_all split: sum.splits)
qed

end


text \<open>
  What the chain makes of a handler's run that began at \<open>c0\<close> and ended at \<open>c1\<close>: its
  answer, or 500 for a panic that had sent nothing, and one request counted.
\<close>

definition chain_answers :: "request \<Rightarrow> string + unit \<Rightarrow> conn \<Rightarrow> conn \<Rightarrow> bool" where
  "chain_answers r res c1 c' \<longleftrightarrow>
     (case res of Inr _ \<Rightarrow> conn_status c' = conn_status c1 \<and> conn_body c' = conn_body c1
      | Inl p \<Rightarrow> conn_status c' = Some (case conn_status c1 of None \<Rightarrow> 500 | Some s \<Rightarrow> s)) \<and>
     db (conn_world c') = db (conn_world c1) \<and>
     (\<forall>ls. http_counts c' ls = http_counts c1 ls +
        (if ls = [Req_Method r, if conn_pattern c1 = '''' then ''unknown'' else conn_pattern c1,
                  FormatInt (final_status c')] then 1 else 0))"

definition pushed :: "conn \<Rightarrow> conn" where
  "pushed c = c\<lparr>conn_writers := [newResponseWriter, newResponseWriter]\<rparr>"

context answering_handler
begin

lemma chain_run:
  assumes "Req_Method r \<noteq> ''OPTIONS''" "in_step 0 c" "conn_status c = None"
  obtains ctx c0 res c1 c' where "app_chain cors serve r c = (Inr (), c')"
    and "ctx_principal ctx = ctx_principal (Req_Context r)" and "entered c c0"
    and "serve (WithContext r ctx) (pushed c0) = (res, c1)"
    and "in_step 0 c'" and "chain_answers r res c1 c'"
proof -
  obtain ctx c0 where 1: "app_chain cors serve r c =
      Metrics_middleware (Logging (Recovery serve)) (WithContext r ctx) c0"
    "ctx_principal ctx = ctx_principal (Req_Context r)" "entered c c0"
    by (rule app_chain_enter [OF assms(1)])
  obtain res c1 where run: "serve (WithContext r ctx) (pushed c0) = (res, c1)" by (rule prod.exhaust)
  have i: "in_step 0 c0" "conn_status c0 = None"
    using enteredD [OF 1(3)] assms(2,3) by auto
  from inner_run [OF i(1,2) run [unfolded pushed_def]] 1 that [OF _ 1(2,3) run]
  show ?thesis by (auto simp: chain_answers_def WithContext_def)
qed

end

end
