(* ===== verification/App_Http.thy ===== *)
theory App_Http
  imports Auth_Http Middleware
begin

text \<open>
  The HTTP side of internal/app: health.go, the routes of the modules as \<open>Run\<close> registers them
  on \<open>http.ServeMux\<close>, and the handler of the server, the mux inside the chain of middlewares.
\<close>

section \<open>health.go\<close>

type_synonym Pinger = "unit prog"

text \<open>\<open>shuttingDown\<close> is what the atomic flag holds when the request loads it.\<close>

record HealthHandlers =
  health_db :: Pinger
  health_redis :: Pinger
  health_kafka :: Pinger
  health_shuttingDown :: bool

definition NewHealthHandlers :: "Pinger \<Rightarrow> Pinger \<Rightarrow> Pinger \<Rightarrow> bool \<Rightarrow> HealthHandlers" where
  "NewHealthHandlers db_ping redis_ping kafka_ping shuttingDown =
     \<lparr>health_db = db_ping, health_redis = redis_ping, health_kafka = kafka_ping,
      health_shuttingDown = shuttingDown\<rparr>"

definition Health :: http_Handler where
  "Health r = JSON 200 (Some (json_map [(''status'', ''ok'')]))"

record readinessResponse =
  readiness_Status :: string
  readiness_Checks :: fields

definition readinessResponse_json :: "readinessResponse \<Rightarrow> json" where
  "readinessResponse_json r =
     JObject [(''status'', json_text (readiness_Status r)), (''checks'', json_map (readiness_Checks r))]"

text \<open>The assignment to an entry of the map, which has the three names from the start.\<close>

definition put_check :: "string \<Rightarrow> string \<Rightarrow> fields \<Rightarrow> fields" where
  "put_check name v checks = map (\<lambda>(n, v'). if n = name then (n, v) else (n, v')) checks"

text \<open>\<open>check\<close>: whether it returned an error, and the map.\<close>

definition health_check :: "string \<Rightarrow> Pinger \<Rightarrow> fields \<Rightarrow> (bool \<times> fields) http" where
  "health_check name checker checks =
     andThen (call checker) (\<lambda>res. case res of
         Inl err \<Rightarrow>
           andThen (log_at Warn ''readiness dependency check failed''
             [(''dependency'', name), (''error'', Error err)]) (\<lambda>_.
           ret (True, put_check name ''unavailable'' checks))
       | Inr _ \<Rightarrow> ret (False, put_check name ''ok'' checks))"

definition Ready :: "HealthHandlers \<Rightarrow> http_Handler" where
  "Ready h r =
     (if health_shuttingDown h then
        JSON 503 (Some (readinessResponse_json \<lparr>readiness_Status = ''shutting_down'',
          readiness_Checks = [(''database'', ''skipped''), (''redis'', ''skipped''), (''kafka'', ''skipped'')]\<rparr>))
      else
        (let checks = [(''database'', ''unknown''), (''redis'', ''unknown''), (''kafka'', ''unknown'')]
         in andThen (health_check ''database'' (health_db h) checks) (\<lambda>(err1, checks1).
            andThen (health_check ''redis'' (health_redis h) checks1) (\<lambda>(err2, checks2).
            andThen (health_check ''kafka'' (health_kafka h) checks2) (\<lambda>(err3, checks3).
              let ready = (\<not> err1 \<and> \<not> err2 \<and> \<not> err3)
              in if \<not> ready then
                   JSON 503 (Some (readinessResponse_json
                     \<lparr>readiness_Status = ''not_ready'', readiness_Checks = checks3\<rparr>))
                 else
                   JSON 200 (Some (readinessResponse_json
                     \<lparr>readiness_Status = ''ready'', readiness_Checks = checks3\<rparr>)))))))"

section \<open>http.ServeMux\<close>

datatype segment = Lit string | Wild string

text \<open>A pattern \<open>METHOD /path\<close>, as the routes write them.\<close>

record route =
  route_pattern :: string
  route_handler :: http_Handler

definition pattern_method :: "string \<Rightarrow> string" where
  "pattern_method p = hd (Split p CHR '' '')"

definition parse_segment :: "string \<Rightarrow> segment" where
  "parse_segment s =
     (if s \<noteq> '''' \<and> hd s = CHR 0x7B then Wild (take (length s - 2) (tl s)) else Lit s)"

definition path_segments :: "string \<Rightarrow> string list" where
  "path_segments path = tl (Split path CHR ''/'')"

definition pattern_segments :: "string \<Rightarrow> segment list" where
  "pattern_segments p = map parse_segment (path_segments (Join (tl (Split p CHR '' '')) '' ''))"

text \<open>A wildcard matches one segment, which is not the end of the path after a slash.\<close>

fun match_segments :: "segment list \<Rightarrow> string list \<Rightarrow> (string \<times> string) list option" where
  "match_segments [] [] = Some []"
| "match_segments (Lit s # ps) (x # xs) = (if x = s then match_segments ps xs else None)"
| "match_segments (Wild n # ps) (x # xs) =
     (if x = '''' \<or> x = ''/'' then None else map_option (\<lambda>ms. (n, x) # ms) (match_segments ps xs))"
| "match_segments _ _ = None"

definition match_path :: "string \<Rightarrow> string \<Rightarrow> (string \<times> string) list option" where
  "match_path pattern path =
     match_segments (pattern_segments pattern) (map unescape (path_segments path))"

text \<open>A literal segment takes precedence over a wildcard, from the left.\<close>

fun more_specific :: "segment list \<Rightarrow> segment list \<Rightarrow> bool" where
  "more_specific (Lit s # ps) (Wild n # qs) = True"
| "more_specific (Wild n # ps) (Lit s # qs) = False"
| "more_specific (p # ps) (q # qs) = more_specific ps qs"
| "more_specific _ _ = False"

fun best_route :: "route list \<Rightarrow> route option" where
  "best_route [] = None"
| "best_route (rt # rts) =
     (case best_route rts of
        None \<Rightarrow> Some rt
      | Some rt' \<Rightarrow>
          if more_specific (pattern_segments (route_pattern rt')) (pattern_segments (route_pattern rt))
          then Some rt' else Some rt)"

text \<open>A request with HEAD that no HEAD pattern matches is matched as GET.\<close>

definition find_route :: "route list \<Rightarrow> string \<Rightarrow> string \<Rightarrow> route option" where
  "find_route routes meth path =
     (let matching = (\<lambda>m. best_route (filter (\<lambda>rt. pattern_method (route_pattern rt) = m \<and>
            match_path (route_pattern rt) path \<noteq> None) routes))
      in case matching meth of
           Some rt \<Rightarrow> Some rt
         | None \<Rightarrow> if meth = ''HEAD'' then matching ''GET'' else None)"

fun clean_segments :: "string list \<Rightarrow> string list \<Rightarrow> string list" where
  "clean_segments acc [] = rev acc"
| "clean_segments acc (s # ss) =
     (if s = '''' \<or> s = ''.'' then clean_segments acc ss
      else if s = ''..'' then clean_segments (tl acc) ss
      else clean_segments (s # acc) ss)"

definition cleanPath :: "string \<Rightarrow> string" where
  "cleanPath p =
     (if p = '''' then ''/''
      else let np = CHR ''/'' # Join (clean_segments [] (Split p CHR ''/'')) ''/''
           in if last p = CHR ''/'' \<and> np \<noteq> ''/'' then np @ ''/'' else np)"

text \<open>\<open>http.Error\<close>\<close>

definition http_Error :: "string \<Rightarrow> int \<Rightarrow> unit http" where
  "http_Error text code =
     andThen (Header_Set ''Content-Type'' ''text/plain; charset=utf-8'') (\<lambda>_.
     andThen (Header_Set ''X-Content-Type-Options'' ''nosniff'') (\<lambda>_.
     andThen (WriteHeader code) (\<lambda>_.
       Write (RawDoc (text @ [CHR 0x0A])))))"

definition set_pattern :: "string \<Rightarrow> unit http" where
  "set_pattern p = modify (\<lambda>c. c\<lparr>conn_pattern := p\<rparr>)"

definition allowed_methods :: "route list \<Rightarrow> string \<Rightarrow> string list" where
  "allowed_methods routes path =
     (let ms = map (\<lambda>rt. pattern_method (route_pattern rt))
                 (filter (\<lambda>rt. match_path (route_pattern rt) path \<noteq> None) routes)
      in sort (remdups (if ''GET'' \<in> set ms then ''HEAD'' # ms else ms)))"

text \<open>
  \<open>ServeHTTP\<close>: the redirect to the clean path, the handler with the pattern and the path values
  set on the request, or 404 or 405. The status of the redirect differs between releases of Go
  and is a parameter, with the address (from the path and the query) and the page it sends.
\<close>

record redirect_page =
  redirect_status :: int
  redirect_location :: "string \<Rightarrow> string \<Rightarrow> string"
  redirect_body :: "string \<Rightarrow> string"

definition ServeHTTP :: "redirect_page \<Rightarrow> route list \<Rightarrow> http_Handler" where
  "ServeHTTP rp routes r =
     (let path = (if Req_Method r = ''CONNECT'' then Req_Path r else cleanPath (Req_Path r));
          found = find_route routes (Req_Method r) path
      in if Req_Path r = ''*'' then WriteHeader 400
         else if path \<noteq> Req_Path r then
           andThen (set_pattern (case found of None \<Rightarrow> '''' | Some rt \<Rightarrow> route_pattern rt)) (\<lambda>_.
           andThen (Header_Set ''Location'' (redirect_location rp path (Req_RawQuery r))) (\<lambda>_.
           andThen (Header_Set ''Content-Type'' ''text/html; charset=utf-8'') (\<lambda>_.
           andThen (WriteHeader (redirect_status rp)) (\<lambda>_.
             if Req_Method r = ''GET'' then Write (RawDoc (redirect_body rp path)) else ret ()))))
         else (case found of
             Some rt \<Rightarrow>
               andThen (set_pattern (route_pattern rt)) (\<lambda>_.
                 route_handler rt (r\<lparr>Req_PathValues := the (match_path (route_pattern rt) path)\<rparr>))
           | None \<Rightarrow>
               (if allowed_methods routes path \<noteq> [] then
                  andThen (Header_Set ''Allow'' (Join (allowed_methods routes path) '', '')) (\<lambda>_.
                    http_Error ''Method Not Allowed'' 405)
                else http_Error ''404 page not found'' 404)))"


section \<open>The routes of internal/app and of the packages auth and user\<close>

text \<open>
  What \<open>Run\<close> has built when it makes the mux: the settings of the application, the handlers of
  the modules, and the handler of the Prometheus library, which is a parameter.
\<close>

record app =
  app_Name :: string
  app_Version :: string
  app_Environment :: string
  app_metrics_handler :: http_Handler
  app_health :: HealthHandlers
  app_auth :: auth_Handler
  app_authMiddleware :: MiddleWare
  app_userHandler :: user_Handler
  app_CORS :: CORSConfig
  app_redirect :: redirect_page

definition route_to :: "string \<Rightarrow> http_Handler \<Rightarrow> route" where
  "route_to p h = \<lparr>route_pattern = p, route_handler = h\<rparr>"

definition ping_handler :: http_Handler where
  "ping_handler r = JSON 200 (Some (json_map [(''message'', ''pong'')]))"

definition info_handler :: "app \<Rightarrow> http_Handler" where
  "info_handler a r = JSON 200 (Some (json_map
     [(''name'', app_Name a), (''version'', app_Version a), (''environment'', app_Environment a)]))"

definition version_handler :: "app \<Rightarrow> http_Handler" where
  "version_handler a r = JSON 200 (Some (json_map
     [(''name'', app_Name a), (''version'', app_Version a)]))"

definition panic_handler :: http_Handler where
  "panic_handler r = throw ''local test panic''"

definition initHealthModule :: "app \<Rightarrow> route list" where
  "initHealthModule a =
     [route_to ''GET /ready'' (Ready (app_health a)),
      route_to ''GET /health'' Health,
      route_to ''GET /ping'' ping_handler,
      route_to ''GET /info'' (info_handler a),
      route_to ''GET /version'' (version_handler a)] @
     (if app_Environment a = ''local'' then [route_to ''GET /panic'' panic_handler] else [])"

definition auth_RegisterRoutes :: "auth_Handler \<Rightarrow> MiddleWare \<Rightarrow> route list" where
  "auth_RegisterRoutes h authMiddleware =
     [route_to ''POST /auth/register'' (Handler_Register h),
      route_to ''POST /auth/login'' (Handler_Login h),
      route_to ''POST /auth/refresh'' (Handler_Refresh h),
      route_to ''POST /auth/logout'' (Handler_Logout h),
      route_to ''GET /auth/me'' (RequireAuth authMiddleware (Handler_Me h))]"

definition user_RegisterRoutes :: "user_Handler \<Rightarrow> http_Middleware \<Rightarrow> http_Middleware \<Rightarrow> route list" where
  "user_RegisterRoutes h requireAdmin requireSelfOrAdmin =
     [route_to ''GET /users'' (requireAdmin (Handler_ListUsers h)),
      route_to ''GET /users/by-email/{email}'' (requireAdmin (Handler_GetUsersByEmail h)),
      route_to ''DELETE /users/{id}'' (requireAdmin (Handler_DeleteUser h)),
      route_to ''GET /users/{id}'' (requireSelfOrAdmin (Handler_GetUserById h)),
      route_to ''PUT /users/{id}'' (requireSelfOrAdmin (Handler_UpdateUser h)),
      route_to ''POST /users'' (requireAdmin (Handler_CreateUser h)),
      route_to ''POST /users/with-profile'' (requireAdmin (Handler_CreateUserWithProfile h))]"

definition initUserModule :: "app \<Rightarrow> route list" where
  "initUserModule a =
     user_RegisterRoutes (app_userHandler a)
       (RequireRole (app_authMiddleware a) [RoleAdmin])
       (RequireSelfOrRole (app_authMiddleware a) (PathInt64Param ''id'') [RoleAdmin])"

definition app_routes :: "app \<Rightarrow> route list" where
  "app_routes a =
     [route_to ''GET /metrics'' (app_metrics_handler a)] @ initHealthModule a @
     auth_RegisterRoutes (app_auth a) (app_authMiddleware a) @ initUserModule a"

definition app_mux :: "app \<Rightarrow> http_Handler" where
  "app_mux a = ServeHTTP (app_redirect a) (app_routes a)"

definition app_handler :: "app \<Rightarrow> http_Handler" where
  "app_handler a = app_chain (app_CORS a) (app_mux a)"

end
