(* ===== verification/Config.thy ===== *)
theory Config
  imports Auth_Http
begin

text \<open>
  internal/config/config.go: the settings with the tags of their fields, the checks of
  \<open>Load\<close> and \<open>Validate\<close>, the lists separated by commas and the addresses. A duration is a
  number of nanoseconds, a \<open>float64\<close> a fraction. The packages cleanenv (which reads the file and
  the environment) and validator, and the file system, are parameters.
\<close>

section \<open>The settings\<close>

record HTTPConfig =
  HTTPConfig_Host :: string
  HTTPConfig_Port :: int
  HTTPConfig_ReadTimeout :: int
  HTTPConfig_WriteTimeout :: int
  HTTPConfig_IdleTimeout :: int
  HTTPConfig_ReadHeaderTimeout :: int
  HTTPConfig_ShutdownTimeout :: int

record TimeoutsConfig =
  TimeoutsConfig_DatabaseQuery :: int
  TimeoutsConfig_RedisCommand :: int
  TimeoutsConfig_KafkaProduce :: int
  TimeoutsConfig_KafkaConsume :: int

record PoolConfig =
  PoolConfig_MaxCons :: int
  PoolConfig_MinCons :: int
  PoolConfig_MaxConLifeTime :: int
  PoolConfig_MaxConIdleTime :: int
  PoolConfig_HealthCheckPeriod :: int

record DatabaseConfig =
  DatabaseConfig_Host :: string
  DatabaseConfig_Port :: int
  DatabaseConfig_Name :: string
  DatabaseConfig_User :: string
  DatabaseConfig_Password :: string
  DatabaseConfig_Pool :: PoolConfig
  DatabaseConfig_SSL :: string

record GRPCConfig =
  GRPCConfig_Host :: string
  GRPCConfig_Port :: int
  GRPCConfig_ShutdownTimeout :: int

record LogConfig =
  LogConfig_Level :: string

record TelemetryConfig =
  TelemetryConfig_Enabled :: bool
  TelemetryConfig_Exporter :: string
  TelemetryConfig_Endpoint :: string
  TelemetryConfig_Insecure :: bool
  TelemetryConfig_SampleRatio :: "int \<times> int"

record AppConfig =
  AppConfig_Name :: string
  AppConfig_Version :: string
  AppConfig_Environment :: string

record AuthConfig =
  AuthConfig_JWTSecret :: string
  AuthConfig_AccessTokenTTL :: int
  AuthConfig_RefreshTokenTTL :: int

record RedisConfig =
  RedisConfig_Host :: string
  RedisConfig_Port :: int
  RedisConfig_Password :: string
  RedisConfig_DB :: int

record config_CORSConfig =
  config_CORS_AllowedOrigins :: string
  config_CORS_AllowedMethods :: string
  config_CORS_AllowedHeaders :: string

record KafkaConfig =
  KafkaConfig_Brokers :: string
  KafkaConfig_OutboxTopic :: string
  KafkaConfig_ProducerBatchMaxBytes :: int
  KafkaConfig_ProducerLinger :: int
  KafkaConfig_ConsumerGroup :: string

record CacheConfig =
  CacheConfig_UserTTL :: int

record Config =
  Config_HTTP :: HTTPConfig
  Config_GRPC :: GRPCConfig
  Config_Database :: DatabaseConfig
  Config_Log :: LogConfig
  Config_App :: AppConfig
  Config_Auth :: AuthConfig
  Config_RateLimit :: RateLimitConfig
  Config_Redis :: RedisConfig
  Config_Cache :: CacheConfig
  Config_Worker :: WorkerConfig
  Config_Kafka :: KafkaConfig
  Config_Timeouts :: TimeoutsConfig
  Config_CORS :: config_CORSConfig
  Config_Telemetry :: TelemetryConfig

section \<open>The tags of the fields\<close>

definition config_field :: "string \<Rightarrow> (string \<times> string) list \<Rightarrow> field_value \<Rightarrow> struct_field" where
  "config_field goName tags v = \<lparr>field_GoName = goName, field_Tags = tags, field_Value = v\<rparr>"

definition PoolConfig_fields :: "PoolConfig \<Rightarrow> struct_field list" where
  "PoolConfig_fields c =
     [config_field ''MaxCons''
        [(''yaml'', ''max_cons''), (''env'', ''MAX_CONS''), (''env-default'', ''10''), (''validate'', ''gt=0'')]
        (VInt (PoolConfig_MaxCons c)),
      config_field ''MinCons''
        [(''yaml'', ''min_cons''), (''env'', ''MIN_CONS''), (''env-default'', ''10''), (''validate'', ''gt=0'')]
        (VInt (PoolConfig_MinCons c)),
      config_field ''MaxConLifeTime''
        [(''yaml'', ''max_con_life_time''), (''env'', ''MAX_CON_LIFE_TIME''), (''env-default'', ''1h''), (''validate'', ''gt=0'')]
        (VInt (PoolConfig_MaxConLifeTime c)),
      config_field ''MaxConIdleTime''
        [(''yaml'', ''max_con_idle_time''), (''env'', ''MAX_CON_IDLE_TIME''), (''env-default'', ''20m''), (''validate'', ''gt=0'')]
        (VInt (PoolConfig_MaxConIdleTime c)),
      config_field ''HealthCheckPeriod''
        [(''yaml'', ''health_check_period''), (''env'', ''HEALTH_CHECK_PERIOD''), (''env-default'', ''1m''), (''validate'', ''gt=0'')]
        (VInt (PoolConfig_HealthCheckPeriod c))]"

definition HTTPConfig_fields :: "HTTPConfig \<Rightarrow> struct_field list" where
  "HTTPConfig_fields c =
     [config_field ''Host''
        [(''yaml'', ''host''), (''env'', ''HOST''), (''env-default'', ''0.0.0.0''), (''validate'', ''required'')]
        (VString (HTTPConfig_Host c)),
      config_field ''Port''
        [(''yaml'', ''port''), (''env'', ''PORT''), (''env-default'', ''8080''), (''validate'', ''gte=1,lte=65535'')]
        (VInt (HTTPConfig_Port c)),
      config_field ''ReadTimeout''
        [(''yaml'', ''read_timeout''), (''env'', ''READ_TIMEOUT''), (''env-default'', ''5s''), (''validate'', ''gt=0'')]
        (VInt (HTTPConfig_ReadTimeout c)),
      config_field ''WriteTimeout''
        [(''yaml'', ''write_timeout''), (''env'', ''WRITE_TIMEOUT''), (''env-default'', ''10s''), (''validate'', ''gt=0'')]
        (VInt (HTTPConfig_WriteTimeout c)),
      config_field ''IdleTimeout''
        [(''yaml'', ''idle_timeout''), (''env'', ''IDLE_TIMEOUT''), (''env-default'', ''1m''), (''validate'', ''gt=0'')]
        (VInt (HTTPConfig_IdleTimeout c)),
      config_field ''ReadHeaderTimeout''
        [(''yaml'', ''read_header_timeout''), (''env'', ''READ_HEADER_TIMEOUT''), (''env-default'', ''5s''), (''validate'', ''gt=0'')]
        (VInt (HTTPConfig_ReadHeaderTimeout c)),
      config_field ''ShutdownTimeout''
        [(''yaml'', ''shutdown_timeout''), (''env'', ''SHUTDOWN_TIMEOUT''), (''env-default'', ''10s''), (''validate'', ''gt=0'')]
        (VInt (HTTPConfig_ShutdownTimeout c))]"

definition GRPCConfig_fields :: "GRPCConfig \<Rightarrow> struct_field list" where
  "GRPCConfig_fields c =
     [config_field ''Host''
        [(''yaml'', ''host''), (''env'', ''HOST''), (''env-default'', ''0.0.0.0''), (''validate'', ''required'')]
        (VString (GRPCConfig_Host c)),
      config_field ''Port''
        [(''yaml'', ''port''), (''env'', ''PORT''), (''env-default'', ''50051''), (''validate'', ''gte=1,lte=65535'')]
        (VInt (GRPCConfig_Port c)),
      config_field ''ShutdownTimeout''
        [(''yaml'', ''shutdown_timeout''), (''env'', ''SHUTDOWN_TIMEOUT''), (''env-default'', ''10s''), (''validate'', ''gt=0'')]
        (VInt (GRPCConfig_ShutdownTimeout c))]"

definition DatabaseConfig_fields :: "DatabaseConfig \<Rightarrow> struct_field list" where
  "DatabaseConfig_fields c =
     [config_field ''Host''
        [(''yaml'', ''host''), (''env'', ''HOST''), (''env-default'', ''localhost''), (''validate'', ''required'')]
        (VString (DatabaseConfig_Host c)),
      config_field ''Port''
        [(''yaml'', ''port''), (''env'', ''PORT''), (''env-default'', ''5432''), (''validate'', ''gte=1,lte=65535'')]
        (VInt (DatabaseConfig_Port c)),
      config_field ''Name''
        [(''yaml'', ''name''), (''env'', ''NAME''), (''env-default'', ''identity_service''), (''validate'', ''required'')]
        (VString (DatabaseConfig_Name c)),
      config_field ''User''
        [(''yaml'', ''user''), (''env'', ''USER''), (''env-default'', ''identity_service''), (''validate'', ''required'')]
        (VString (DatabaseConfig_User c)),
      config_field ''Password''
        [(''yaml'', ''password''), (''env'', ''PASSWORD'')]
        (VString (DatabaseConfig_Password c))] @
     PoolConfig_fields (DatabaseConfig_Pool c) @
     [config_field ''SSL''
        [(''yaml'', ''ssl''), (''env'', ''SSL''), (''env-default'', ''disable'')]
        (VString (DatabaseConfig_SSL c))]"

definition LogConfig_fields :: "LogConfig \<Rightarrow> struct_field list" where
  "LogConfig_fields c =
     [config_field ''Level''
        [(''yaml'', ''level''), (''env'', ''LEVEL''), (''env-default'', ''info''), (''validate'', ''oneof=debug info warn error'')]
        (VString (LogConfig_Level c))]"

definition AppConfig_fields :: "AppConfig \<Rightarrow> struct_field list" where
  "AppConfig_fields c =
     [config_field ''Name''
        [(''yaml'', ''name''), (''env'', ''NAME''), (''env-default'', ''identity-service''), (''validate'', ''required'')]
        (VString (AppConfig_Name c)),
      config_field ''Version''
        [(''yaml'', ''version''), (''env'', ''VERSION''), (''env-default'', ''dev''), (''validate'', ''required'')]
        (VString (AppConfig_Version c)),
      config_field ''Environment''
        [(''yaml'', ''environment''), (''env'', ''ENVIRONMENT''), (''env-default'', ''local''), (''validate'', ''oneof=local development staging production'')]
        (VString (AppConfig_Environment c))]"

definition AuthConfig_fields :: "AuthConfig \<Rightarrow> struct_field list" where
  "AuthConfig_fields c =
     [config_field ''JWTSecret''
        [(''yaml'', ''jwt_secret''), (''env'', ''JWT_SECRET''), (''env-default'', ''local-dev-secret-change-me-please-32''), (''validate'', ''required,min=32'')]
        (VString (AuthConfig_JWTSecret c)),
      config_field ''AccessTokenTTL''
        [(''yaml'', ''access_token_ttl''), (''env'', ''ACCESS_TOKEN_TTL''), (''env-default'', ''15m''), (''validate'', ''gt=0'')]
        (VInt (AuthConfig_AccessTokenTTL c)),
      config_field ''RefreshTokenTTL''
        [(''yaml'', ''refresh_token_ttl''), (''env'', ''REFRESH_TOKEN_TTL''), (''env-default'', ''720h''), (''validate'', ''gt=0'')]
        (VInt (AuthConfig_RefreshTokenTTL c))]"

definition RateLimitConfig_fields :: "RateLimitConfig \<Rightarrow> struct_field list" where
  "RateLimitConfig_fields c =
     [config_field ''LoginLimit''
        [(''yaml'', ''login_limit''), (''env'', ''LOGIN_LIMIT''), (''env-default'', ''5''), (''validate'', ''gte=0'')]
        (VInt (LoginLimit c)),
      config_field ''LoginWindow''
        [(''yaml'', ''login_window''), (''env'', ''LOGIN_WINDOW''), (''env-default'', ''1m''), (''validate'', ''gt=0'')]
        (VInt (LoginWindow c)),
      config_field ''RegisterLimit''
        [(''yaml'', ''register_limit''), (''env'', ''REGISTER_LIMIT''), (''env-default'', ''3''), (''validate'', ''gte=0'')]
        (VInt (RegisterLimit c)),
      config_field ''RegisterWindow''
        [(''yaml'', ''register_window''), (''env'', ''REGISTER_WINDOW''), (''env-default'', ''1m''), (''validate'', ''gt=0'')]
        (VInt (RegisterWindow c)),
      config_field ''RefreshLimit''
        [(''yaml'', ''refresh_limit''), (''env'', ''REFRESH_LIMIT''), (''env-default'', ''20''), (''validate'', ''gte=0'')]
        (VInt (RefreshLimit c)),
      config_field ''RefreshWindow''
        [(''yaml'', ''refresh_window''), (''env'', ''REFRESH_WINDOW''), (''env-default'', ''1m''), (''validate'', ''gt=0'')]
        (VInt (RefreshWindow c))]"

definition RedisConfig_fields :: "RedisConfig \<Rightarrow> struct_field list" where
  "RedisConfig_fields c =
     [config_field ''Host''
        [(''yaml'', ''host''), (''env'', ''HOST''), (''env-default'', ''localhost''), (''validate'', ''required'')]
        (VString (RedisConfig_Host c)),
      config_field ''Port''
        [(''yaml'', ''port''), (''env'', ''PORT''), (''env-default'', ''6379''), (''validate'', ''gte=1,lte=65535'')]
        (VInt (RedisConfig_Port c)),
      config_field ''Password''
        [(''yaml'', ''password''), (''env'', ''PASSWORD'')]
        (VString (RedisConfig_Password c)),
      config_field ''DB''
        [(''yaml'', ''db''), (''env'', ''DB''), (''env-default'', ''0''), (''validate'', ''gte=0'')]
        (VInt (RedisConfig_DB c))]"

definition CacheConfig_fields :: "CacheConfig \<Rightarrow> struct_field list" where
  "CacheConfig_fields c =
     [config_field ''UserTTL''
        [(''yaml'', ''user_ttl''), (''env'', ''USER_TTL''), (''env-default'', ''5m''), (''validate'', ''gt=0'')]
        (VInt (CacheConfig_UserTTL c))]"

definition WorkerConfig_fields :: "WorkerConfig \<Rightarrow> struct_field list" where
  "WorkerConfig_fields c =
     [config_field ''Interval''
        [(''yaml'', ''interval''), (''env'', ''INTERVAL''), (''env-default'', ''5s''), (''validate'', ''gt=0'')]
        (VInt (WorkerConfig_Interval c)),
      config_field ''BatchSize''
        [(''yaml'', ''batch_size''), (''env'', ''BATCH_SIZE''), (''env-default'', ''10''), (''validate'', ''gt=0'')]
        (VInt (WorkerConfig_BatchSize c)),
      config_field ''MaxAttempts''
        [(''yaml'', ''max_attempts''), (''env'', ''MAX_ATTEMPTS''), (''env-default'', ''3''), (''validate'', ''gt=0'')]
        (VInt (WorkerConfig_MaxAttempts c)),
      config_field ''LockTimeout''
        [(''yaml'', ''lock_timeout''), (''env'', ''LOCK_TIMEOUT''), (''env-default'', ''1m''), (''validate'', ''gt=0'')]
        (VInt (WorkerConfig_LockTimeout c)),
      config_field ''ProcessTimeout''
        [(''yaml'', ''process_timeout''), (''env'', ''PROCESS_TIMEOUT''), (''env-default'', ''30s''), (''validate'', ''gt=0'')]
        (VInt (WorkerConfig_ProcessTimeout c))]"

definition KafkaConfig_fields :: "KafkaConfig \<Rightarrow> struct_field list" where
  "KafkaConfig_fields c =
     [config_field ''Brokers''
        [(''yaml'', ''brokers''), (''env'', ''BROKERS''), (''env-default'', ''localhost:9092''), (''validate'', ''required'')]
        (VString (KafkaConfig_Brokers c)),
      config_field ''OutboxTopic''
        [(''yaml'', ''outbox_topic''), (''env'', ''OUTBOX_TOPIC''), (''env-default'', ''outbox.events''), (''validate'', ''required'')]
        (VString (KafkaConfig_OutboxTopic c)),
      config_field ''ProducerBatchMaxBytes''
        [(''yaml'', ''producer_batch_max_bytes''), (''env'', ''PRODUCER_BATCH_MAX_BYTES''), (''env-default'', ''1048576''), (''validate'', ''gt=0'')]
        (VInt (KafkaConfig_ProducerBatchMaxBytes c)),
      config_field ''ProducerLinger''
        [(''yaml'', ''producer_linger''), (''env'', ''PRODUCER_LINGER''), (''env-default'', ''10ms''), (''validate'', ''gte=0'')]
        (VInt (KafkaConfig_ProducerLinger c)),
      config_field ''ConsumerGroup''
        [(''yaml'', ''consumer_group''), (''env'', ''CONSUMER_GROUP''), (''env-default'', ''identity-service''), (''validate'', ''required'')]
        (VString (KafkaConfig_ConsumerGroup c))]"

definition TimeoutsConfig_fields :: "TimeoutsConfig \<Rightarrow> struct_field list" where
  "TimeoutsConfig_fields c =
     [config_field ''DatabaseQuery''
        [(''yaml'', ''database_query''), (''env'', ''DATABASE_QUERY''), (''env-default'', ''2s''), (''validate'', ''gt=0'')]
        (VInt (TimeoutsConfig_DatabaseQuery c)),
      config_field ''RedisCommand''
        [(''yaml'', ''redis_command''), (''env'', ''REDIS_COMMAND''), (''env-default'', ''500ms''), (''validate'', ''gt=0'')]
        (VInt (TimeoutsConfig_RedisCommand c)),
      config_field ''KafkaProduce''
        [(''yaml'', ''kafka_produce''), (''env'', ''KAFKA_PRODUCE''), (''env-default'', ''5s''), (''validate'', ''gt=0'')]
        (VInt (TimeoutsConfig_KafkaProduce c)),
      config_field ''KafkaConsume''
        [(''yaml'', ''kafka_consume''), (''env'', ''KAFKA_CONSUME''), (''env-default'', ''10s''), (''validate'', ''gt=0'')]
        (VInt (TimeoutsConfig_KafkaConsume c))]"

definition CORSConfig_fields :: "config_CORSConfig \<Rightarrow> struct_field list" where
  "CORSConfig_fields c =
     [config_field ''AllowedOrigins''
        [(''yaml'', ''allowed_origins''), (''env'', ''ALLOWED_ORIGINS''), (''env-default'', ''http://localhost:3000'')]
        (VString (config_CORS_AllowedOrigins c)),
      config_field ''AllowedMethods''
        [(''yaml'', ''allowed_methods''), (''env'', ''ALLOWED_METHODS''), (''env-default'', ''GET,POST,PUT,DELETE,OPTIONS'')]
        (VString (config_CORS_AllowedMethods c)),
      config_field ''AllowedHeaders''
        [(''yaml'', ''allowed_headers''), (''env'', ''ALLOWED_HEADERS''), (''env-default'', ''Authorization,Content-Type,X-Request-ID'')]
        (VString (config_CORS_AllowedHeaders c))]"

definition TelemetryConfig_fields :: "TelemetryConfig \<Rightarrow> struct_field list" where
  "TelemetryConfig_fields c =
     [config_field ''Enabled''
        [(''yaml'', ''enabled''), (''env'', ''ENABLED''), (''env-default'', ''false'')]
        (VBool (TelemetryConfig_Enabled c)),
      config_field ''Exporter''
        [(''yaml'', ''exporter''), (''env'', ''EXPORTER''), (''env-default'', ''stdout''), (''validate'', ''oneof=stdout otlp'')]
        (VString (TelemetryConfig_Exporter c)),
      config_field ''Endpoint''
        [(''yaml'', ''endpoint''), (''env'', ''ENDPOINT''), (''env-default'', ''localhost:4317'')]
        (VString (TelemetryConfig_Endpoint c)),
      config_field ''Insecure''
        [(''yaml'', ''insecure''), (''env'', ''INSECURE''), (''env-default'', ''true'')]
        (VBool (TelemetryConfig_Insecure c)),
      config_field ''SampleRatio''
        [(''yaml'', ''sample_ratio''), (''env'', ''SAMPLE_RATIO''), (''env-default'', ''1.0''), (''validate'', ''gte=0,lte=1'')]
        (VFrac (TelemetryConfig_SampleRatio c))]"

text \<open>All fields: the validator checks the nested structs too.\<close>

definition Config_fields :: "Config \<Rightarrow> struct_field list" where
  "Config_fields c =
     HTTPConfig_fields (Config_HTTP c) @
     GRPCConfig_fields (Config_GRPC c) @
     DatabaseConfig_fields (Config_Database c) @
     LogConfig_fields (Config_Log c) @
     AppConfig_fields (Config_App c) @
     AuthConfig_fields (Config_Auth c) @
     RateLimitConfig_fields (Config_RateLimit c) @
     RedisConfig_fields (Config_Redis c) @
     CacheConfig_fields (Config_Cache c) @
     WorkerConfig_fields (Config_Worker c) @
     KafkaConfig_fields (Config_Kafka c) @
     TimeoutsConfig_fields (Config_Timeouts c) @
     CORSConfig_fields (Config_CORS c) @
     TelemetryConfig_fields (Config_Telemetry c)"

section \<open>Lists separated by commas\<close>

fun split_loop :: "string list \<Rightarrow> string list \<Rightarrow> string list" where
  "split_loop result [] = result"
| "split_loop result (part # parts) =
     (let item = TrimSpace part
      in split_loop (if item \<noteq> '''' then result @ [item] else result) parts)"

definition splitCSV :: "string \<Rightarrow> string list" where
  "splitCSV v = split_loop [] (Split v CHR '','')"

definition Origins :: "config_CORSConfig \<Rightarrow> string list" where
  "Origins c = splitCSV (config_CORS_AllowedOrigins c)"

definition Methods :: "config_CORSConfig \<Rightarrow> string list" where
  "Methods c = splitCSV (config_CORS_AllowedMethods c)"

definition Headers :: "config_CORSConfig \<Rightarrow> string list" where
  "Headers c = splitCSV (config_CORS_AllowedHeaders c)"

definition BrokerList :: "KafkaConfig \<Rightarrow> string list" where
  "BrokerList c = split_loop [] (Split (KafkaConfig_Brokers c) CHR '','')"

section \<open>Addresses\<close>

definition JoinHostPort :: "string \<Rightarrow> string \<Rightarrow> string" where
  "JoinHostPort host port =
     (if CHR '':'' \<in> set host then ''['' @ host @ '']:'' @ port else host @ '':'' @ port)"

definition GRPC_Address :: "GRPCConfig \<Rightarrow> string" where
  "GRPC_Address g = JoinHostPort (GRPCConfig_Host g) (FormatInt (GRPCConfig_Port g))"

definition Redis_Address :: "RedisConfig \<Rightarrow> string" where
  "Redis_Address r = JoinHostPort (RedisConfig_Host r) (FormatInt (RedisConfig_Port r))"

definition HTTP_Address :: "HTTPConfig \<Rightarrow> string" where
  "HTTP_Address h = JoinHostPort (HTTPConfig_Host h) (FormatInt (HTTPConfig_Port h))"

text \<open>Escaping of net/url, with the bytes each part of a URL leaves alone.\<close>

datatype url_mode = UserPassword | QueryComponent | UrlPath | UrlHost

definition is_alnum :: "char \<Rightarrow> bool" where
  "is_alnum c = (let n = (of_char c :: nat) in
     48 \<le> n \<and> n \<le> 57 \<or> 65 \<le> n \<and> n \<le> 90 \<or> 97 \<le> n \<and> n \<le> 122)"

fun url_plain :: "url_mode \<Rightarrow> char \<Rightarrow> bool" where
  "url_plain UserPassword c = (is_alnum c \<or> c \<in> set ''-_.~$&+,;='')"
| "url_plain QueryComponent c = (is_alnum c \<or> c \<in> set ''-_.~'')"
| "url_plain UrlPath c = (is_alnum c \<or> c \<in> set ''-_.~$&+,/:;=@'')"
| "url_plain UrlHost c =
     (is_alnum c \<or> c \<in> set ''-_.~!$&()*+,;=:[]<>'' \<or> c = CHR 0x27 \<or> c = CHR 0x22)"

definition upper_hex :: "nat \<Rightarrow> char" where
  "upper_hex n = ''0123456789ABCDEF'' ! (n mod 16)"

definition url_escape :: "url_mode \<Rightarrow> string \<Rightarrow> string" where
  "url_escape mode s = concat (map (\<lambda>c.
     if mode = QueryComponent \<and> c = CHR '' '' then ''+''
     else if url_plain mode c then [c]
     else [CHR ''%'', upper_hex (of_char c div 16), upper_hex (of_char c)]) s)"

text \<open>\<open>URL.String()\<close> of a URL with the scheme postgres, a user, a host and a path.\<close>

definition postgres_url :: "DatabaseConfig \<Rightarrow> string \<Rightarrow> string" where
  "postgres_url d rawQuery =
     (let host = JoinHostPort (DatabaseConfig_Host d) (FormatInt (DatabaseConfig_Port d));
          path = (if DatabaseConfig_Name d = ''*'' then ''*'' else url_escape UrlPath (DatabaseConfig_Name d))
      in ''postgres://'' @ url_escape UserPassword (DatabaseConfig_User d) @ '':'' @
         url_escape UserPassword (DatabaseConfig_Password d) @ ''@'' @ url_escape UrlHost host @
         (if path \<noteq> '''' \<and> hd path \<noteq> CHR ''/'' then ''/'' else '''') @ path @
         (if rawQuery \<noteq> '''' then ''?'' @ rawQuery else ''''))"

definition DatabaseUrl :: "DatabaseConfig \<Rightarrow> string" where
  "DatabaseUrl d = postgres_url d ''''"

definition DatabaseUrlWithSSL :: "DatabaseConfig \<Rightarrow> string" where
  "DatabaseUrlWithSSL d = postgres_url d (''sslmode='' @ url_escape QueryComponent (DatabaseConfig_SSL d))"

section \<open>Load\<close>

text \<open>
  \<open>os.Stat\<close> of the file: it exists, it does not, or the error; \<open>cleanenv\<close>'s two readers.
\<close>

datatype stat_result = Exists | NotExist | StatError go_error

record 'c config_reader =
  reader_Stat :: "string \<Rightarrow> stat_result"
  reader_ReadConfig :: "string \<Rightarrow> go_error + 'c"
  reader_ReadEnv :: "go_error + 'c"

definition readConfig :: "(string \<Rightarrow> bool) \<Rightarrow> 'c config_reader \<Rightarrow> string \<Rightarrow> go_error + 'c" where
  "readConfig pr rd filename =
     (case reader_Stat rd filename of
        Exists \<Rightarrow>
          (case reader_ReadConfig rd filename of
             Inl err \<Rightarrow> Inl (wrapf (''read config '' @ Quote pr filename) err)
           | Inr cfg \<Rightarrow> Inr cfg)
      | NotExist \<Rightarrow>
          (case reader_ReadEnv rd of
             Inl err \<Rightarrow> Inl (wrapf ''read environment config'' err)
           | Inr cfg \<Rightarrow> Inr cfg)
      | StatError err \<Rightarrow> Inl (wrapf (''check config '' @ Quote pr filename) err))"

text \<open>The error of the validator; its text is left to the library.\<close>

fun validate_error_text :: "validate_error \<Rightarrow> go_error" where
  "validate_error_text (ValidationErrors errs) = NewError ''validation errors''"
| "validate_error_text (InvalidValidation err) = err"

definition default_jwt_secret :: string where
  "default_jwt_secret = ''local-dev-secret-change-me-please-32''"

definition Config_Validate :: "Config \<Rightarrow> go_error option" where
  "Config_Validate c =
     (let production = (AppConfig_Environment (Config_App c) = ''production'');
          secret = AuthConfig_JWTSecret (Config_Auth c)
      in if production \<and> DatabaseConfig_Password (Config_Database c) = '''' then
           Some (NewError ''database password is required in production'')
         else if production \<and> secret = default_jwt_secret then
           Some (NewError ''auth jwt secret must be changed in production'')
         else if production \<and> length secret < 64 then
           Some (NewError ''auth jwt secret must be at least 64 characters in production'')
         else if production \<and> DatabaseConfig_SSL (Config_Database c) = ''disable'' then
           Some (NewError ''database ssl must be enabled in production'')
         else None)"

definition Load ::
  "(string \<Rightarrow> bool) \<Rightarrow> Config config_reader \<Rightarrow> validator_lib \<Rightarrow> string \<Rightarrow> go_error + Config" where
  "Load pr rd lib filename =
     (case readConfig pr rd filename of
        Inl err \<Rightarrow> Inl err
      | Inr cfg \<Rightarrow>
          (case lib field_GoName (Config_fields cfg) of
             Some err \<Rightarrow> Inl (wrapf ''validate config fields'' (validate_error_text err))
           | None \<Rightarrow>
               (case Config_Validate cfg of
                  Some err \<Rightarrow> Inl (wrapf ''validate config rules'' err)
                | None \<Rightarrow> Inr cfg)))"

text \<open>\<open>LoadDatabase\<close> reads and checks the section of the database alone.\<close>

definition LoadDatabase ::
  "(string \<Rightarrow> bool) \<Rightarrow> DatabaseConfig config_reader \<Rightarrow> validator_lib \<Rightarrow> string \<Rightarrow> go_error + DatabaseConfig" where
  "LoadDatabase pr rd lib filename =
     (case readConfig pr rd filename of
        Inl err \<Rightarrow> Inl err
      | Inr cfg \<Rightarrow>
          (case lib field_GoName (DatabaseConfig_fields cfg) of
             Some err \<Rightarrow> Inl (wrapf ''validate config fields'' (validate_error_text err))
           | None \<Rightarrow> Inr cfg))"


text \<open>The settings when neither the file nor the environment gives any: the defaults of the tags.\<close>

definition default_config :: Config where
  "default_config =
    \<lparr>Config_HTTP =
     \<lparr>HTTPConfig_Host = ''0.0.0.0'', HTTPConfig_Port = 8080, HTTPConfig_ReadTimeout = 5000000000,
        HTTPConfig_WriteTimeout = 10000000000, HTTPConfig_IdleTimeout = 60000000000,
        HTTPConfig_ReadHeaderTimeout = 5000000000, HTTPConfig_ShutdownTimeout = 10000000000\<rparr>,
     Config_GRPC =
     \<lparr>GRPCConfig_Host = ''0.0.0.0'', GRPCConfig_Port = 50051,
        GRPCConfig_ShutdownTimeout = 10000000000\<rparr>,
     Config_Database =
     \<lparr>DatabaseConfig_Host = ''localhost'', DatabaseConfig_Port = 5432,
        DatabaseConfig_Name = ''identity_service'', DatabaseConfig_User = ''identity_service'',
        DatabaseConfig_Password = '''',
        DatabaseConfig_Pool = \<lparr>PoolConfig_MaxCons = 10, PoolConfig_MinCons = 10, PoolConfig_MaxConLifeTime = 3600 * 10 ^ 9,
        PoolConfig_MaxConIdleTime = 1200 * 10 ^ 9, PoolConfig_HealthCheckPeriod = 60000000000\<rparr>,
        DatabaseConfig_SSL = ''disable''\<rparr>,
     Config_Log =
     \<lparr>LogConfig_Level = ''info''\<rparr>,
     Config_App =
     \<lparr>AppConfig_Name = ''identity-service'', AppConfig_Version = ''dev'',
        AppConfig_Environment = ''local''\<rparr>,
     Config_Auth =
     \<lparr>AuthConfig_JWTSecret = ''local-dev-secret-change-me-please-32'',
        AuthConfig_AccessTokenTTL = 900 * 10 ^ 9, AuthConfig_RefreshTokenTTL = 2592000 * 10 ^ 9\<rparr>,
     Config_RateLimit =
     \<lparr>LoginLimit = 5, LoginWindow = 60000000000, RegisterLimit = 3, RegisterWindow = 60000000000,
        RefreshLimit = 20, RefreshWindow = 60000000000\<rparr>,
     Config_Redis =
     \<lparr>RedisConfig_Host = ''localhost'', RedisConfig_Port = 6379, RedisConfig_Password = '''',
        RedisConfig_DB = 0\<rparr>,
     Config_Cache =
     \<lparr>CacheConfig_UserTTL = 300 * 10 ^ 9\<rparr>,
     Config_Worker =
     \<lparr>WorkerConfig_Interval = 5000000000, WorkerConfig_BatchSize = 10, WorkerConfig_MaxAttempts = 3,
        WorkerConfig_LockTimeout = 60000000000, WorkerConfig_ProcessTimeout = 30000000000\<rparr>,
     Config_Kafka =
     \<lparr>KafkaConfig_Brokers = ''localhost:9092'', KafkaConfig_OutboxTopic = ''outbox.events'',
        KafkaConfig_ProducerBatchMaxBytes = 1048576, KafkaConfig_ProducerLinger = 10000000,
        KafkaConfig_ConsumerGroup = ''identity-service''\<rparr>,
     Config_Timeouts =
     \<lparr>TimeoutsConfig_DatabaseQuery = 2000000000, TimeoutsConfig_RedisCommand = 500000000,
        TimeoutsConfig_KafkaProduce = 5000000000, TimeoutsConfig_KafkaConsume = 10000000000\<rparr>,
     Config_CORS =
     \<lparr>config_CORS_AllowedOrigins = ''http://localhost:3000'',
        config_CORS_AllowedMethods = ''GET,POST,PUT,DELETE,OPTIONS'',
        config_CORS_AllowedHeaders = ''Authorization,Content-Type,X-Request-ID''\<rparr>,
     Config_Telemetry =
     \<lparr>TelemetryConfig_Enabled = False, TelemetryConfig_Exporter = ''stdout'',
        TelemetryConfig_Endpoint = ''localhost:4317'', TelemetryConfig_Insecure = True,
        TelemetryConfig_SampleRatio = (1, 1)\<rparr>\<rparr>"


section \<open>What the tags of the fields demand\<close>

text \<open>The rules that occur, read as the validator documents them.\<close>

lemma bounds [simp]:
  "bound ''0'' = 0" "bound ''1'' = 1" "bound ''32'' = 32" "bound ''65535'' = 65535"
  by (simp_all add: bound_def ParseInt_def is_digit_def digit_val_def in_int64_def int64_min_def int64_max_def)

lemma split_rules:
  "Split ''gt=0'' CHR '','' = [''gt=0'']" "Split ''gte=0'' CHR '','' = [''gte=0'']"
  "Split ''required'' CHR '','' = [''required'']" "Split '''' CHR '','' = ['''']"
  "Split ''required,min=32'' CHR '','' = [''required'', ''min=32'']"
  "Split ''gte=1,lte=65535'' CHR '','' = [''gte=1'', ''lte=65535'']"
  "Split ''gte=0,lte=1'' CHR '','' = [''gte=0'', ''lte=1'']"
  "Split ''oneof=debug info warn error'' CHR '','' = [''oneof=debug info warn error'']"
  "Split ''oneof=stdout otlp'' CHR '','' = [''oneof=stdout otlp'']"
  "Split ''oneof=local development staging production'' CHR '','' =
     [''oneof=local development staging production'']"
  by simp_all

lemma rule_parts:
  "rule_tag ''gt=0'' = ''gt''" "rule_param ''gt=0'' = ''0''"
  "rule_tag ''gte=0'' = ''gte''" "rule_param ''gte=0'' = ''0''"
  "rule_tag ''gte=1'' = ''gte''" "rule_param ''gte=1'' = ''1''"
  "rule_tag ''lte=1'' = ''lte''" "rule_param ''lte=1'' = ''1''"
  "rule_tag ''lte=65535'' = ''lte''" "rule_param ''lte=65535'' = ''65535''"
  "rule_tag ''min=32'' = ''min''" "rule_param ''min=32'' = ''32''"
  "rule_tag ''required'' = ''required''" "rule_tag '''' = ''''"
  "rule_tag ''oneof=debug info warn error'' = ''oneof''" "rule_tag ''oneof=stdout otlp'' = ''oneof''"
  "rule_tag ''oneof=local development staging production'' = ''oneof''"
  "Split (rule_param ''oneof=debug info warn error'') CHR '' '' = [''debug'', ''info'', ''warn'', ''error'']"
  "Split (rule_param ''oneof=stdout otlp'') CHR '' '' = [''stdout'', ''otlp'']"
  "Split (rule_param ''oneof=local development staging production'') CHR '' '' =
     [''local'', ''development'', ''staging'', ''production'']"
  by (simp_all add: rule_tag_def rule_param_def)

lemma rule_meaning:
  "rule_ok em v ''gt=0'' = (\<not> at_most v 0)" "rule_ok em v ''gte=0'' = at_least v 0"
  "rule_ok em v ''gte=1'' = at_least v 1" "rule_ok em v ''lte=1'' = at_most v 1"
  "rule_ok em v ''lte=65535'' = at_most v 65535" "rule_ok em v ''min=32'' = at_least v 32"
  "rule_ok em v ''required'' = (\<not> zero_value v)" "rule_ok em v '''' = True"
  "rule_ok em (VString s) ''oneof=debug info warn error'' = (s \<in> {''debug'', ''info'', ''warn'', ''error''})"
  "rule_ok em (VString s) ''oneof=stdout otlp'' = (s \<in> {''stdout'', ''otlp''})"
  "rule_ok em (VString s) ''oneof=local development staging production'' =
     (s \<in> {''local'', ''development'', ''staging'', ''production''})"
  by (simp_all add: rule_ok_def Let_def rule_parts)

text \<open>One field with one of these rules.\<close>

definition rules_hold :: "(string \<Rightarrow> bool) \<Rightarrow> string \<Rightarrow> field_value \<Rightarrow> bool" where
  "rules_hold em rules v \<longleftrightarrow> list_all (rule_ok em v) (Split rules CHR '','')"

lemma field_ok_config:
  assumes "''omitempty'' \<notin> set (Split (first_value tags ''validate'') CHR '','')"
  shows "field_ok em (config_field n tags v) = rules_hold em (first_value tags ''validate'') v"
  using assms by (simp add: field_ok_def field_rules_def config_field_def rules_hold_def)

lemma first_value_simps:
  "first_value [] k = ''''" "first_value ((k', v) # vs) k = (if k' = k then v else first_value vs k)"
  by (simp_all add: first_value_def)

lemma rules_hold_simps:
  "rules_hold em ''gt=0'' v = (\<not> at_most v 0)" "rules_hold em ''gte=0'' v = at_least v 0"
  "rules_hold em ''required'' v = (\<not> zero_value v)" "rules_hold em '''' v = True"
  "rules_hold em ''required,min=32'' v = (\<not> zero_value v \<and> at_least v 32)"
  "rules_hold em ''gte=1,lte=65535'' v = (at_least v 1 \<and> at_most v 65535)"
  "rules_hold em ''gte=0,lte=1'' v = (at_least v 0 \<and> at_most v 1)"
  "rules_hold em ''oneof=debug info warn error'' (VString s) = (s \<in> {''debug'', ''info'', ''warn'', ''error''})"
  "rules_hold em ''oneof=stdout otlp'' (VString s) = (s \<in> {''stdout'', ''otlp''})"
  "rules_hold em ''oneof=local development staging production'' (VString s) =
     (s \<in> {''local'', ''development'', ''staging'', ''production''})"
  by (simp_all only: rules_hold_def split_rules list.pred_inject rule_meaning simp_thms)

text \<open>The field rules of each section, as arithmetic on its fields.\<close>

lemmas field_meaning = config_field_def field_ok_def field_rules_def

lemma config_ok:
  "field_ok em (config_field n [(a, b), (c, d), (e, f), (''validate'', rules)] v) =
     (''omitempty'' \<in> set (Split rules CHR '','') \<and> zero_value v \<or> rules_hold em rules v)"
  if "a = ''yaml''" "c = ''env''" "e = ''env-default''"
  using that by (simp add: field_ok_def field_rules_def config_field_def rules_hold_def first_value_simps)


text \<open>What the components rely on in the settings they are given.\<close>

definition port_ok :: "int \<Rightarrow> bool" where
  "port_ok p \<longleftrightarrow> 1 \<le> p \<and> p \<le> 65535"

definition settings_ok :: "Config \<Rightarrow> bool" where
  "settings_ok c \<longleftrightarrow>
     port_ok (HTTPConfig_Port (Config_HTTP c)) \<and> port_ok (GRPCConfig_Port (Config_GRPC c)) \<and>
     port_ok (DatabaseConfig_Port (Config_Database c)) \<and> port_ok (RedisConfig_Port (Config_Redis c)) \<and>
     0 < AuthConfig_AccessTokenTTL (Config_Auth c) \<and> 0 < AuthConfig_RefreshTokenTTL (Config_Auth c) \<and>
     32 \<le> rune_count (AuthConfig_JWTSecret (Config_Auth c)) \<and>
     0 \<le> LoginLimit (Config_RateLimit c) \<and> 0 < LoginWindow (Config_RateLimit c) \<and>
     0 \<le> RegisterLimit (Config_RateLimit c) \<and> 0 < RegisterWindow (Config_RateLimit c) \<and>
     0 \<le> RefreshLimit (Config_RateLimit c) \<and> 0 < RefreshWindow (Config_RateLimit c) \<and>
     0 < WorkerConfig_Interval (Config_Worker c) \<and> 0 < WorkerConfig_BatchSize (Config_Worker c) \<and>
     0 < WorkerConfig_MaxAttempts (Config_Worker c) \<and> 0 < WorkerConfig_LockTimeout (Config_Worker c) \<and>
     0 < WorkerConfig_ProcessTimeout (Config_Worker c) \<and> 0 < CacheConfig_UserTTL (Config_Cache c) \<and>
     0 < TimeoutsConfig_DatabaseQuery (Config_Timeouts c) \<and> 0 < TimeoutsConfig_RedisCommand (Config_Timeouts c) \<and>
     0 < TimeoutsConfig_KafkaProduce (Config_Timeouts c) \<and> 0 < TimeoutsConfig_KafkaConsume (Config_Timeouts c) \<and>
     AppConfig_Environment (Config_App c) \<in> {''local'', ''development'', ''staging'', ''production''}"

definition production_ok :: "Config \<Rightarrow> bool" where
  "production_ok c \<longleftrightarrow> (AppConfig_Environment (Config_App c) = ''production'' \<longrightarrow>
     DatabaseConfig_Password (Config_Database c) \<noteq> '''' \<and>
     64 \<le> length (AuthConfig_JWTSecret (Config_Auth c)) \<and>
     AuthConfig_JWTSecret (Config_Auth c) \<noteq> default_jwt_secret \<and>
     DatabaseConfig_SSL (Config_Database c) \<noteq> ''disable'')"

lemma Config_Validate_None: "Config_Validate c = None \<Longrightarrow> production_ok c"
  by (auto simp: Config_Validate_def Let_def production_ok_def split: if_splits)

lemmas section_rules [simp] = config_ok rules_hold_simps split_rules

lemma section_meaning:
  "list_all (field_ok em) (HTTPConfig_fields h) \<Longrightarrow> port_ok (HTTPConfig_Port h)"
  "list_all (field_ok em) (GRPCConfig_fields g) \<Longrightarrow> port_ok (GRPCConfig_Port g)"
  "list_all (field_ok em) (DatabaseConfig_fields d) \<Longrightarrow> port_ok (DatabaseConfig_Port d)"
  "list_all (field_ok em) (RedisConfig_fields r) \<Longrightarrow> port_ok (RedisConfig_Port r)"
  "list_all (field_ok em) (AuthConfig_fields a) \<Longrightarrow> 0 < AuthConfig_AccessTokenTTL a \<and>
     0 < AuthConfig_RefreshTokenTTL a \<and> 32 \<le> rune_count (AuthConfig_JWTSecret a)"
  "list_all (field_ok em) (RateLimitConfig_fields l) \<Longrightarrow> 0 \<le> LoginLimit l \<and> 0 < LoginWindow l \<and>
     0 \<le> RegisterLimit l \<and> 0 < RegisterWindow l \<and> 0 \<le> RefreshLimit l \<and> 0 < RefreshWindow l"
  "list_all (field_ok em) (WorkerConfig_fields w) \<Longrightarrow> 0 < WorkerConfig_Interval w \<and>
     0 < WorkerConfig_BatchSize w \<and> 0 < WorkerConfig_MaxAttempts w \<and> 0 < WorkerConfig_LockTimeout w \<and>
     0 < WorkerConfig_ProcessTimeout w"
  "list_all (field_ok em) (CacheConfig_fields k) \<Longrightarrow> 0 < CacheConfig_UserTTL k"
  "list_all (field_ok em) (TimeoutsConfig_fields t) \<Longrightarrow> 0 < TimeoutsConfig_DatabaseQuery t \<and>
     0 < TimeoutsConfig_RedisCommand t \<and> 0 < TimeoutsConfig_KafkaProduce t \<and> 0 < TimeoutsConfig_KafkaConsume t"
  "list_all (field_ok em) (AppConfig_fields p) \<Longrightarrow>
     AppConfig_Environment p \<in> {''local'', ''development'', ''staging'', ''production''}"
  by (simp_all add: port_ok_def HTTPConfig_fields_def GRPCConfig_fields_def DatabaseConfig_fields_def
      RedisConfig_fields_def AuthConfig_fields_def RateLimitConfig_fields_def WorkerConfig_fields_def
      CacheConfig_fields_def TimeoutsConfig_fields_def AppConfig_fields_def)


lemma field_ok_free:
  "first_value tags ''validate'' = '''' \<Longrightarrow> field_ok em (config_field n tags v)"
  by (simp add: field_ok_def field_rules_def config_field_def rule_meaning)

lemma default_config_fields: "list_all (field_ok em) (Config_fields default_config)"
  by (simp add: field_ok_free first_value_simps rune_count_ascii is_ascii_def
      Config_fields_def default_config_def HTTPConfig_fields_def GRPCConfig_fields_def
      DatabaseConfig_fields_def PoolConfig_fields_def LogConfig_fields_def AppConfig_fields_def
      AuthConfig_fields_def RateLimitConfig_fields_def RedisConfig_fields_def CacheConfig_fields_def
      WorkerConfig_fields_def KafkaConfig_fields_def TimeoutsConfig_fields_def CORSConfig_fields_def
      TelemetryConfig_fields_def)


text \<open>A configuration for production, read from a file by a reader that gives it.\<close>

definition sample_secret :: string where
  "sample_secret = replicate 64 (CHR ''s'')"

definition sample_production :: Config where
  "sample_production = default_config
     \<lparr>Config_App := (Config_App default_config)\<lparr>AppConfig_Environment := ''production''\<rparr>,
      Config_Auth := (Config_Auth default_config)\<lparr>AuthConfig_JWTSecret := sample_secret\<rparr>,
      Config_Database := (Config_Database default_config)
        \<lparr>DatabaseConfig_Password := ''pw'', DatabaseConfig_SSL := ''require''\<rparr>\<rparr>"

lemma sample_secret_facts: "length sample_secret = 64" "list_all is_ascii sample_secret" "sample_secret \<noteq> []"
  "sample_secret \<noteq> default_jwt_secret"
proof -
  show l: "length sample_secret = 64" by (simp add: sample_secret_def)
  have "length default_jwt_secret = 36" by (simp add: default_jwt_secret_def)
  with l show "sample_secret \<noteq> default_jwt_secret" by auto
qed (simp_all add: sample_secret_def list_all_iff is_ascii_def)

lemma sample_production_fields: "list_all (field_ok em) (Config_fields sample_production)"
  using sample_secret_facts
  by (simp add: field_ok_free first_value_simps rune_count_ascii
      Config_fields_def sample_production_def default_config_def HTTPConfig_fields_def GRPCConfig_fields_def
      DatabaseConfig_fields_def PoolConfig_fields_def LogConfig_fields_def AppConfig_fields_def
      AuthConfig_fields_def RateLimitConfig_fields_def RedisConfig_fields_def CacheConfig_fields_def
      WorkerConfig_fields_def KafkaConfig_fields_def TimeoutsConfig_fields_def CORSConfig_fields_def
      TelemetryConfig_fields_def)

lemma sample_validator_accepts: "list_all (field_ok em) fs \<Longrightarrow> sample_validator em name fs = None"
proof -
  assume "list_all (field_ok em) fs"
  then have "concat (map (\<lambda>f. if field_ok em f then [] else xs f) fs) = []" for xs :: "struct_field \<Rightarrow> FieldError list"
    by (induction fs) auto
  then show ?thesis by (simp add: sample_validator_def Let_def)
qed

definition sample_reader :: "'c \<Rightarrow> 'c config_reader" where
  "sample_reader c = \<lparr>reader_Stat = (\<lambda>_. Exists), reader_ReadConfig = (\<lambda>_. Inr c), reader_ReadEnv = Inr c\<rparr>"

lemma sample_load:
  "Load (\<lambda>_. True) (sample_reader sample_production) (sample_validator (\<lambda>_. True)) ''config.yml'' =
     Inr sample_production"
  using sample_validator_accepts [OF sample_production_fields] sample_secret_facts
  by (simp add: Load_def readConfig_def sample_reader_def Config_Validate_def Let_def sample_production_def default_config_def)


end
