(* ===== verification/User_Properties.thy ===== *)
theory User_Properties
  imports User_Service
begin

text \<open>
  What the user service of internal/app/app.go promises: creation in one transaction, lookups
  through the cache, updates equal to a reference definition on the tables, deletion with
  everything that belongs to the user, and pages of a list.
\<close>

abbreviation app_user :: "pg_locale \<Rightarrow> PasswordHasher \<Rightarrow> user_env \<Rightarrow> int \<Rightarrow> (decode_error \<Rightarrow> string) \<Rightarrow> int \<Rightarrow> user_Service" where
  "app_user pg hasher env timeout errText ttl \<equiv> pg_user pg hasher env (app_cache timeout errText) ttl"

abbreviation app_look :: "int \<Rightarrow> (decode_error \<Rightarrow> string) \<Rightarrow> world \<Rightarrow> int \<Rightarrow> User option" where
  "app_look timeout errText \<equiv> redis_look (NewRedisCache ''identity'' timeout errText)"

section \<open>Creation\<close>

text \<open>
  C14: Creating a user is atomic. \<open>CreateUser\<close> did nothing to the tables and returned an error, or
  it added one row with the trimmed name, the normalized email, valid fields, the hash of the
  password and the role USER together with the event that announces it; it then returned that user,
  unless the failure was that of the commit itself.
\<close>

theorem create_user_all_or_nothing:
  assumes "CreateUser (app_user pg hasher env timeout errText ttl) req w = (r, w')"
  shows "(db w' = db w \<and> (\<exists>e. r = Inl e)) \<or>
    (\<exists>salt hash u.
       bcrypt_GenerateFromPassword (uenv_bcrypt env) salt (CreateUserInput_Password req)
         (PasswordHasher_cost hasher) = Inr hash \<and>
       input_fields (uenv_ParseAddress env) (TrimSpace (CreateUserInput_Name req))
         (normalize_email (uenv_lower env) (CreateUserInput_Email req)) (CreateUserInput_Age req) = [] \<and>
       user_created env (TrimSpace (CreateUserInput_Name req))
         (normalize_email (uenv_lower env) (CreateUserInput_Email req)) (CreateUserInput_Age req) hash []
         (db w) (db w') u [] \<and>
       (r = Inr u \<or> (\<exists>e. r = Inl e \<and> user_commit_error e)))"
  using assms
proof (cases rule: pguser.CreateUser_cases)
  case (created salt hash u)
  then show ?thesis by simp blast
qed blast

text \<open>
  C15: Creating a user with a profile is atomic too, and adds the profile to that user. The fields
  it checks are those of the request before they are trimmed.
\<close>

theorem create_with_profile_all_or_nothing:
  assumes "CreateUserWithProfile (app_user pg hasher env timeout errText ttl) req w = (r, w')"
  shows "(db w' = db w \<and> (\<exists>e. r = Inl e)) \<or>
    (\<exists>salt hash u p.
       bcrypt_GenerateFromPassword (uenv_bcrypt env) salt (WithProfileInput_Password req)
         (PasswordHasher_cost hasher) = Inr hash \<and>
       input_fields (uenv_ParseAddress env) (WithProfileInput_Name req) (WithProfileInput_Email req)
         (WithProfileInput_Age req) = [] \<and>
       user_created env (TrimSpace (WithProfileInput_Name req))
         (normalize_email (uenv_lower env) (WithProfileInput_Email req)) (WithProfileInput_Age req) hash
         [TrimSpace (WithProfileInput_Bio req)] (db w) (db w') u [p] \<and>
       (r = Inr \<lparr>ProfileWithUser_User = u, ProfileWithUser_Profile = p\<rparr> \<or>
        (\<exists>e. r = Inl e \<and> user_commit_error e)))"
  using assms
proof (cases rule: pguser.CreateUserWithProfile_cases)
  case (created salt hash u p)
  then show ?thesis by simp blast
qed blast

section \<open>Lookup and cache\<close>

text \<open>
  C18: The cache is transparent. If every entry is the view of its row, a lookup by id changes no
  table, leaves every entry the view of its row, and answers only with the row of that id, without
  its password hash, whatever happens to the calls to Redis and PostgreSQL.
\<close>

theorem get_user_cached:
  assumes "\<And>j. cache_coherent_at (app_look timeout errText) j w"
    and "GetUser (app_user pg hasher env timeout errText ttl) i w = (r, w')"
  shows "db w' = db w \<and> cache_coherent_at (app_look timeout errText) j w' \<and>
    (\<forall>u. r = Inr u \<longrightarrow> answers i u w)"
  by (rule pguser.GetUser_coherent [OF assms])


section \<open>Updates\<close>

text \<open>
  The update as a function on the tables: the errors in the order of the code, and otherwise the
  row of the id with the new name, email, age and time of change.
\<close>

definition update_spec :: "user_env \<Rightarrow> int \<Rightarrow> UpdateUserInput \<Rightarrow> int \<Rightarrow> tables \<Rightarrow> go_error + User \<times> tables" where
  "update_spec env i inp now d =
     (let name = TrimSpace (UpdateUserInput_Name inp);
          email = normalize_email (uenv_lower env) (UpdateUserInput_Email inp);
          age = UpdateUserInput_Age inp;
          fields = input_fields (uenv_ParseAddress env) name email age;
          upd = (\<lambda>u. u\<lparr>User_Name := name, User_Email := email, User_Age := age, User_UpdatedAt := now\<rparr>)
      in if i \<le> 0 then Inl NewInvalidUserIDError
         else if fields \<noteq> [] then Inl (FieldValidationError fields)
         else case find (\<lambda>u. User_ID u = i) (users d) of
             None \<Rightarrow> Inl NewUserNotFoundError
           | Some row \<Rightarrow>
               if list_ex (\<lambda>u. User_ID u \<noteq> i \<and> User_Email u = email) (users d)
               then Inl NewEmailAlreadyExistsError
               else Inr (scan_user (upd row), d\<lparr>users := update_where (\<lambda>u. User_ID u = i) upd (users d)\<rparr>))"

lemma FindByID_ok:
  "plan w = [] \<Longrightarrow> Repository_FindByID (user_NewPostgresRepository pg) i w =
     (case find (\<lambda>u. User_ID u = i) (users (db w)) of
        None \<Rightarrow> Inl (Sentinel ErrUserNotFound) | Some u \<Rightarrow> Inr (scan_user u), w)"
  by (simp add: user_NewPostgresRepository_def user_PostgresRepository_FindByID_def mapErr_def andThen_def
      sql_empty select_user_def ret_def split: option.split)

lemma Update_ok:
  assumes "plan w = []" "tx w = None" "pg_text (User_Name u)" "pg_text (User_Email u)"
    and "find (\<lambda>v. User_ID v = User_ID u) (users (db w)) = Some row"
    and "\<not> list_ex (\<lambda>v. User_ID v \<noteq> User_ID u \<and> User_Email v = User_Email u) (users (db w))"
  shows "Repository_Update (user_NewPostgresRepository pg) u w =
    (let upd = (\<lambda>v. v\<lparr>User_Name := User_Name u, User_Email := User_Email u, User_Age := User_Age u,
                      User_UpdatedAt := clock w\<rparr>)
     in (Inr (scan_user (upd row)),
         w\<lparr>db := (db w)\<lparr>users := update_where (\<lambda>v. User_ID v = User_ID u) upd (users (db w))\<rparr>\<rparr>))"
  using assms
  by (simp add: user_NewPostgresRepository_def user_PostgresRepository_Update_def mapErr_def andThen_def
      sql_empty update_users_def Let_def ret_def pg_now_def)

lemma Cache_DeleteUser_ok:
  "plan w = [] \<Longrightarrow> Cache_DeleteUser (app_cache timeout errText) i w =
     (Inr (), redis_store (''identity:user:id:'' @ FormatInt i) None w)"
  by (simp add: app_cache_def NewObservedCache_def redis_cache_def RedisCache_DeleteUser_def mapErr_def
      redis_Del_def external_empty RedisCache_userKey_def NewRedisCache_def)

text \<open>A row found by its id is the one whose email may be kept.\<close>

lemma other_email:
  assumes "distinct (map User_ID us)" "distinct (map User_Email us)" and "find (\<lambda>u. User_ID u = i) us = Some row"
  shows "list_ex (\<lambda>u. User_ID u \<noteq> i \<and> User_Email u = m) us \<longleftrightarrow>
    User_Email row \<noteq> m \<and> list_ex (\<lambda>u. User_Email u = m) us"
proof -
  have row: "row \<in> set us" "User_ID row = i" using assms(3) by (auto dest: find_SomeD)
  have e: "u = row" if "u \<in> set us" "User_Email u = User_Email row" for u
    using distinct_key_unique [OF assms(2) that(1) row(1) that(2)] .
  have d: "u = row" if "u \<in> set us" "User_ID u = i" for u
    using distinct_key_unique [OF assms(1) that(1) row(1)] that(2) row(2) by simp
  show ?thesis
  proof
    assume "list_ex (\<lambda>u. User_ID u \<noteq> i \<and> User_Email u = m) us"
    then obtain u where u: "u \<in> set us" "User_ID u \<noteq> i" "User_Email u = m" by (auto simp: list_ex_iff)
    have "User_Email row \<noteq> m"
    proof
      assume "User_Email row = m"
      with e [OF u(1)] u(3) have "u = row" by simp
      with u(2) row(2) show False by simp
    qed
    with u(1,3) show "User_Email row \<noteq> m \<and> list_ex (\<lambda>u. User_Email u = m) us"
      by (auto simp only: list_ex_iff)
  next
    assume "User_Email row \<noteq> m \<and> list_ex (\<lambda>u. User_Email u = m) us"
    then obtain u where u: "u \<in> set us" "User_Email u = m" "User_Email row \<noteq> m" by (auto simp: list_ex_iff)
    have "User_ID u \<noteq> i"
    proof
      assume "User_ID u = i"
      with d [OF u(1)] have "u = row" by simp
      with u(2,3) show False by simp
    qed
    with u(1,2) show "list_ex (\<lambda>u. User_ID u \<noteq> i \<and> User_Email u = m) us"
      by (auto simp only: list_ex_iff)
  qed
qed

lemma update_reference:
  assumes "plan w = []" "tx w = None" "consistent q w"
    and "pg_text (TrimSpace (UpdateUserInput_Name inp))"
    and "pg_text (normalize_email (uenv_lower env) (UpdateUserInput_Email inp))"
  shows "UpdateUser (app_user pg hasher env timeout errText ttl) i inp w =
    (case update_spec env i inp (clock w) (db w) of
       Inl e \<Rightarrow> (Inl e, w)
     | Inr (u, d') \<Rightarrow> (Inr u, redis_store (''identity:user:id:'' @ FormatInt i) None (w\<lparr>db := d'\<rparr>)))"
proof -
  let ?n = "TrimSpace (UpdateUserInput_Name inp)"
  let ?m = "normalize_email (uenv_lower env) (UpdateUserInput_Email inp)"
  have di: "distinct (map User_ID (users (db w)))" "distinct (map User_Email (users (db w)))"
    using assms(3) by (simp_all add: consistent_def schema_defs serial_ok_def)
  show ?thesis
  proof (cases "0 < i \<and> input_fields (uenv_ParseAddress env) ?n ?m (UpdateUserInput_Age inp) = []")
    case False
    then show ?thesis
      by (auto simp: UpdateUser_def update_spec_def Let_def andThen_def pguser.validateUserInput_state
          NewFieldValidationError_def throw_def)
  next
    case True
    note F = FindByID_ok [OF assms(1), of pg i]
    show ?thesis
    proof (cases "find (\<lambda>u. User_ID u = i) (users (db w))")
      case None
      with True F show ?thesis
        by (simp add: UpdateUser_def update_spec_def Let_def andThen_def mapErr_def pguser.validateUserInput_state)
    next
      case (Some row)
      note ex = ExistsByEmail_ok [OF assms(1,5), of pg]
      note oe = other_email [OF di Some, of ?m]
      show ?thesis
      proof (cases "list_ex (\<lambda>u. User_ID u \<noteq> i \<and> User_Email u = ?m) (users (db w))")
        case True': True
        with oe have "User_Email (scan_user row) \<noteq> ?m" "list_ex (\<lambda>u. User_Email u = ?m) (users (db w))"
          by (simp_all add: scan_user_def)
        with True True' F Some ex show ?thesis
          by (simp add: UpdateUser_def update_spec_def Let_def andThen_def mapErr_def pguser.validateUserInput_state
              throw_def)
      next
        case False
        with oe have e: "User_Email (scan_user row) \<noteq> ?m \<Longrightarrow> \<not> list_ex (\<lambda>u. User_Email u = ?m) (users (db w))"
          by (simp add: scan_user_def)
        let ?u = "zero_User\<lparr>User_ID := i, User_Name := ?n, User_Email := ?m, User_Age := UpdateUserInput_Age inp\<rparr>"
        from Update_ok [of w ?u row pg] assms(1,2,4,5) Some False have
          U: "Repository_Update (user_NewPostgresRepository pg) ?u w =
            (let upd = (\<lambda>v. v\<lparr>User_Name := ?n, User_Email := ?m, User_Age := UpdateUserInput_Age inp,
                      User_UpdatedAt := clock w\<rparr>)
             in (Inr (scan_user (upd row)),
                 w\<lparr>db := (db w)\<lparr>users := update_where (\<lambda>v. User_ID v = i) upd (users (db w))\<rparr>\<rparr>))"
          by simp
        have D: "Cache_DeleteUser (app_cache timeout errText) i (w\<lparr>db := d\<rparr>) =
          (Inr (), redis_store (''identity:user:id:'' @ FormatInt i) None (w\<lparr>db := d\<rparr>))" for d
          by (rule Cache_DeleteUser_ok) (simp add: assms(1))
        from True F Some ex e U D False show ?thesis
          by (simp add: UpdateUser_def update_spec_def Let_def andThen_def mapErr_def pguser.validateUserInput_state
              invalidate_def attempt_def ret_def)
      qed
    qed
  qed
qed

text \<open>
  C24: An update is its reference. When the services answer, \<open>UpdateUser\<close> returns what the function
  \<open>update_spec\<close> on the tables returns, with the same errors in the same order, and leaves the
  tables that function gives and no cache entry for the user; on an error it leaves the state alone.
\<close>

theorem update_user_reference:
  assumes "plan w = []" "tx w = None" "consistent q w"
    and "pg_text (TrimSpace (UpdateUserInput_Name inp))"
    and "pg_text (normalize_email (uenv_lower env) (UpdateUserInput_Email inp))"
  shows "UpdateUser (app_user pg hasher env timeout errText ttl) i inp w =
    (case update_spec env i inp (clock w) (db w) of
       Inl e \<Rightarrow> (Inl e, w)
     | Inr (u, d') \<Rightarrow> (Inr u, redis_store (''identity:user:id:'' @ FormatInt i) None (w\<lparr>db := d'\<rparr>)))"
  by (rule update_reference [OF assms])

section \<open>Deletion\<close>


section \<open>Lists\<close>

text \<open>The users a list is made of: those whose email matches, in the order asked for.\<close>

definition listed :: "pg_locale \<Rightarrow> user_env \<Rightarrow> ListUsersInput \<Rightarrow> User list \<Rightarrow> User list" where
  "listed pg env inp us =
     map scan_user (sort_key (order_key pg (usersOrderBy (ListUsersInput_Sort inp)))
       (filter (email_matches pg (normalize_email (uenv_lower env) (ListUsersInput_Email inp))) us))"

lemma ListUsers_Inr:
  assumes "ListUsers (app_user pg hasher env timeout errText ttl) inp w = (Inr out, w')"
  shows "db w' = db w \<and> 0 \<le> ListUsersInput_Limit inp \<and> 0 \<le> ListUsersInput_Offset inp \<and>
    ListUsersOutput_Total out = int (length (listed pg env inp (users (db w)))) \<and>
    ListUsersOutput_Users out = take (nat (ListUsersInput_Limit inp))
      (drop (nat (ListUsersInput_Offset inp)) (listed pg env inp (users (db w))))"
proof -
  have t: "TrimSpace (normalize_email lo m) = normalize_email lo m" for lo m
    by (simp add: normalize_email_def)
  from assms show ?thesis
    unfolding ListUsers_def Let_def pg_user_simps user_NewPostgresRepository_def Repository.simps
      user_PostgresRepository_List_def ListUsersFilter.simps t
    by (auto elim!: andThen_InrE dest!: mapErr_InrD elim!: sql_InrD
        simp: count_users_def select_users_page_def listed_def take_map drop_map split: if_splits)
qed


section \<open>A concrete service\<close>

definition sample_uenv :: user_env where
  "sample_uenv = \<lparr>uenv_lower = (\<lambda>t. t), uenv_bcrypt = sample_bcrypt, uenv_marshal = (\<lambda>_. Inr ''payload''),
     uenv_ParseAddress = (\<lambda>m. CHR ''@'' \<in> set m)\<rparr>"

abbreviation sample_users :: user_Service where
  "sample_users \<equiv> app_user sample_pg NewPasswordHasher sample_uenv 1 (\<lambda>_. '''') 1000"

definition sample_create :: CreateUserInput where
  "sample_create = \<lparr>CreateUserInput_Name = ''Bob '', CreateUserInput_Email = ''Bob@b.c'',
     CreateUserInput_Age = 40, CreateUserInput_Password = ''password2''\<rparr>"

definition sample_create_profile :: CreateUserWithProfileInput where
  "sample_create_profile = \<lparr>WithProfileInput_Name = ''Bob '', WithProfileInput_Email = ''Bob@b.c'',
     WithProfileInput_Age = 40, WithProfileInput_Password = ''password2'', WithProfileInput_Bio = ''bio''\<rparr>"

definition sample_update :: UpdateUserInput where
  "sample_update = \<lparr>UpdateUserInput_Name = ''Anna'', UpdateUserInput_Email = ''Anna@b.c'', UpdateUserInput_Age = 31\<rparr>"

definition sample_list :: ListUsersInput where
  "sample_list = \<lparr>ListUsersInput_Limit = 1, ListUsersInput_Offset = 0, ListUsersInput_Email = '''',
     ListUsersInput_Sort = ''id_asc''\<rparr>"

lemma sample_member_coherent: "cache_coherent_at (app_look timeout errText) j sample_member"
  by (simp add: cache_coherent_at_def redis_look_def redis_lookup_def live_at_def sample_member_def empty_world_def)

lemma sample_update_texts:
  "TrimSpace (UpdateUserInput_Name sample_update) = ''Anna''"
  "normalize_email (uenv_lower sample_uenv) (UpdateUserInput_Email sample_update) = ''anna@b.c''"
  by (code_simp, code_simp)

abbreviation sample_updated :: User where
  "sample_updated \<equiv> sample_user\<lparr>User_Name := ''Anna'', User_Email := ''anna@b.c'', User_Age := 31\<rparr>"

lemma sample_update_spec:
  "update_spec sample_uenv 1 sample_update 0 (db sample_member) = Inr (scan_user sample_updated,
     (db sample_member)\<lparr>users := [sample_updated]\<rparr>)"
proof -
  have f: "input_fields (uenv_ParseAddress sample_uenv) ''Anna'' ''anna@b.c'' 31 = []" by code_simp
  show ?thesis unfolding update_spec_def Let_def sample_update_texts
    using f by (simp add: sample_update_def sample_user_def)
qed

lemma sample_update_facts:
  "plan sample_member = []" "tx sample_member = None"
  "pg_text (TrimSpace (UpdateUserInput_Name sample_update))"
  "pg_text (normalize_email (uenv_lower sample_uenv) (UpdateUserInput_Email sample_update))"
  unfolding sample_update_texts
  by (simp_all add: pg_text_ascii is_ascii_def sample_member_def empty_world_def)

theorem update_user_reference_witness:
  "\<exists>w'. UpdateUser sample_users 1 sample_update sample_member = (Inr (scan_user sample_updated), w') \<and>
     users (db w') = [sample_updated]"
  using update_user_reference [OF sample_update_facts(1,2) sample_member_consistent sample_update_facts(3,4),
      of sample_pg NewPasswordHasher 1 "\<lambda>_. ''''" 1000 1]
  by (simp add: sample_update_spec redis_store_def)


lemma Cache_GetUser_miss:
  assumes "plan w = []" "redis w (''identity:user:id:'' @ FormatInt i) = None"
  shows "\<exists>n. Cache_GetUser (app_cache timeout errText) i w = (Inr (zero_User, False), w\<lparr>counters := n\<rparr>)"
proof -
  have "RedisCache_GetUser (NewRedisCache ''identity'' timeout errText) i w = (Inr (zero_User, False), w)"
    using assms by (simp add: RedisCache_GetUser_def attempt_def redis_Get_def external_empty redis_lookup_def
        live_at_def RedisCache_userKey_def NewRedisCache_def)
  then show ?thesis
    by (simp add: app_cache_def NewObservedCache_def redis_cache_def ObservedCache_GetUser_def attempt_def
        andThen_def metrics_CacheObserver_def metric_inc_def modify_def) blast
qed

lemma GetUser_miss:
  assumes "plan w = []" "redis w (''identity:user:id:'' @ FormatInt i) = None" "0 < i"
    and "find (\<lambda>u. User_ID u = i) (users (db w)) = Some row"
  shows "\<exists>w'. GetUser (app_user pg hasher env timeout errText ttl) i w = (Inr (scan_user row), w')"
proof -
  obtain n where c: "Cache_GetUser (app_cache timeout errText) i w = (Inr (zero_User, False), w\<lparr>counters := n\<rparr>)"
    using Cache_GetUser_miss [OF assms(1,2)] by blast
  have f: "Repository_FindByID (user_NewPostgresRepository pg) i (w\<lparr>counters := n\<rparr>) =
      (Inr (scan_user row), w\<lparr>counters := n\<rparr>)"
    using FindByID_ok [of "w\<lparr>counters := n\<rparr>" pg i] assms(1,4) by simp
  from c f assms(3) show ?thesis
    by (simp add: GetUser_def Let_def attempt_def andThen_def mapErr_def ret_def split: prod.split)
qed

theorem get_user_cached_witness:
  "\<exists>w'. GetUser sample_users 1 sample_member = (Inr (scan_user sample_user), w') \<and> db w' = db sample_member"
proof -
  have g: "\<exists>w'. GetUser sample_users 1 sample_member = (Inr (scan_user sample_user), w')"
    by (rule GetUser_miss) (simp_all add: sample_member_def empty_world_def sample_user_def)
  then obtain w' where 1: "GetUser sample_users 1 sample_member = (Inr (scan_user sample_user), w')" by blast
  from get_user_cached [OF sample_member_coherent 1] 1 show ?thesis by blast
qed

theorem create_user_all_or_nothing_witness:
  "length (users (db (snd (CreateUser sample_users sample_create sample_member)))) \<in> {1, 2}"
  using create_user_all_or_nothing [OF prod.collapse [symmetric], of sample_pg NewPasswordHasher sample_uenv 1 "\<lambda>_. ''''" 1000
      sample_create sample_member]
  by (auto simp: user_created_def)

theorem create_with_profile_all_or_nothing_witness:
  "length (users (db (snd (CreateUserWithProfile sample_users sample_create_profile sample_member)))) \<in> {1, 2}"
  using create_with_profile_all_or_nothing [OF prod.collapse [symmetric], of sample_pg NewPasswordHasher sample_uenv 1 "\<lambda>_. ''''" 1000
      sample_create_profile sample_member]
  by (auto simp: user_created_def)



end
