(* ===== verification/Authorization.thy ===== *)
theory Authorization
  imports App_Http Config User_Properties
begin

text \<open>
  Who may change what over HTTP. The application is assembled as \<open>Run\<close> of internal/app/app.go
  does it, from the configuration and the libraries; the bearer token of a request decides which
  handlers run, and the handlers decide which rows change.
\<close>

section \<open>The application\<close>

text \<open>The libraries, as the parameters they are in the components.\<close>

record libs =
  lib_pg :: pg_locale
  lib_auth :: auth_env
  lib_user :: user_env
  lib_pr :: "string \<Rightarrow> bool"
  lib_validator :: validator_lib
  lib_decode_text :: "decode_error \<Rightarrow> string"
  lib_metrics_handler :: http_Handler
  lib_ping_db :: Pinger
  lib_ping_redis :: Pinger
  lib_ping_kafka :: Pinger
  lib_redirect :: redirect_page

definition app_tokens :: "Config \<Rightarrow> TokenManager" where
  "app_tokens cfg = NewTokenManager (AuthConfig_JWTSecret (Config_Auth cfg))
     (AuthConfig_AccessTokenTTL (Config_Auth cfg)) (AppConfig_Name (Config_App cfg))"

text \<open>\<open>initAuthModule\<close>: the handler and the middleware.\<close>

definition app_auth_handler :: "libs \<Rightarrow> Config \<Rightarrow> auth_Handler" where
  "app_auth_handler L cfg =
     (let authService = pg_auth (lib_pg L) NewPasswordHasher (app_tokens cfg)
            (AuthConfig_RefreshTokenTTL (Config_Auth cfg)) (lib_auth L);
          limiter = redis_limiter (NewRedisLimiter ''identity'' (TimeoutsConfig_RedisCommand (Config_Timeouts cfg)))
      in auth_NewHandler authService (validation_New (lib_validator L)) (Some limiter)
           (Config_RateLimit cfg) (lib_pr L))"

definition app_auth_middleware :: "libs \<Rightarrow> Config \<Rightarrow> MiddleWare" where
  "app_auth_middleware L cfg = NewMiddleWare (app_tokens cfg) (env_jwt (lib_auth L))"

text \<open>The user service of \<open>Run\<close>, with its observed cache.\<close>

definition app_user_service :: "libs \<Rightarrow> Config \<Rightarrow> user_Service" where
  "app_user_service L cfg =
     pg_user (lib_pg L) NewPasswordHasher (lib_user L)
       (app_cache (TimeoutsConfig_RedisCommand (Config_Timeouts cfg)) (lib_decode_text L))
       (CacheConfig_UserTTL (Config_Cache cfg))"

definition Run_app :: "libs \<Rightarrow> Config \<Rightarrow> bool \<Rightarrow> app" where
  "Run_app L cfg shuttingDown =
     \<lparr>app_Name = AppConfig_Name (Config_App cfg), app_Version = AppConfig_Version (Config_App cfg),
      app_Environment = AppConfig_Environment (Config_App cfg),
      app_metrics_handler = lib_metrics_handler L,
      app_health = NewHealthHandlers (lib_ping_db L) (lib_ping_redis L) (lib_ping_kafka L) shuttingDown,
      app_auth = app_auth_handler L cfg, app_authMiddleware = app_auth_middleware L cfg,
      app_userHandler = user_NewHandler (app_user_service L cfg) (validation_New (lib_validator L)) (lib_pr L),
      app_CORS = \<lparr>CORSConfig_AllowedOrigins = Origins (Config_CORS cfg),
                  CORSConfig_AllowedMethods = Methods (Config_CORS cfg),
                  CORSConfig_AllowedHeaders = Headers (Config_CORS cfg)\<rparr>,
      app_redirect = lib_redirect L\<rparr>"

section \<open>The bearer of a request\<close>

text \<open>The principal of the token a request carries at a time, if the token is accepted.\<close>

definition bearer :: "MiddleWare \<Rightarrow> request \<Rightarrow> int \<Rightarrow> Principal option" where
  "bearer m r now =
     (let header = TrimSpace (Header_Get r ''Authorization'');
          tokenString = TrimSpace (TrimPrefix header ''Bearer '')
      in if \<not> HasPrefix header ''Bearer '' \<or> tokenString = '''' then None
         else (case TokenManager_Parse (MiddleWare_jwt m) (MiddleWare_tokens m) tokenString now of
                 Inl err \<Rightarrow> None
               | Inr claims \<Rightarrow> Some \<lparr>Principal_UserID = Claims_UserID claims,
                   Principal_Email = Claims_Email claims, Principal_Role = Claims_Role claims\<rparr>))"

definition as_bearer :: "request \<Rightarrow> Principal \<Rightarrow> request" where
  "as_bearer r p = WithContext r (ContextWithUser (Req_Context r) p)"

lemma RequireAuth_bearer:
  "RequireAuth m next r c =
     (case bearer m r (clock (conn_world c)) of
        None \<Rightarrow> unauthorized c | Some p \<Rightarrow> next (as_bearer r p) c)"
  by (auto simp: RequireAuth_def bearer_def Let_def as_bearer_def HasPrefix_def split: sum.splits)

lemma principal_as_bearer [simp]: "PrincipalFromContext (Req_Context (as_bearer r p)) = Some p"
  by (simp add: as_bearer_def WithContext_def PrincipalFromContext_def ContextWithUser_def)

lemma RequireRole_bearer:
  "RequireRole m roles next r c =
     (case bearer m r (clock (conn_world c)) of
        None \<Rightarrow> unauthorized c
      | Some p \<Rightarrow> if Principal_Role p \<in> set roles then next (as_bearer r p) c
                  else SendError 403 ''forbidden'' ''Forbidden'' c)"
  by (simp add: RequireRole_def RequireAuth_bearer split: option.split)

lemma RequireSelfOrRole_bearer:
  "RequireSelfOrRole m extract roles next r c =
     (case bearer m r (clock (conn_world c)) of
        None \<Rightarrow> unauthorized c
      | Some p \<Rightarrow>
          if Principal_Role p \<in> set roles \<or> extract (as_bearer r p) = Inr (Principal_UserID p)
          then next (as_bearer r p) c
          else (case extract (as_bearer r p) of
                  Inl err \<Rightarrow> SendError 400 ''invalid_path_param'' ''Invalid path parameter'' c
                | Inr i \<Rightarrow> SendError 403 ''forbidden'' ''Forbidden'' c))"
  by (auto simp: RequireSelfOrRole_def RequireAuth_bearer split: option.split sum.split)

lemma bearer_header:
  "Req_Header r' = Req_Header r \<Longrightarrow> bearer m r' now = bearer m r now"
  by (simp add: bearer_def Header_Get_def)


section \<open>What the handlers change\<close>

text \<open>Answering leaves every view of the world alone, a call changes what its program changes.\<close>

lemma frame_view: "frame conn_world m \<Longrightarrow> frame (\<lambda>c. f (conn_world c)) m"
  by (simp add: frame_def)

lemmas answer_views =
  JSON_world [THEN frame_view] SendError_world [THEN frame_view] SendValidationError_world [THEN frame_view]
  HandleError_world [THEN frame_view] DecodeJSON_world [THEN frame_view] WriteHeader_world [THEN frame_view]
  Write_world [THEN frame_view] Header_Set_world [THEN frame_view] log_at_world [THEN frame_view]

lemma call_view: "frame f m \<Longrightarrow> frame (\<lambda>c. f (conn_world c)) (call m)"
  by (simp add: frame_def call_def split: prod.splits)
    (metis snd_conv)

lemma handled_view:
  "frame f m \<Longrightarrow> (\<And>a. frame (\<lambda>c. f (conn_world c)) (k a)) \<Longrightarrow>
     frame (\<lambda>c. f (conn_world c)) (handled m k)"
  unfolding handled_def by (intro frame_intros call_view answer_views)

lemma validated_view: "frame (\<lambda>c. f (conn_world c)) k \<Longrightarrow> frame (\<lambda>c. f (conn_world c)) (validated v fs k)"
  unfolding validated_def by (intro frame_intros answer_views)

lemma parse_views:
  "frame (\<lambda>c. f (conn_world c)) (parseId r)" "frame (\<lambda>c. f (conn_world c)) (parseString r str)"
  unfolding parseId_def parseString_def Let_def by (intro frame_intros answer_views)+

lemmas handler_views = answer_views call_view handled_view validated_view parse_views

text \<open>The user operations that only read.\<close>

context user_deps
begin

lemma reading_operations:
  "frame db (GetUser s i)" "frame db (ListUsers s li)" "frame db (GetUserByEmail s m)"
proof -
  show "frame db (GetUser s i)"
    unfolding GetUser_def wiring option.case Let_def
    by (intro frame_intros usr.readers csh.cache_frames)
  show "frame db (ListUsers s li)"
    unfolding ListUsers_def wiring Let_def by (intro frame_intros usr.readers)
  show "frame db (GetUserByEmail s m)"
    unfolding GetUserByEmail_def wiring Let_def by (intro frame_intros usr.readers)
qed

end

text \<open>The tables without the row of one user; an update of that row is not seen there.\<close>

definition without_row :: "int \<Rightarrow> tables \<Rightarrow> tables" where
  "without_row i d = d\<lparr>users := filter (\<lambda>u. User_ID u \<noteq> i) (users d)\<rparr>"

lemma without_row_update:
  "(\<And>u. User_ID (f u) = User_ID u) \<Longrightarrow>
     filter (\<lambda>u. User_ID u \<noteq> i) (update_where (\<lambda>u. User_ID u = i) f us) = filter (\<lambda>u. User_ID u \<noteq> i) us"
  by (induction us) auto

lemma update_users_row: "frame (\<lambda>w. without_row i (db w)) (update_users n m a i)"
  by (rule frameI)
    (auto simp: update_users_def Let_def without_row_def without_row_update split: option.split)

lemma Update_row: "User_ID u = i \<Longrightarrow> frame (\<lambda>w. without_row i (db w)) (user_PostgresRepository_Update u)"
  unfolding user_PostgresRepository_Update_def
  by (intro frame_intros) (use update_users_row in auto)

lemma frame_of: "frame g m \<Longrightarrow> frame (\<lambda>w. h (g w)) m"
  by (simp add: frame_def)

lemma UpdateUser_row:
  "frame (\<lambda>w. without_row i (db w)) (UpdateUser (pg_user pg hasher env (app_cache timeout txt) ttl) i input)"
proof -
  let ?v = "\<lambda>w. without_row i (db w)"
  have r: "frame ?v (user_PostgresRepository_FindByID j)" "frame ?v (user_PostgresRepository_ExistsByEmail m)"
    for j m by (rule frame_of [where g = db], rule user_method_readers)+
  have c: "frame ?v (Cache_DeleteUser (app_cache timeout txt) j)" for j
    by (rule frame_of [where g = db], rule app_cache.cache_frames)
  have v: "frame ?v (validateUserInput pa n m a)" for pa n m a
    by (simp add: frame_def pguser.validateUserInput_state)
  show ?thesis
    unfolding UpdateUser_def invalidate_def Let_def pg_user_simps option.case user_NewPostgresRepository_def Repository.select_convs
    by (intro frame_intros r c v Update_row) simp
qed


section \<open>From the chain to a route\<close>

lemma ServeHTTP_cases:
  assumes "ServeHTTP rp routes r c = (res, c')"
  obtains (none) "conn_world c' = conn_world c"
    | (route) rt ms where "rt \<in> set routes" "match_path (route_pattern rt) (Req_Path r) = Some ms"
        "pattern_method (route_pattern rt) = Req_Method r \<or>
           Req_Method r = ''HEAD'' \<and> pattern_method (route_pattern rt) = ''GET''"
        "route_handler rt (r\<lparr>Req_PathValues := ms\<rparr>) (c\<lparr>conn_pattern := route_pattern rt\<rparr>) = (res, c')"
proof -
  have best: "best_route rts = Some rt \<Longrightarrow> rt \<in> set rts" for rts rt
    by (induction rts arbitrary: rt) (auto split: option.splits if_splits)
  have found: "rt \<in> set routes \<and> match_path (route_pattern rt) path \<noteq> None \<and>
      (pattern_method (route_pattern rt) = m \<or> m = ''HEAD'' \<and> pattern_method (route_pattern rt) = ''GET'')"
    if "find_route routes m path = Some rt" for rt m path
    using that by (auto simp: find_route_def Let_def split: option.splits if_splits dest!: best)
  define path where "path = (if Req_Method r = ''CONNECT'' then Req_Path r else cleanPath (Req_Path r))"
  have sp: "set_pattern p c = (Inr (), c\<lparr>conn_pattern := p\<rparr>)" for p
    by (simp add: set_pattern_def modify_def)
  have sv: "frame conn_world (set_pattern p)" for p
    unfolding set_pattern_def by (rule modify_frame) simp
  have er: "frame conn_world (http_Error t code)" for t code
    unfolding http_Error_def by (intro frame_intros)
  show ?thesis
  proof (cases "Req_Path r = ''*'' \<or> path \<noteq> Req_Path r \<or> find_route routes (Req_Method r) path = None")
    case True
    define M where "M = (if Req_Path r = ''*'' then WriteHeader 400
       else if path \<noteq> Req_Path r then
           andThen (set_pattern (case find_route routes (Req_Method r) path of None \<Rightarrow> '''' | Some rt \<Rightarrow> route_pattern rt)) (\<lambda>_.
           andThen (Header_Set ''Location'' (redirect_location rp path (Req_RawQuery r))) (\<lambda>_.
           andThen (Header_Set ''Content-Type'' ''text/html; charset=utf-8'') (\<lambda>_.
           andThen (WriteHeader (redirect_status rp)) (\<lambda>_.
             if Req_Method r = ''GET'' then Write (RawDoc (redirect_body rp path)) else ret ()))))
       else if allowed_methods routes path \<noteq> [] then
                  andThen (Header_Set ''Allow'' (Join (allowed_methods routes path) '', '')) (\<lambda>_.
                    http_Error ''Method Not Allowed'' 405)
                else http_Error ''404 page not found'' 404)"
    have "frame conn_world M" unfolding M_def by (intro frame_intros sv er)
    moreover have "ServeHTTP rp routes r = M"
      using True unfolding ServeHTTP_def Let_def path_def [symmetric] M_def by (auto split: option.split)
    ultimately have "conn_world c' = conn_world c" using assms by (auto dest: frameD)
    then show ?thesis by (rule none)
  next
    case False
    then obtain rt where rt: "find_route routes (Req_Method r) path = Some rt" and p: "path = Req_Path r"
      and s: "Req_Path r \<noteq> ''*''" by auto
    from found [OF rt] obtain ms where ms: "match_path (route_pattern rt) path = Some ms" by auto
    have "ServeHTTP rp routes r c =
        route_handler rt (r\<lparr>Req_PathValues := ms\<rparr>) (c\<lparr>conn_pattern := route_pattern rt\<rparr>)"
      using s p rt ms unfolding ServeHTTP_def Let_def path_def [symmetric]
      by (simp add: andThen_def sp)
    with assms found [OF rt] ms p show ?thesis by (intro route [of rt ms]) auto
  qed
qed

text \<open>The chain changes the tables only by what the handler inside does.\<close>

lemma with_responseWriter_world:
  "with_responseWriter m c = (q, c') \<Longrightarrow>
     \<exists>p c1. m (c\<lparr>conn_writers := newResponseWriter # conn_writers c\<rparr>) = (p, c1) \<and>
        conn_world c' = conn_world c1"
  by (auto simp: with_responseWriter_def split: prod.splits sum.splits)

lemma Metrics_world:
  assumes "Metrics_middleware next r c = (q, c')"
  obtains p c0 c1 where "next r c0 = (p, c1)" "conn_world c0 = conn_world c"
    "db (conn_world c') = db (conn_world c1)"
proof -
  have inc: "frame (\<lambda>c. db (conn_world c)) (call (metric_inc n ls))" for n ls
    by (intro call_view) (simp add: frame_def metric_inc_def modify_def)
  from assms obtain x c2 where 1: "with_responseWriter (next r) c = (x, c2)"
    and 2: "db (conn_world c') = db (conn_world c2)"
    unfolding Metrics_middleware_def Let_def
    by (auto simp: andThen_def call_def metric_inc_def modify_def ret_def split: prod.splits sum.splits)
  from with_responseWriter_world [OF 1] obtain p c1 where
    "next r (c\<lparr>conn_writers := newResponseWriter # conn_writers c\<rparr>) = (p, c1)" "conn_world c2 = conn_world c1"
    by blast
  with 2 show ?thesis by (intro that [of "c\<lparr>conn_writers := newResponseWriter # conn_writers c\<rparr>" p c1]) simp_all
qed

lemma Logging_world:
  assumes "Logging next r c = (q, c')"
  obtains p c0 c1 where "next r c0 = (p, c1)" "conn_world c0 = conn_world c" "conn_world c' = conn_world c1"
proof -
  obtain x c2 where 1: "with_responseWriter (next r) c = (x, c2)" by (rule prod.exhaust)
  have 2: "conn_world c' = conn_world c2"
  proof (cases x)
    case (Inl e)
    with assms 1 show ?thesis by (simp add: Logging_def andThen_def)
  next
    case (Inr st)
    have "\<exists>l. Logging next r c = (Inr (), c2\<lparr>conn_log := l\<rparr>)"
      unfolding Logging_def andThen_def 1 Inr Let_def prod.case sum.case by (rule log_cases)
    with assms show ?thesis by auto
  qed
  from with_responseWriter_world [OF 1] obtain p c1 where
    "next r (c\<lparr>conn_writers := newResponseWriter # conn_writers c\<rparr>) = (p, c1)" "conn_world c2 = conn_world c1"
    by blast
  with 2 show ?thesis by (intro that [of "c\<lparr>conn_writers := newResponseWriter # conn_writers c\<rparr>" p c1]) simp_all
qed

lemma Recovery_world:
  assumes "Recovery next r c = (q, c')"
  obtains p c1 where "next r c = (p, c1)" "conn_world c' = conn_world c1"
proof -
  obtain p c1 where 1: "next r c = (p, c1)" by (rule prod.exhaust)
  have f: "frame conn_world (andThen (log_at l m args) (\<lambda>_. SendError code e t))" for l m args code e t
    by (intro frame_intros)
  have "conn_world c' = conn_world c1"
    using assms 1 by (cases p) (auto simp: Recovery_def attempt_def dest: frameD [OF f])
  with 1 that show ?thesis by blast
qed


lemma app_chain_reaches:
  assumes "app_chain cors mux r c = (res, c')" and "Req_Method r \<noteq> ''OPTIONS''"
  obtains ctx c0 p c1 where "mux (WithContext r ctx) c0 = (p, c1)"
    "db (conn_world c0) = db (conn_world c)" "clock (conn_world c0) = clock (conn_world c)"
    "plan (conn_world c0) = plan (conn_world c)" "db (conn_world c') = db (conn_world c1)"
proof -
  obtain ctx c1 where 1: "app_chain cors mux r c =
      Metrics_middleware (Logging (Recovery mux)) (WithContext r ctx) c1" "entered c c1"
    by (rule app_chain_enter [OF assms(2)])
  obtain p2 a2 b2 where 2: "Logging (Recovery mux) (WithContext r ctx) a2 = (p2, b2)"
    "conn_world a2 = conn_world c1" "db (conn_world c') = db (conn_world b2)"
    using assms 1 by (auto elim: Metrics_world)
  obtain p3 a3 b3 where 3: "Recovery mux (WithContext r ctx) a3 = (p3, b3)"
    "conn_world a3 = conn_world a2" "conn_world b2 = conn_world b3"
    using 2(1) by (rule Logging_world)
  obtain p4 b4 where 4: "mux (WithContext r ctx) a3 = (p4, b4)" "conn_world b3 = conn_world b4"
    using 3(1) by (rule Recovery_world)
  show ?thesis
    by (rule that [OF 4(1)]) (use 1(2) 2 3 4 in \<open>simp_all add: entered_def\<close>)
qed

lemma app_chain_tables:
  assumes "app_chain cors mux r c = (res, c')"
  shows "db (conn_world c') = db (conn_world c) \<or>
    (\<exists>ctx c0 p c1. mux (WithContext r ctx) c0 = (p, c1) \<and> db (conn_world c0) = db (conn_world c) \<and>
       clock (conn_world c0) = clock (conn_world c) \<and> db (conn_world c') = db (conn_world c1))"
proof (cases "Req_Method r = ''OPTIONS''")
  case False
  from app_chain_reaches [OF assms False] show ?thesis by metis
next
  case True
  obtain ctx c1 where 1: "app_chain cors mux r c =
      SecurityHeaders (CORS cors (Metrics_middleware (Logging (Recovery mux)))) (WithContext r ctx) c1"
    "entered c c1" unfolding app_chain_unfold by (rule RequestId_enter)
  obtain c2 where 2: "SecurityHeaders (CORS cors (Metrics_middleware (Logging (Recovery mux))))
      (WithContext r ctx) c1 = CORS cors (Metrics_middleware (Logging (Recovery mux))) (WithContext r ctx) c2"
    "entered c1 c2" by (rule SecurityHeaders_enter)
  have m: "Req_Method (WithContext r ctx) = ''OPTIONS''" using True by (simp add: WithContext_def)
  have "frame conn_world (CORS cors h (WithContext r ctx))" for h
    unfolding CORS_def Let_def if_P [OF m] by (intro frame_intros)
  then have "conn_world c' = conn_world c2" using assms 1 2 by (auto dest: frameD)
  with 1 2 show ?thesis by (auto simp: entered_def)
qed


section \<open>The rights of a request\<close>

text \<open>A request that the route of a pattern serves.\<close>

definition serves :: "string \<Rightarrow> request \<Rightarrow> bool" where
  "serves p r \<longleftrightarrow> pattern_method p = Req_Method r \<and> match_path p (Req_Path r) \<noteq> None"

definition public_changes :: "string list" where
  "public_changes = [''POST /auth/register'', ''POST /auth/login'', ''POST /auth/refresh'', ''POST /auth/logout'']"

text \<open>What the bearer of a request may change.\<close>

definition may_change :: "request \<Rightarrow> Principal option \<Rightarrow> tables \<Rightarrow> tables \<Rightarrow> bool" where
  "may_change r b d d' \<longleftrightarrow>
     list_ex (\<lambda>p. serves p r) public_changes \<or>
     (case b of
        None \<Rightarrow> False
      | Some p \<Rightarrow> Principal_Role p = RoleAdmin \<or>
          serves ''PUT /users/{id}'' r \<and> without_row (Principal_UserID p) d' = without_row (Principal_UserID p) d)"

text \<open>The two numbers that the id of a path is read to are the same.\<close>

lemma TrimSpace_plain:
  assumes "\<forall>r \<in> set space_runes. hd r \<notin> set s \<and> last r \<notin> set s"
  shows "TrimSpace s = s"
proof -
  have head: "\<not> prefix r t" if "r \<noteq> []" "hd r \<notin> set t" for r t :: string
    using that by (cases r; cases t) auto
  have ne: "\<forall>r \<in> set space_runes. r \<noteq> []" by (simp add: space_runes_def)
  have 1: "clean_front space_runes s"
    using assms head by (auto simp: clean_front_def)
  have 2: "clean_front (map rev space_runes) (rev s)"
    unfolding clean_front_def
  proof (intro ballI impI)
    fix r assume "r \<in> set (map rev space_runes)" "r \<noteq> []"
    then obtain q where q: "q \<in> set space_runes" "r = rev q" by auto
    then have "hd r \<notin> set (rev s)" using assms ne by (auto simp: hd_rev)
    with \<open>r \<noteq> []\<close> show "\<not> prefix r (rev s)" by (rule head)
  qed
  show ?thesis using trimLeftBy_clean [OF 1] trimLeftBy_clean [OF 2] by (simp add: TrimSpace_def)
qed

definition number_char :: "char \<Rightarrow> bool" where
  "number_char c \<longleftrightarrow> is_digit c \<or> c = CHR ''-'' \<or> c = CHR ''+''"

lemma ParseInt_chars: "ParseInt s = Some j \<Longrightarrow> list_all number_char s"
  by (cases s) (auto simp: ParseInt_def Let_def number_char_def list_all_iff split: if_splits)

lemma ParseInt_trimmed:
  assumes "ParseInt s = Some j"
  shows "TrimSpace s = s"
proof (rule TrimSpace_plain)
  have runes: "\<forall>r \<in> set space_runes. \<not> number_char (hd r) \<and> \<not> number_char (last r)" by code_simp
  show "\<forall>r \<in> set space_runes. hd r \<notin> set s \<and> last r \<notin> set s"
    using runes ParseInt_chars [OF assms] by (auto simp: list_all_iff)
qed

text \<open>The rights of the handlers behind the two guards.\<close>

lemma self_id:
  assumes "PathInt64Param ''id'' r = Inr i" and "ParseInt (PathValue r ''id'') = Some j"
  shows "j = i"
  using assms ParseInt_trimmed [OF assms(2)]
  by (auto simp: PathInt64Param_def Let_def split: if_splits option.splits)

lemma Handler_UpdateUser_row:
  assumes "\<And>j. ParseInt (PathValue r ''id'') = Some j \<Longrightarrow> j = i"
  shows "frame (\<lambda>c. without_row i (db (conn_world c)))
    (Handler_UpdateUser (user_NewHandler (app_user_service L cfg) v pr) r)"
proof (cases "ParseInt (PathValue r ''id'')")
  case None
  let ?h = "user_NewHandler (app_user_service L cfg) v pr"
  have "frame conn_world (Handler_UpdateUser ?h r)"
    unfolding Handler_UpdateUser_def when_ok_def parseId_def Let_def None option.case
    by (auto simp: frame_def andThen_def ret_def split: prod.splits sum.splits
        intro: frameD [OF SendValidationError_world])
  then show ?thesis by (rule frame_view)
next
  case (Some j)
  have i: "i = j" using assms [OF Some] by simp
  let ?s = "app_user_service L cfg"
  have u: "frame (\<lambda>w. without_row i (db w)) (UpdateUser ?s i input)" for input
    unfolding app_user_service_def by (rule UpdateUser_row)
  have p: "parseId r = ret (Some i)" by (simp add: parseId_def Some i)
  have eq: "Handler_UpdateUser (user_NewHandler ?s v pr) r =
      when_ok (DecodeJSON pr UpdateUserRequest_schema UpdateUserRequest_of r) (\<lambda>req.
        validated v (UpdateUserRequest_fields req)
          (handled (UpdateUser ?s i
             \<lparr>UpdateUserInput_Name = UpdateUserRequest_Name req, UpdateUserInput_Email = UpdateUserRequest_Email req,
              UpdateUserInput_Age = UpdateUserRequest_Age req\<rparr>) (\<lambda>updated.
           JSON 200 (Some (UserResponse_json (ToResponse updated))))))"
    unfolding Handler_UpdateUser_def p by (simp add: when_ok_def andThen_def ret_def user_NewHandler_def fun_eq_iff)
  show ?thesis unfolding eq by (intro frame_intros handler_views u)
qed

lemma Handler_GetUserById_reads:
  "frame (\<lambda>c. db (conn_world c)) (Handler_GetUserById (user_NewHandler (app_user_service L cfg) v pr) r)"
  unfolding Handler_GetUserById_def user_NewHandler_def user_Handler.select_convs app_user_service_def
  by (intro frame_intros handler_views pguser.reading_operations)

lemma Handler_Me_reads:
  "frame (\<lambda>c. db (conn_world c)) (Handler_Me (app_auth_handler L cfg) r)"
  unfolding Handler_Me_def app_auth_handler_def auth_NewHandler_def auth_Handler.select_convs Let_def
  by (intro frame_intros handler_views pgauth.Me_only)

lemma unauthorized_world: "frame conn_world unauthorized"
  unfolding unauthorized_def by (intro frame_intros)

text \<open>When something changed behind a guard, the bearer had the right.\<close>

lemma RequireRole_changed:
  assumes "RequireRole m [RoleAdmin] h r c = (p, c1)" and "db (conn_world c1) \<noteq> db (conn_world c)"
  shows "\<exists>prin. bearer m r (clock (conn_world c)) = Some prin \<and> Principal_Role prin = RoleAdmin"
  using assms frameD [OF unauthorized_world] frameD [OF SendError_world]
  by (force simp: RequireRole_bearer split: option.splits if_splits)

lemma RequireSelfOrRole_changed:
  assumes "RequireSelfOrRole m extract [RoleAdmin] h r c = (p, c1)"
    and "db (conn_world c1) \<noteq> db (conn_world c)"
  shows "\<exists>prin. bearer m r (clock (conn_world c)) = Some prin \<and>
    (Principal_Role prin = RoleAdmin \<or>
     extract (as_bearer r prin) = Inr (Principal_UserID prin) \<and> h (as_bearer r prin) c = (p, c1))"
  using assms frameD [OF unauthorized_world] frameD [OF SendError_world]
  by (force simp: RequireSelfOrRole_bearer split: option.splits if_splits sum.splits)

lemma RequireAuth_changed:
  assumes "RequireAuth m h r c = (p, c1)" and "db (conn_world c1) \<noteq> db (conn_world c)"
  shows "\<exists>r'. h r' c = (p, c1)"
  using assms frameD [OF unauthorized_world]
  by (force simp: RequireAuth_bearer split: option.splits)

lemma health_check_view: "frame f pinger \<Longrightarrow> frame (\<lambda>c. f (conn_world c)) (health_check n pinger checks)"
  unfolding health_check_def by (intro frame_intros handler_views)

lemma Ready_view:
  "frame f (health_db h) \<Longrightarrow> frame f (health_redis h) \<Longrightarrow> frame f (health_kafka h) \<Longrightarrow>
     frame (\<lambda>c. f (conn_world c)) (Ready h r)"
  unfolding Ready_def Let_def by (intro frame_intros handler_views health_check_view)


section \<open>Every route\<close>

text \<open>The libraries called by the handlers outside the services read the tables at most.\<close>

definition reading_libs :: "libs \<Rightarrow> bool" where
  "reading_libs L \<longleftrightarrow> (\<forall>r. frame (\<lambda>c. db (conn_world c)) (lib_metrics_handler L r)) \<and>
     frame db (lib_ping_db L) \<and> frame db (lib_ping_redis L) \<and> frame db (lib_ping_kafka L)"

lemma pattern_methods:
  "pattern_method ''POST /auth/register'' = ''POST''" "pattern_method ''POST /auth/login'' = ''POST''"
  "pattern_method ''POST /auth/refresh'' = ''POST''" "pattern_method ''POST /auth/logout'' = ''POST''"
  "pattern_method ''PUT /users/{id}'' = ''PUT''"
  by code_simp+

text \<open>The routes in four groups: reading, public, for administrators, for the user of the path.\<close>

inductive route_group :: "libs \<Rightarrow> Config \<Rightarrow> bool \<Rightarrow> route \<Rightarrow> bool"
  for L :: libs and cfg :: Config and sd :: bool where
  reading: "(\<And>r. reading_libs L \<Longrightarrow> frame (\<lambda>c. db (conn_world c)) (h r)) \<Longrightarrow>
    route_group L cfg sd (route_to p h)"
| public: "p \<in> set public_changes \<Longrightarrow> route_group L cfg sd (route_to p h)"
| admin: "route_group L cfg sd (route_to p (RequireRole (app_auth_middleware L cfg) [RoleAdmin] h))"
| self_reading: "(\<And>r. frame (\<lambda>c. db (conn_world c)) (h r)) \<Longrightarrow> route_group L cfg sd
    (route_to p (RequireSelfOrRole (app_auth_middleware L cfg) (PathInt64Param ''id'') [RoleAdmin] h))"
| self_update: "route_group L cfg sd (route_to ''PUT /users/{id}''
    (RequireSelfOrRole (app_auth_middleware L cfg) (PathInt64Param ''id'') [RoleAdmin]
       (Handler_UpdateUser (app_userHandler (Run_app L cfg sd)))))"

lemma app_routes_grouped: "list_all (route_group L cfg sd) (app_routes (Run_app L cfg sd))"
proof -
  let ?a = "Run_app L cfg sd" and ?m = "app_auth_middleware L cfg"
  have const: "frame (\<lambda>c. db (conn_world c)) (JSON code d)" for code d by (rule answer_views)
  have f: "app_metrics_handler ?a = lib_metrics_handler L" "app_authMiddleware ?a = ?m"
    "app_auth ?a = app_auth_handler L cfg" by (simp_all add: Run_app_def)
  have health: "list_all (route_group L cfg sd) (initHealthModule ?a)"
    unfolding initHealthModule_def
    by (auto intro!: route_group.reading const Ready_view
        simp: Health_def ping_handler_def info_handler_def version_handler_def panic_handler_def
          Run_app_def NewHealthHandlers_def reading_libs_def)
  have me: "frame (\<lambda>c. db (conn_world c)) (RequireAuth ?m (Handler_Me (app_auth_handler L cfg)) r)" for r
    using RequireAuth_changed frameD [OF Handler_Me_reads]
    by (intro frameI) (metis prod.collapse)
  have auth: "list_all (route_group L cfg sd) (auth_RegisterRoutes (app_auth ?a) (app_authMiddleware ?a))"
    unfolding auth_RegisterRoutes_def list.pred_inject f
    by (intro conjI route_group.public route_group.reading [OF me] list.pred_inject(1) TrueI) (simp_all add: public_changes_def)
  have get: "frame (\<lambda>c. db (conn_world c)) (Handler_GetUserById (app_userHandler ?a) r)" for r
    using Handler_GetUserById_reads by (simp add: Run_app_def)
  have usr: "list_all (route_group L cfg sd) (initUserModule ?a)"
    unfolding initUserModule_def user_RegisterRoutes_def list.pred_inject f
    by (intro conjI route_group.admin route_group.self_update route_group.self_reading [OF get] TrueI list.pred_inject(1))
  have met: "route_group L cfg sd (route_to ''GET /metrics'' (lib_metrics_handler L))"
    by (rule route_group.reading) (simp add: reading_libs_def)
  show ?thesis unfolding app_routes_def f(1) using met health auth usr by simp
qed

lemma route_changes:
  assumes libs: "reading_libs L" and rt: "route_group L cfg sd rt"
    and ms: "match_path (route_pattern rt) (Req_Path r) = Some ms"
    and meth: "pattern_method (route_pattern rt) = Req_Method r \<or>
           Req_Method r = ''HEAD'' \<and> pattern_method (route_pattern rt) = ''GET''"
    and run: "route_handler rt (r\<lparr>Req_PathValues := ms\<rparr>) c = (res, c1)"
    and changed: "db (conn_world c1) \<noteq> db (conn_world c)"
  shows "may_change r (bearer (app_auth_middleware L cfg) r (clock (conn_world c)))
    (db (conn_world c)) (db (conn_world c1))"
proof -
  let ?r1 = "r\<lparr>Req_PathValues := ms\<rparr>" and ?m = "app_auth_middleware L cfg"
  have b: "bearer ?m ?r1 now = bearer ?m r now" for now by (rule bearer_header) simp
  have rec: "route_pattern (route_to p h) = p" "route_handler (route_to p h) = h" for p h
    by (simp_all add: route_to_def)
  from rt show ?thesis
  proof (cases rule: route_group.cases)
    case (reading h p)
    with run changed libs frameD [of "\<lambda>c. db (conn_world c)" "h ?r1" c res c1] show ?thesis
      by (simp add: rec)
  next
    case (public p h)
    have "pattern_method p = ''POST''" using public(2) pattern_methods by (auto simp: public_changes_def)
    with meth ms public(1) have "serves p r" by (auto simp: serves_def rec)
    with public(2) show ?thesis by (auto simp: may_change_def list_ex_iff)
  next
    case (admin p h)
    with run have "RequireRole ?m [RoleAdmin] h ?r1 c = (res, c1)" by (simp add: rec)
    from RequireRole_changed [OF this changed] show ?thesis by (auto simp: may_change_def b)
  next
    case (self_reading h p)
    with run have "RequireSelfOrRole ?m (PathInt64Param ''id'') [RoleAdmin] h ?r1 c = (res, c1)" by (simp add: rec)
    from RequireSelfOrRole_changed [OF this changed] changed frameD [OF self_reading(2)] show ?thesis
      by (auto simp: may_change_def b)
  next
    case self_update
    let ?h = "Handler_UpdateUser (app_userHandler (Run_app L cfg sd))"
    from self_update run have "RequireSelfOrRole ?m (PathInt64Param ''id'') [RoleAdmin] ?h ?r1 c = (res, c1)"
      by (simp add: rec)
    from RequireSelfOrRole_changed [OF this changed] obtain prin
      where p: "bearer ?m r (clock (conn_world c)) = Some prin"
        and or: "Principal_Role prin = RoleAdmin \<or>
          PathInt64Param ''id'' (as_bearer ?r1 prin) = Inr (Principal_UserID prin) \<and>
          ?h (as_bearer ?r1 prin) c = (res, c1)" by (auto simp: b)
    have "serves ''PUT /users/{id}'' r"
      using meth ms pattern_methods(5) self_update by (auto simp: serves_def rec)
    moreover have "without_row (Principal_UserID prin) (db (conn_world c1)) =
        without_row (Principal_UserID prin) (db (conn_world c))"
      if i: "PathInt64Param ''id'' (as_bearer ?r1 prin) = Inr (Principal_UserID prin)"
        and h: "?h (as_bearer ?r1 prin) c = (res, c1)"
    proof -
      have "frame (\<lambda>c. without_row (Principal_UserID prin) (db (conn_world c))) (?h (as_bearer ?r1 prin))"
        unfolding Run_app_def app.select_convs by (rule Handler_UpdateUser_row) (rule self_id [OF i])
      from frameD [OF this h] show ?thesis .
    qed
    ultimately show ?thesis using p or by (auto simp: may_change_def)
  qed
qed


lemma may_change_WithContext [simp]: "may_change (WithContext r ctx) = may_change r"
  by (simp add: may_change_def serves_def WithContext_def fun_eq_iff cong: option.case_cong)

text \<open>
  C2: Authorization over HTTP. Whatever the request, the faults of the services and the tokens
  are: when serving it changed a table, the request was for one of the four public operations of
  the sessions (register, login, refresh, logout), or it carried a token that the manager accepts
  at that time, and the token's role is ADMIN, or the request was an update of the user the
  token names and no other row of any table changed.
\<close>

theorem http_changes_authorized:
  assumes "reading_libs L" and "c' = snd (app_handler (Run_app L cfg shuttingDown) r c)"
    and "db (conn_world c') \<noteq> db (conn_world c)"
  shows "may_change r (bearer (app_auth_middleware L cfg) r (clock (conn_world c)))
    (db (conn_world c)) (db (conn_world c'))"
proof -
  let ?a = "Run_app L cfg shuttingDown"
  have "app_chain (app_CORS ?a) (app_mux ?a) r c = (fst (app_handler ?a r c), c')"
    using assms(2) by (simp add: app_handler_def)
  from app_chain_tables [OF this] assms(3) obtain ctx c0 p c1
    where mux: "app_mux ?a (WithContext r ctx) c0 = (p, c1)"
      and eqs: "db (conn_world c0) = db (conn_world c)" "clock (conn_world c0) = clock (conn_world c)"
        "db (conn_world c') = db (conn_world c1)" by auto
  from mux [unfolded app_mux_def] show ?thesis
  proof (cases rule: ServeHTTP_cases)
    case none
    with eqs assms(3) show ?thesis by simp
  next
    case (route rt ms)
    let ?c0 = "c0\<lparr>conn_pattern := route_pattern rt\<rparr>"
    have g: "route_group L cfg shuttingDown rt"
      using app_routes_grouped [of L cfg shuttingDown] route(1) by (simp add: list_all_iff)
    have "may_change (WithContext r ctx)
        (bearer (app_auth_middleware L cfg) (WithContext r ctx) (clock (conn_world ?c0)))
        (db (conn_world ?c0)) (db (conn_world c1))"
      by (rule route_changes [OF assms(1) g route(2-4)]) (use eqs assms(3) in auto)
    moreover have "bearer (app_auth_middleware L cfg) (WithContext r ctx) now =
        bearer (app_auth_middleware L cfg) r now" for now
      by (rule bearer_header) (simp add: WithContext_def)
    ultimately show ?thesis using eqs by simp
  qed
qed


section \<open>A request against a concrete application\<close>

definition sample_admin_claims :: Claims where
  "sample_admin_claims = sample_auth_claims\<lparr>Claims_UserID := 9, Claims_Role := RoleAdmin\<rparr>"

definition sample_libs :: libs where
  "sample_libs =
     \<lparr>lib_pg = sample_pg, lib_auth = sample_env\<lparr>env_jwt := sample_jwt sample_admin_claims\<rparr>,
      lib_user = \<lparr>uenv_lower = (\<lambda>t. t), uenv_bcrypt = sample_bcrypt, uenv_marshal = (\<lambda>_. Inr ''payload''),
                  uenv_ParseAddress = (\<lambda>m. CHR ''@'' \<in> set m)\<rparr>,
      lib_pr = (\<lambda>_. True), lib_validator = sample_validator (\<lambda>m. CHR ''@'' \<in> set m),
      lib_decode_text = (\<lambda>_. ''''), lib_metrics_handler = (\<lambda>r. Write (RawDoc '''')),
      lib_ping_db = ret (), lib_ping_redis = ret (), lib_ping_kafka = ret (),
      lib_redirect = \<lparr>redirect_status = 301, redirect_location = (\<lambda>p q. p), redirect_body = (\<lambda>p. p)\<rparr>\<rparr>"

definition sample_settings :: Config where
  "sample_settings = default_config
     \<lparr>Config_App := (Config_App default_config)\<lparr>AppConfig_Name := ''identity''\<rparr>,
      Config_Auth := (Config_Auth default_config)\<lparr>AuthConfig_JWTSecret := ''secret''\<rparr>\<rparr>"

definition sample_delete :: request where
  "sample_delete =
     \<lparr>Req_Method = ''DELETE'', Req_Path = ''/users/1'', Req_RawQuery = '''', Req_Query = [],
      Req_Header = [(''Authorization'', ''Bearer header.claims.mac'')],
      Req_RemoteAddr = ''10.0.0.1:5000'', Req_Body = \<lparr>body_items = [], body_length = 0\<rparr>,
      Req_PathValues = [], Req_Context = background\<rparr>"

definition sample_conn :: "string \<Rightarrow> world \<Rightarrow> conn" where
  "sample_conn meth w =
     \<lparr>conn_world = w, conn_method = meth, conn_status = None, conn_header = (\<lambda>_. None),
      conn_sent = (\<lambda>_. None), conn_body = [], conn_writers = [], conn_pattern = '''', conn_log = []\<rparr>"

lemma sample_libs_reading: "reading_libs sample_libs"
  by (simp add: reading_libs_def sample_libs_def Write_world [THEN frame_view])

lemma sample_patterns:
  "match_path ''DELETE /users/{id}'' ''/users/1'' = Some [(''id'', ''1'')]"
  "cleanPath ''/users/1'' = ''/users/1''" "ParseInt ''1'' = Some 1"
  by code_simp+

lemma sample_methods:
  "pattern_method ''GET /metrics'' = ''GET''" "pattern_method ''GET /ready'' = ''GET''"
  "pattern_method ''GET /health'' = ''GET''" "pattern_method ''GET /ping'' = ''GET''"
  "pattern_method ''GET /info'' = ''GET''" "pattern_method ''GET /version'' = ''GET''"
  "pattern_method ''GET /panic'' = ''GET''" "pattern_method ''GET /auth/me'' = ''GET''"
  "pattern_method ''GET /users'' = ''GET''" "pattern_method ''GET /users/by-email/{email}'' = ''GET''"
  "pattern_method ''GET /users/{id}'' = ''GET''" "pattern_method ''POST /users'' = ''POST''"
  "pattern_method ''POST /users/with-profile'' = ''POST''"
  "pattern_method ''DELETE /users/{id}'' = ''DELETE''"
  by code_simp+

lemma sample_route:
  "find_route (app_routes a) ''DELETE'' ''/users/1'' = Some (route_to ''DELETE /users/{id}''
     (RequireRole (app_authMiddleware a) [RoleAdmin] (Handler_DeleteUser (app_userHandler a))))"
  by (simp add: find_route_def app_routes_def initHealthModule_def auth_RegisterRoutes_def
      initUserModule_def user_RegisterRoutes_def route_to_def pattern_methods sample_methods sample_patterns)

lemma sample_deleted:
  assumes "users (db w) = [sample_user]" "plan w = []"
  shows "users (db (snd (DeleteUser (app_user pg hasher env timeout errText ttl) 1 w))) = []"
  using assms
  by (simp add: DeleteUser_def user_NewPostgresRepository_def user_PostgresRepository_Delete_def andThen_def
        mapErr_def sql_empty delete_users_def ret_def invalidate_def attempt_def Cache_DeleteUser_ok)
      (simp add: sample_user_def ret_def attempt_def redis_store_def split: prod.splits)

lemma sample_parse:
  "TokenManager_Parse (sample_jwt sample_admin_claims) (app_tokens sample_settings) ''header.claims.mac'' 0 =
      Inr sample_admin_claims"
  by (simp add: TokenManager_Parse_def sample_jwt_def app_tokens_def token_key_def NewTokenManager_def
      sample_settings_def sample_admin_claims_def sample_auth_claims_def)

lemma sample_bearer:
  assumes "Req_Header r = Req_Header sample_delete"
  shows "bearer (app_auth_middleware sample_libs sample_settings) r 0 =
     Some \<lparr>Principal_UserID = 9, Principal_Email = ''a@b.c'', Principal_Role = RoleAdmin\<rparr>"
proof -
  let ?h = "''Bearer header.claims.mac''"
  have h: "Header_Get r ''Authorization'' = ?h" unfolding Header_Get_def assms by code_simp
  have t: "TrimSpace ?h = ?h" "TrimSpace (TrimPrefix ?h ''Bearer '') = ''header.claims.mac''"
    "HasPrefix ?h ''Bearer ''" by code_simp+
  show ?thesis
    by (simp add: bearer_def h t app_auth_middleware_def NewMiddleWare_def sample_libs_def sample_parse)
      (simp add: sample_admin_claims_def sample_auth_claims_def)
qed

lemma handled_world:
  assumes "handled m k c = (p, c1)" and "\<And>a. frame conn_world (k a)"
  shows "conn_world c1 = snd (m (conn_world c))"
proof (cases "m (conn_world c)")
  case (Pair res w)
  with assms(1) show ?thesis
    by (cases res) (auto simp: handled_def andThen_def call_def
        dest!: frameD [OF HandleError_world] frameD [OF assms(2)])
qed

lemma sample_run:
  "users (db (conn_world (snd (app_handler (Run_app sample_libs sample_settings False) sample_delete
     (sample_conn ''DELETE'' sample_member))))) = []"
proof -
  let ?a = "Run_app sample_libs sample_settings False"
  obtain res c' where run: "app_handler ?a sample_delete (sample_conn ''DELETE'' sample_member) = (res, c')"
    by (rule prod.exhaust)
  then have "app_chain (app_CORS ?a) (app_mux ?a) sample_delete (sample_conn ''DELETE'' sample_member) = (res, c')"
    by (simp add: app_handler_def)
  moreover have "Req_Method sample_delete \<noteq> ''OPTIONS''" by (simp add: sample_delete_def)
  ultimately obtain ctx c0 p c1 where m: "app_mux ?a (WithContext sample_delete ctx) c0 = (p, c1)"
    and c0: "db (conn_world c0) = db sample_member" "clock (conn_world c0) = 0" "plan (conn_world c0) = []"
      "db (conn_world c') = db (conn_world c1)"
    by (rule app_chain_reaches) (simp add: sample_conn_def)
  let ?r = "(WithContext sample_delete ctx)\<lparr>Req_PathValues := [(''id'', ''1'')]\<rparr>"
  let ?c = "c0\<lparr>conn_pattern := ''DELETE /users/{id}''\<rparr>"
  have "RequireRole (app_auth_middleware sample_libs sample_settings) [RoleAdmin]
      (Handler_DeleteUser (app_userHandler ?a)) ?r ?c = (p, c1)"
    using m by (simp add: app_mux_def ServeHTTP_def sample_delete_def WithContext_def sample_patterns
        sample_route set_pattern_def andThen_def modify_def route_to_def Run_app_def)
  then have "Handler_DeleteUser (app_userHandler ?a) (as_bearer ?r
      \<lparr>Principal_UserID = 9, Principal_Email = ''a@b.c'', Principal_Role = RoleAdmin\<rparr>) ?c = (p, c1)"
    by (simp add: RequireRole_bearer sample_bearer WithContext_def c0)
  moreover have "parseId (as_bearer ?r q) = ret (Some 1)" for q
    by (simp add: parseId_def PathValue_def first_value_def as_bearer_def WithContext_def sample_patterns)
  ultimately have h: "handled (DeleteUser (app_user_service sample_libs sample_settings) 1) (\<lambda>_. JSON 204 None) ?c = (p, c1)"
    by (simp add: Handler_DeleteUser_def when_ok_def andThen_def ret_def Run_app_def user_NewHandler_def)
  have "conn_world c1 = snd (DeleteUser (app_user_service sample_libs sample_settings) 1 (conn_world c0))"
    using handled_world [OF h JSON_world] by simp
  with c0 sample_deleted [of "conn_world c0"]
  have "users (db (conn_world c')) = []" by (simp add: app_user_service_def)
  with run show ?thesis by simp
qed

theorem http_changes_authorized_witness:
  "may_change sample_delete
     (Some \<lparr>Principal_UserID = 9, Principal_Email = ''a@b.c'', Principal_Role = RoleAdmin\<rparr>) (db sample_member)
     (db (conn_world (snd (app_handler (Run_app sample_libs sample_settings False) sample_delete
        (sample_conn ''DELETE'' sample_member)))))"
proof -
  have "db (conn_world (snd (app_handler (Run_app sample_libs sample_settings False) sample_delete
      (sample_conn ''DELETE'' sample_member)))) \<noteq> db (conn_world (sample_conn ''DELETE'' sample_member))"
  proof
    assume "db (conn_world (snd (app_handler (Run_app sample_libs sample_settings False) sample_delete
      (sample_conn ''DELETE'' sample_member)))) = db (conn_world (sample_conn ''DELETE'' sample_member))"
    with sample_run show False by (simp add: sample_conn_def)
  qed
  from http_changes_authorized [OF sample_libs_reading refl this] show ?thesis
    by (simp add: sample_bearer sample_conn_def)
qed

end
