(* ===== verification/Counting.thy ===== *)
theory Counting
  imports Authorization
begin

text \<open>
  Who counts what. The services count hits and misses of the cache and nothing else, so every
  other counter, of requests and of calls, is moved by the middleware and the interceptor only.
\<close>

definition counts_of :: "string \<Rightarrow> world \<Rightarrow> string list \<Rightarrow> nat" where
  "counts_of n w ls = counters w (n, ls)"

text \<open>A counter that is not one of the cache.\<close>

definition uncached :: "string \<Rightarrow> bool" where
  "uncached n \<longleftrightarrow> n \<noteq> ''redis_cache_hits_total'' \<and> n \<noteq> ''redis_cache_misses_total''"

lemma uncached_totals [simp]: "uncached ''http_requests_total''" "uncached ''grpc_requests_total''"
  by (simp_all add: uncached_def)

text \<open>With it, what else the services leave to the worker and the consumer: the topic and its offsets.\<close>

definition apart :: "string \<Rightarrow> world \<Rightarrow> (string list \<Rightarrow> nat) \<times> KafkaRecord list \<times> (string \<times> int \<Rightarrow> int option)" where
  "apart n w = (counts_of n w, topic_log w, committed w)"

lemma apart_counts: "frame (apart n) m \<Longrightarrow> frame (counts_of n) m"
  by (simp add: frame_def apart_def)

lemma apart_topic: "frame (apart n) m \<Longrightarrow> frame topic_log m"
  by (simp add: frame_def apart_def)

lemma apart_update [simp]:
  "apart n (w\<lparr>clock := cl, plan := p\<rparr>) = apart n w" "apart n (w\<lparr>tx := t\<rparr>) = apart n w"
  "apart n (w\<lparr>db := d\<rparr>) = apart n w"
  by (simp_all add: apart_def counts_of_def fun_eq_iff)

lemma db_only_apart: "db_only m \<Longrightarrow> frame (apart n) m"
  using db_only_frames [of m] by (simp add: frame_def apart_def counts_of_def fun_eq_iff)

lemma redis_only_apart: "redis_only m \<Longrightarrow> frame (apart n) m"
  by (simp add: redis_only_def redis_step_def frame_def apart_def counts_of_def fun_eq_iff)

lemma count_other: "n' \<noteq> n \<Longrightarrow> frame (apart n) (metric_inc n' ls)"
  by (rule frameI) (simp add: metric_inc_def modify_def apart_def counts_of_def fun_eq_iff)

lemma count_inc:
  "counts_of n (snd (metric_inc n ls w)) = (counts_of n w)(ls := counts_of n w ls + 1)"
  by (simp add: metric_inc_def modify_def counts_of_def fun_eq_iff)

lemma run_tx_apart: "frame (apart n) body \<Longrightarrow> frame (apart n) (run_tx b c r body)"
proof -
  have next_c: "apart n (snd (next_outcome w)) = apart n w" for w
    using next_outcome_form [of w] by auto
  have "frame (apart n) pg_Begin" "frame (apart n) pg_Commit" "frame (apart n) pg_Rollback"
    using next_c
    by (auto simp: frame_def pg_Begin_def pg_Commit_def pg_Rollback_def abort_tx_def
        split: prod.split fault.split option.split) (metis snd_conv)+
  then show "frame (apart n) body \<Longrightarrow> frame (apart n) (run_tx b c r body)"
    unfolding run_tx_def by (intro frame_intros)
qed

lemma app_cache_apart:
  assumes "uncached n"
  shows "frame (apart n) (Cache_GetUser (app_cache timeout errText) i)"
    "frame (apart n) (Cache_SetUser (app_cache timeout errText) u ttl)"
    "frame (apart n) (Cache_DeleteUser (app_cache timeout errText) i)"
proof -
  let ?c = "NewRedisCache ''identity'' timeout errText"
  note k = redis_commands_only [THEN redis_only_apart]
  have c: "frame (apart n) (RedisCache_GetUser ?c i)" "frame (apart n) (RedisCache_SetUser ?c u ttl)"
    "frame (apart n) (RedisCache_DeleteUser ?c i)"
    unfolding RedisCache_GetUser_def RedisCache_SetUser_def RedisCache_DeleteUser_def
    by (intro frame_intros k, cases "cachedUser_marshal (cachedUserFromDomain u)") (auto intro!: frame_intros k)
  have m: "frame (apart n) (metric_inc ''redis_cache_hits_total'' ls)"
    "frame (apart n) (metric_inc ''redis_cache_misses_total'' ls)" for ls
    using assms by (auto simp: uncached_def intro!: count_other)
  show "frame (apart n) (Cache_GetUser (app_cache timeout errText) i)"
    unfolding app_cache_def NewObservedCache_def Cache.simps ObservedCache_GetUser_def redis_cache_def
      metrics_CacheObserver_def CacheObserver.simps
    by (intro frame_intros c m)
  show "frame (apart n) (Cache_SetUser (app_cache timeout errText) u ttl)"
    "frame (apart n) (Cache_DeleteUser (app_cache timeout errText) i)"
    unfolding app_cache_def NewObservedCache_def Cache.simps redis_cache_def by (rule c)+
qed

lemma limiter_apart: "frame (apart n) (RateLimiter_Allow (redis_limiter l) k lim win)"
proof -
  have r: "frame (apart n) (redis_INCR k)" "frame (apart n) (redis_PEXPIRE k t)" for k t
    by (auto simp: frame_def redis_INCR_def redis_PEXPIRE_def redis_store_def apart_def counts_of_def fun_eq_iff
        split: option.split redis_value.split)
  show ?thesis
    unfolding redis_limiter_def RateLimiter.simps RedisLimiter_Allow_def Let_def incrAndExpireScript_def
    by (intro frame_intros r) auto
qed

section \<open>The services\<close>

lemma auth_apart:
  assumes s: "s = pg_auth pg hasher tokens ttl env"
  shows "frame (apart n) (auth_Register s rr)" "frame (apart n) (auth_Login s lr)"
    "frame (apart n) (auth_Me s i)" "frame (apart n) (auth_Refresh s fr)" "frame (apart n) (auth_Logout s lo)"
proof -
  have tx: "frame (apart n) (auth_WithinTx pg fn)" if "\<And>stores. stores = pgauth.stores pg \<Longrightarrow> db_only (fn stores)" for fn
    using that unfolding auth_WithinTx_def Let_def by (intro run_tx_apart db_only_apart) simp
  show "frame (apart n) (auth_Register s rr)"
    unfolding auth_Register_def Let_def s pg_auth_simps
    by (intro frame_andThen db_only_apart [OF Hash_only(1)] tx) (simp add: pgauth.register_tx_only)
  show "frame (apart n) (auth_Refresh s fr)"
    unfolding auth_Refresh_def Let_def s pg_auth_simps by (intro tx) (simp add: pgauth.refresh_tx_only)
  show "frame (apart n) (auth_Me s i)" "frame (apart n) (auth_Logout s lo)" "frame (apart n) (auth_Login s lr)"
    unfolding auth_Me_def auth_Logout_def auth_Login_def issueTokenPair_def Let_def s pg_auth_simps
    by (rule db_only_apart, intro db_only_intros pg_users.only_db pg_tokens.token_only_db pgauth.issue_only)+
qed

lemma user_apart:
  assumes "uncached n" and s: "s = app_user pg hasher env timeout errText ttl"
  shows "frame (apart n) (CreateUser s cu)" "frame (apart n) (CreateUserWithProfile s cp)"
    "frame (apart n) (GetUser s i)" "frame (apart n) (ListUsers s li)" "frame (apart n) (UpdateUser s i uu)"
    "frame (apart n) (DeleteUser s i)" "frame (apart n) (GetUserByEmail s m)"
proof -
  note w = s pg_user_simps option.case
  note c = app_cache_apart [OF assms(1)]
  note h = Hash_only(1) [THEN db_only_apart]
  note r = pg_users.only_db [THEN db_only_apart]
  have v: "frame (apart n) (validateUserInput p nm em a)" for p nm em a
    unfolding validateUserInput_def Let_def by (intro frame_intros)
  have inv: "frame (apart n) (invalidate s i a)" for a :: 'x
    unfolding invalidate_def w by (intro frame_intros c)
  have tx: "frame (apart n) (user_WithinTx pg fn)" if "\<And>stores. stores = \<lparr>TxStores_UserRepo = user_NewPostgresRepository pg,
       TxStores_OutBoxStore = outbox_NewPostgresRepository\<rparr> \<Longrightarrow> db_only (fn stores)" for fn
    using that unfolding user_WithinTx_def user_run_def Let_def by (intro run_tx_apart db_only_apart) simp
  show "frame (apart n) (CreateUser s cu)" "frame (apart n) (CreateUserWithProfile s cp)"
    unfolding CreateUser_def CreateUserWithProfile_def Let_def w
    by (intro frame_intros v h tx; simp add: pguser.create_user_tx_only pguser.with_profile_tx_only)+
  show "frame (apart n) (GetUser s i)" "frame (apart n) (ListUsers s li)" "frame (apart n) (GetUserByEmail s m)"
    unfolding GetUser_def ListUsers_def GetUserByEmail_def Let_def w by (intro frame_intros r c)+
  show "frame (apart n) (UpdateUser s i uu)" "frame (apart n) (DeleteUser s i)"
    unfolding UpdateUser_def DeleteUser_def Let_def w by (intro frame_intros r v inv [unfolded w])+
qed

lemmas limiter_counts = limiter_apart [THEN apart_counts]
lemmas auth_counts = auth_apart [THEN apart_counts]
lemmas user_counts = user_apart [THEN apart_counts]

end
