(* ===== verification/Answers.thy ===== *)
theory Answers
  imports Counting
begin

text \<open>
  Every request is answered. The errors of the services are ones whose status can be sent, so the
  handlers, the mux and the middlewares keep the response writers in step and the whole chain
  answers each request once, counts it, and turns a panic into status 500.
\<close>

section \<open>Errors that can be sent\<close>

named_theorems known_intros "rules by which a program's errors have known statuses"

lemma known_errorsI: "(\<And>w err w'. m w = (Inl err, w') \<Longrightarrow> status_known err) \<Longrightarrow> known_errors m"
  by (simp add: known_errors_def)

lemma known_errorsD: "known_errors m \<Longrightarrow> m w = (Inl err, w') \<Longrightarrow> status_known err"
  by (auto simp: known_errors_def)

lemma known_ret [known_intros]: "known_errors (ret a)"
  by (simp add: known_errors_def ret_def)

lemma known_throw [known_intros]: "status_known e \<Longrightarrow> known_errors (throw e)"
  by (simp add: known_errors_def throw_def)

lemma known_andThen [known_intros]:
  "known_errors m \<Longrightarrow> (\<And>a. known_errors (k a)) \<Longrightarrow> known_errors (andThen m k)"
  unfolding known_errors_def andThen_def by (auto split: prod.splits sum.splits)

lemma known_mapErr [known_intros]:
  "known_errors m \<Longrightarrow> (\<And>e. status_known e \<Longrightarrow> status_known (g e)) \<Longrightarrow> known_errors (mapErr g m)"
  unfolding known_errors_def mapErr_def by (auto split: prod.splits sum.splits)

lemma known_attempt [known_intros]:
  "known_errors m \<Longrightarrow> (\<And>a. known_errors (k (Inr a))) \<Longrightarrow> (\<And>e. status_known e \<Longrightarrow> known_errors (k (Inl e))) \<Longrightarrow>
     known_errors (attempt m k)"
  unfolding known_errors_def attempt_def by (auto split: prod.splits) (metis sum.exhaust)

lemma known_if [known_intros]:
  "(b \<Longrightarrow> known_errors m) \<Longrightarrow> (\<not> b \<Longrightarrow> known_errors n) \<Longrightarrow> known_errors (if b then m else n)"
  by simp

lemma known_option [known_intros]:
  "known_errors m \<Longrightarrow> (\<And>a. x = Some a \<Longrightarrow> known_errors (k a)) \<Longrightarrow>
     known_errors (case x of None \<Rightarrow> m | Some a \<Rightarrow> k a)"
  by (cases x) auto

lemma known_sum [known_intros]:
  "(\<And>e. x = Inl e \<Longrightarrow> known_errors (f e)) \<Longrightarrow> (\<And>a. x = Inr a \<Longrightarrow> known_errors (g a)) \<Longrightarrow>
     known_errors (case x of Inl e \<Rightarrow> f e | Inr a \<Rightarrow> g a)"
  by (cases x) auto

lemma known_prod [known_intros]:
  "(\<And>a b. known_errors (f a b)) \<Longrightarrow> known_errors (case p of (a, b) \<Rightarrow> f a b)"
  by (cases p) auto

lemma known_state: "(\<And>x. known_errors (m x)) \<Longrightarrow> known_errors (\<lambda>w. m (f w) w)"
  by (simp add: known_errors_def)

lemma known_external [known_intros]: "known_errors f \<Longrightarrow> known_errors (external f)"
  by (rule known_errorsI) (erule external_cases, auto dest: known_errorsD)

lemma known_sql [known_intros]: "known_errors f \<Longrightarrow> known_errors (sql ps f)"
  unfolding sql_def
  by (intro known_external) (auto simp: known_errors_def bad_text_error_def split: if_splits)

lemma status_known_wrapf [simp]: "status_known (wrapf p e) = status_known e"
  by (simp add: wrapf_def)

lemma status_known_public [simp]:
  "status_known NewUserNotFoundError" "status_known NewEmailAlreadyExistsError" "status_known NewInvalidUserIDError"
  "status_known NewUnauthorizedError" "status_known NewInvalidCredentialsError"
  "status_known (NewFieldValidationError fs)" "status_known (unique_violation n)" "status_known (check_violation n)"
  "status_known (foreign_key_violation n)"
  by (simp_all add: public_error_defs answer_status_def NewFieldValidationError_def unique_violation_def
      check_violation_def foreign_key_violation_def)

lemma known_run_tx [known_intros]:
  assumes "known_errors body" and "\<And>e. status_known e \<Longrightarrow> status_known (b e)"
    and "\<And>e. status_known e \<Longrightarrow> status_known (c e)" and "\<And>rb e. status_known e \<Longrightarrow> status_known (r rb e)"
  shows "known_errors (run_tx b c r body)"
proof -
  have "known_errors pg_Begin" "known_errors pg_Commit"
    by (auto simp: known_errors_def pg_Begin_def pg_Commit_def split: prod.splits fault.splits)
  note tx = this [THEN known_mapErr]
  have rb: "known_errors (attempt pg_Rollback (\<lambda>rb. throw (r rb e)))" if "status_known e" for e
    using assms(4) [OF that] by (auto simp: known_errors_def attempt_def throw_def split: prod.splits)
  show ?thesis
    unfolding run_tx_def
    by (intro known_andThen known_attempt tx assms) (auto intro!: known_andThen known_ret tx assms rb)
qed


section \<open>The errors of the services\<close>

lemma known_statements:
  "known_errors (insert_users n m a h ro)" "known_errors (select_user p)" "known_errors (update_users n m a i)"
  "known_errors (delete_users i)" "known_errors (insert_user_profiles i b)" "known_errors (count_users pg m)"
  "known_errors (select_users_page pg m ord lim off)" "known_errors (select_exists_email m)"
  "known_errors (insert_refresh_tokens t)" "known_errors (select_refresh_token h)"
  "known_errors (revoke_refresh_token i)" "known_errors (insert_outbox_events ev)"
  unfolding insert_users_def select_user_def update_users_def delete_users_def insert_user_profiles_def
    count_users_def select_users_page_def select_exists_email_def insert_refresh_tokens_def
    select_refresh_token_def revoke_refresh_token_def insert_outbox_events_def Let_def known_errors_def
  by (auto split: option.splits if_splits)

lemma known_repository:
  "known_errors (Repository_Create (user_NewPostgresRepository pg) u)"
  "known_errors (Repository_FindByID (user_NewPostgresRepository pg) i)"
  "known_errors (Repository_List (user_NewPostgresRepository pg) f)"
  "known_errors (Repository_Update (user_NewPostgresRepository pg) u)"
  "known_errors (Repository_Delete (user_NewPostgresRepository pg) i)"
  "known_errors (Repository_ExistsByEmail (user_NewPostgresRepository pg) m)"
  "known_errors (Repository_FindByEmail (user_NewPostgresRepository pg) m)"
  "known_errors (Repository_CreateProfile (user_NewPostgresRepository pg) p)"
  unfolding user_NewPostgresRepository_def Repository.simps user_method_defs Let_def
  by (intro known_intros known_statements; simp)+

lemma known_stores:
  "known_errors (RefreshTokenStore_CreateRefreshToken NewRefreshTokenRepository t)"
  "known_errors (RefreshTokenStore_FindRefreshTokenByHash NewRefreshTokenRepository h)"
  "known_errors (RefreshTokenStore_RevokeRefreshToken NewRefreshTokenRepository i)"
  "known_errors (Store_Create outbox_NewPostgresRepository ev)"
  unfolding NewRefreshTokenRepository_def RefreshTokenStore.simps outbox_NewPostgresRepository_def Store.simps
    RefreshTokenRepository_CreateRefreshToken_def RefreshTokenRepository_FindRefreshTokenByHash_def
    RefreshTokenRepository_RevokeRefreshToken_def outbox_PostgresRepository_Create_def
  by (intro known_intros known_statements; simp)+

lemma known_rand [known_intros]: "known_errors (rand_Read n)"
  by (auto simp: known_errors_def rand_Read_def split: list.splits sum.splits)

text \<open>
  The errors of the libraries are not errors of the package apperror, which is internal to the
  program; stated as what is needed here.
\<close>

definition bcrypt_errors :: "bcrypt_lib \<Rightarrow> bool" where
  "bcrypt_errors B \<longleftrightarrow> (\<forall>salt pw cost err. bcrypt_GenerateFromPassword B salt pw cost = Inl err \<longrightarrow> status_known err)"

definition marshal_errors :: "(UserRegistered \<Rightarrow> go_error + string) \<Rightarrow> bool" where
  "marshal_errors m \<longleftrightarrow> (\<forall>u err. m u = Inl err \<longrightarrow> status_known err)"

definition jwt_errors :: "jwt_lib \<Rightarrow> bool" where
  "jwt_errors J \<longleftrightarrow> (\<forall>alg c key err. jwt_SignedString J alg c key = Inl err \<longrightarrow> status_known err)"

lemma known_Hash [known_intros]: "bcrypt_errors B \<Longrightarrow> known_errors (PasswordHasher_Hash B h pw)"
  unfolding PasswordHasher_Hash_def by (intro known_intros) (auto simp: bcrypt_errors_def)

lemma known_issue:
  assumes "jwt_errors (env_jwt (auth_lib s))"
  shows "known_errors (issueTokenPairWithStore s NewRefreshTokenRepository u)"
proof -
  have "known_errors (TokenManager_Generate (env_jwt (auth_lib s)) m i e ro)" for m i e ro
    using assms by (auto simp: known_errors_def TokenManager_Generate_def Let_def throw_def ret_def jwt_errors_def
        split: sum.splits)
  moreover have "known_errors (RefreshTokenManager_Generate h)" for h
    unfolding RefreshTokenManager_Generate_def Let_def by (intro known_intros; simp)
  moreover have "known_errors (\<lambda>w. RefreshTokenStore_CreateRefreshToken NewRefreshTokenRepository (f w) w)" for f
    by (rule known_state [OF known_stores(1)])
  ultimately show ?thesis unfolding issueTokenPairWithStore_def by (intro known_intros)
qed

definition env_errors :: "auth_env \<Rightarrow> bool" where
  "env_errors env \<longleftrightarrow> bcrypt_errors (env_bcrypt env) \<and> marshal_errors (env_marshal env) \<and> jwt_errors (env_jwt env)"

definition uenv_errors :: "user_env \<Rightarrow> bool" where
  "uenv_errors env \<longleftrightarrow> bcrypt_errors (uenv_bcrypt env) \<and> marshal_errors (uenv_marshal env)"

lemma known_marshal:
  "marshal_errors m \<Longrightarrow> MarshalUserRegistered m i e ro = Inl err \<Longrightarrow> status_known err"
  by (auto simp: MarshalUserRegistered_def marshal_errors_def split: sum.splits)

lemma known_factory [known_intros]:
  "(\<And>stores. stores = \<lparr>TxStores_UserStore = user_NewPostgresRepository pg,
       TxStores_RefreshTokenStore = NewRefreshTokenRepository, TxStores_OutboxStore = outbox_NewPostgresRepository\<rparr> \<Longrightarrow>
     known_errors (fn stores)) \<Longrightarrow> known_errors (auth_WithinTx pg fn)"
  "(\<And>stores. stores = \<lparr>TxStores_UserRepo = user_NewPostgresRepository pg,
       TxStores_OutBoxStore = outbox_NewPostgresRepository\<rparr> \<Longrightarrow>
     known_errors (fnu stores)) \<Longrightarrow> known_errors (user_WithinTx pg fnu)"
  unfolding auth_WithinTx_def user_WithinTx_def user_run_def Let_def by (intro known_intros; simp)+

abbreviation auth_stores_of :: "pg_locale \<Rightarrow> TxStores" where
  "auth_stores_of pg \<equiv> \<lparr>TxStores_UserStore = user_NewPostgresRepository pg,
     TxStores_RefreshTokenStore = NewRefreshTokenRepository, TxStores_OutboxStore = outbox_NewPostgresRepository\<rparr>"

lemma known_register_tx:
  assumes "env_errors (auth_lib s)"
  shows "known_errors (register_tx s name email age h (auth_stores_of pg))"
proof -
  note lib = assms(1) [unfolded env_errors_def]
  have j: "known_errors (issueTokenPairWithStore s NewRefreshTokenRepository u)" for u
    using lib by (intro known_issue) simp
  have m: "known_errors (case MarshalUserRegistered (env_marshal (auth_lib s)) i e ro of
      Inl err \<Rightarrow> throw err | Inr payload \<Rightarrow> k payload)" if "\<And>payload. known_errors (k payload)" for i e ro k
    using that lib known_marshal by (intro known_sum known_throw) blast
  show ?thesis
    unfolding register_tx_def TxStores.simps
    by (intro known_andThen known_if known_prod known_mapErr known_throw known_ret m j known_repository known_stores)
      simp_all
qed

lemma known_refresh_tx:
  assumes "env_errors (auth_lib s)"
  shows "known_errors (refresh_tx s h (auth_stores_of pg))"
proof -
  have j: "known_errors (issueTokenPairWithStore s NewRefreshTokenRepository u)" for u
    using assms by (intro known_issue) (simp add: env_errors_def)
  have st: "(\<And>x. known_errors (if b x then m else k)) \<Longrightarrow> known_errors (\<lambda>w. if b (clock w) then m w else k w)"
    for b and m k :: "AuthResponse prog"
    by (auto simp: known_errors_def split: if_splits) metis+
  show ?thesis
    unfolding refresh_tx_def TxStores.simps
    by (intro known_andThen known_mapErr known_stores st known_if known_throw known_repository j known_prod known_ret)
      simp_all
qed

lemma known_auth:
  assumes "env_errors env" and s: "s = pg_auth pg hasher tokens ttl env"
  shows "known_errors (auth_Register s rr)" "known_errors (auth_Login s lr)" "known_errors (auth_Me s i)"
    "known_errors (auth_Refresh s fr)" "known_errors (auth_Logout s lo)"
proof -
  note w = s pg_auth_simps
  have lib: "env_errors (auth_lib s)" using assms by simp
  have j: "known_errors (issueTokenPairWithStore s NewRefreshTokenRepository u)" for u
    using lib by (intro known_issue) (simp add: env_errors_def)
  have tx: "known_errors (auth_txFactory s fn)" if "known_errors (fn (auth_stores_of pg))" for fn
    using that unfolding s pg_auth_simps by (intro known_factory) simp
  show "known_errors (auth_Register s rr)"
    unfolding auth_Register_def Let_def
    by (intro known_andThen known_Hash tx known_register_tx lib) (use lib in \<open>simp add: env_errors_def\<close>)
  show "known_errors (auth_Login s lr)"
    unfolding auth_Login_def Let_def issueTokenPair_def s pg_auth_simps
    by (intro known_attempt known_repository) (auto intro!: known_intros j [unfolded s])
  show "known_errors (auth_Me s i)"
    unfolding auth_Me_def w by (intro known_intros known_repository; simp)
  show "known_errors (auth_Refresh s fr)"
    unfolding auth_Refresh_def Let_def by (intro tx known_refresh_tx lib)
  show "known_errors (auth_Logout s lo)"
    unfolding auth_Logout_def Let_def w
    by (intro known_attempt known_stores) (auto intro!: known_intros known_stores)
qed

abbreviation pg_user_stores :: "pg_locale \<Rightarrow> user_TxStores" where
  "pg_user_stores pg \<equiv> \<lparr>TxStores_UserRepo = user_NewPostgresRepository pg,
     TxStores_OutBoxStore = outbox_NewPostgresRepository\<rparr>"

lemma known_user_tx:
  assumes "uenv_errors env"
  shows "known_errors (create_user_tx env name email age pw (pg_user_stores pg))"
    "known_errors (with_profile_tx env name email age bio pw (pg_user_stores pg))"
proof -
  have o: "known_errors (createOutboxEvent env (pg_user_stores pg) u)" for u
    unfolding createOutboxEvent_def user_TxStores.simps
    using assms known_marshal
    by (intro known_sum known_throw known_intros known_stores) (auto simp: uenv_errors_def)
  show "known_errors (create_user_tx env name email age pw (pg_user_stores pg))"
    unfolding create_user_tx_def user_TxStores.simps
    by (intro known_andThen known_if known_mapErr known_throw known_ret o known_repository) simp_all
  show "known_errors (with_profile_tx env name email age bio pw (pg_user_stores pg))"
    unfolding with_profile_tx_def user_TxStores.simps
    by (intro known_andThen known_if known_mapErr known_throw known_ret o known_repository) simp_all
qed

lemma known_validate: "known_errors (validateUserInput p name email age)"
  unfolding validateUserInput_def Let_def by (intro known_intros) simp

lemma known_user:
  assumes "uenv_errors env" and s: "s = pg_user pg hasher env cache ttl"
  shows "known_errors (CreateUser s cu)" "known_errors (CreateUserWithProfile s cp)" "known_errors (GetUser s i)"
    "known_errors (ListUsers s li)" "known_errors (UpdateUser s i uu)" "known_errors (DeleteUser s i)"
    "known_errors (GetUserByEmail s m)"
proof -
  note w = s pg_user_simps
  have b: "bcrypt_errors (uenv_bcrypt env)" using assms(1) by (simp add: uenv_errors_def)
  have ignored: "(\<And>x. known_errors (k x)) \<Longrightarrow> known_errors (attempt m k)" for m :: "'x prog" and k :: "go_error + 'x \<Rightarrow> 'y prog"
    unfolding known_errors_def attempt_def by (auto split: prod.splits)
  have inv: "known_errors (invalidate s i a)" for a :: 'x
    unfolding invalidate_def w option.case by (intro ignored known_ret)
  show "known_errors (CreateUser s cu)"
    unfolding CreateUser_def w option.case Let_def
    by (intro known_andThen known_validate known_Hash b known_factory) (auto intro!: known_intros known_user_tx assms)
  show "known_errors (CreateUserWithProfile s cp)"
    unfolding CreateUserWithProfile_def w option.case Let_def
    by (intro known_andThen known_validate known_Hash b known_factory) (auto intro!: known_intros known_user_tx assms)
  have repo: "known_errors (andThen (mapErr (\<lambda>err. if errors_Is err ErrUserNotFound then NewUserNotFoundError
      else wrapf t err) (Repository_FindByID (user_NewPostgresRepository pg) i)) (\<lambda>user. attempt (m user) (\<lambda>_. ret user)))"
    for t m by (intro known_intros known_repository ignored) simp
  show "known_errors (GetUser s i)"
    unfolding GetUser_def w option.case Let_def
    by (intro known_if known_throw ignored known_sum known_prod known_ret repo) simp
  show "known_errors (ListUsers s li)"
    unfolding ListUsers_def w Let_def by (intro known_intros known_repository) simp
  show "known_errors (UpdateUser s i uu)"
    unfolding UpdateUser_def w option.case Let_def
    by (intro known_if known_throw known_andThen known_validate known_mapErr known_repository known_ret inv [unfolded w]) simp_all
  show "known_errors (DeleteUser s i)"
    unfolding DeleteUser_def w option.case Let_def
    by (intro known_if known_throw known_andThen known_mapErr known_repository inv [unfolded w]) simp_all
  show "known_errors (GetUserByEmail s m)"
    unfolding GetUserByEmail_def w Let_def by (intro known_intros known_repository) simp_all
qed

section \<open>Handlers that answer\<close>

text \<open>
  A handler answers if it never panics on writers that are in step, leaves them in step, and
  touches neither the counter of requests nor the pattern.
\<close>

definition tally :: "conn \<Rightarrow> (string list \<Rightarrow> nat) \<times> string" where
  "tally c = (http_counts c, conn_pattern c)"

lemma http_counts_of: "http_counts c = counts_of ''http_requests_total'' (conn_world c)"
  by (simp add: http_counts_def counts_of_def fun_eq_iff)

lemma tally_outside: "frame outside m \<Longrightarrow> frame tally m"
  by (simp add: frame_def tally_def outside_def http_counts_of)

definition answering :: "'a http \<Rightarrow> bool" where
  "answering m \<longleftrightarrow> frame tally m \<and>
     (\<forall>n c. in_step n c \<longrightarrow> (\<exists>a c'. m c = (Inr a, c') \<and> in_step n c'))"

named_theorems answering_intros "rules by which a handler answers"

lemma answeringI:
  "frame tally m \<Longrightarrow> (\<And>n c. in_step n c \<Longrightarrow> \<exists>a c'. m c = (Inr a, c') \<and> in_step n c') \<Longrightarrow> answering m"
  by (simp add: answering_def)

lemma answeringE:
  assumes "answering m" and "in_step n c"
  obtains a c' where "m c = (Inr a, c')" "in_step n c'" "tally c' = tally c"
  using assms frameD [of tally m] unfolding answering_def by blast

lemma answering_ret [answering_intros]: "answering (ret a)"
  by (rule answeringI) (auto intro: frame_intros simp: ret_def)

lemma answering_andThen [answering_intros]:
  assumes "answering m" and "\<And>a. answering (k a)"
  shows "answering (andThen m k)"
proof (rule answeringI)
  show "frame tally (andThen m k)"
    using assms by (intro frame_andThen) (simp_all add: answering_def)
  fix n c assume "in_step n c"
  with assms(1) obtain a c1 where 1: "m c = (Inr a, c1)" "in_step n c1" by (rule answeringE)
  from assms(2) 1(2) obtain b c2 where "k a c1 = (Inr b, c2)" "in_step n c2" by (rule answeringE)
  with 1 show "\<exists>a c'. andThen m k c = (Inr a, c') \<and> in_step n c'" by (simp add: andThen_def)
qed

lemma answering_if [answering_intros]:
  "(b \<Longrightarrow> answering m) \<Longrightarrow> (\<not> b \<Longrightarrow> answering k) \<Longrightarrow> answering (if b then m else k)"
  by simp

lemma answering_option [answering_intros]:
  "(x = None \<Longrightarrow> answering m) \<Longrightarrow> (\<And>a. x = Some a \<Longrightarrow> answering (k a)) \<Longrightarrow>
     answering (case x of None \<Rightarrow> m | Some a \<Rightarrow> k a)"
  by (cases x) auto

lemma answering_sum [answering_intros]:
  "(\<And>e. x = Inl e \<Longrightarrow> answering (f e)) \<Longrightarrow> (\<And>a. x = Inr a \<Longrightarrow> answering (g a)) \<Longrightarrow>
     answering (case x of Inl e \<Rightarrow> f e | Inr a \<Rightarrow> g a)"
  by (cases x) auto

lemma answering_prod [answering_intros]:
  "(\<And>a b. answering (f a b)) \<Longrightarrow> answering (case p of (a, b) \<Rightarrow> f a b)"
  by (cases p) auto

lemma answering_write [answering_intros]:
  "answer_status code \<Longrightarrow> answering (JSON code data)" "answer_status code \<Longrightarrow> answering (WriteHeader code)"
  "answering (Write d)"
  using JSON_in_step WriteHeader_in_step Write_in_step
  by (auto intro!: answeringI tally_outside JSON_outside WriteHeader_outside Write_outside)

lemma answering_modify:
  "(\<And>n c. in_step n c \<Longrightarrow> in_step n (f c)) \<Longrightarrow> (\<And>c. tally (f c) = tally c) \<Longrightarrow> answering (modify f)"
  by (rule answeringI) (auto simp: modify_def intro: modify_frame)

lemma answering_log [answering_intros]: "answering (log_at l m args)" "answering (Header_Set k v)"
  unfolding log_at_def Header_Set_def
  by (rule answering_modify; simp add: tally_def http_counts_def fun_eq_iff)+

lemma answering_send [answering_intros]:
  "answer_status code \<Longrightarrow> answering (SendError code e m)" "answering (SendValidationError fs)"
  unfolding SendError_def SendValidationError_def by (intro answering_intros; simp add: answer_status_def)+

lemma answering_HandleError [answering_intros]: "status_known err \<Longrightarrow> answering (HandleError err)"
  unfolding HandleError_def using status_known_As
  by (auto intro!: answering_intros simp: answer_status_def split: option.splits go_error.splits)

lemma answering_decode [answering_intros]:
  "answering (writeDecodeError pr derr)" "answering (DecodeJSON pr schema struct r)"
proof -
  show w: "answering (writeDecodeError pr derr)" for derr
    unfolding writeDecodeError_def Let_def by (cases derr) (auto intro!: answering_intros simp: answer_status_def)
  show "answering (DecodeJSON pr schema struct r)"
    unfolding DecodeJSON_def Let_def by (intro answering_intros w) (simp add: answer_status_def)
qed

lemma answering_call [answering_intros]:
  "frame (counts_of ''http_requests_total'') m \<Longrightarrow> answering (call m)"
  by (rule answeringI) (auto simp: call_def frame_def tally_def http_counts_of split: prod.split, metis snd_conv)

lemma answering_when_ok [answering_intros]:
  "answering m \<Longrightarrow> (\<And>a. answering (k a)) \<Longrightarrow> answering (when_ok m k)"
  unfolding when_ok_def by (intro answering_intros)


lemma answering_handled [answering_intros]:
  assumes "known_errors m" and "frame (counts_of ''http_requests_total'') m" and "\<And>a. answering (k a)"
  shows "answering (handled m k)"
proof (rule answeringI)
  have c: "answering (call m)" by (rule answering_call [OF assms(2)])
  have k: "frame tally (k a)" for a using assms(3) by (simp add: answering_def)
  have h: "frame tally (HandleError e)" for e by (rule tally_outside [OF HandleError_outside])
  show "frame tally (handled m k)"
    unfolding handled_def by (intro frame_intros k h) (use c in \<open>simp add: answering_def\<close>)
  fix n cn assume i: "in_step n cn"
  obtain r w where m: "m (conn_world cn) = (r, w)" by (rule prod.exhaust)
  have i': "in_step n (cn\<lparr>conn_world := w\<rparr>)" using i by simp
  show "\<exists>a c'. handled m k cn = (Inr a, c') \<and> in_step n c'"
  proof (cases r)
    case (Inl err)
    have e: "answering (HandleError err)" using known_errorsD [OF assms(1), of "conn_world cn" err w] m Inl by (intro answering_HandleError) simp
    from e i' obtain a c' where "HandleError err (cn\<lparr>conn_world := w\<rparr>) = (Inr a, c')" "in_step n c'"
      by (rule answeringE)
    with m Inl show ?thesis by (simp add: handled_def andThen_def call_def)
  next
    case (Inr a)
    from assms(3) [of a] i' obtain b c' where "k a (cn\<lparr>conn_world := w\<rparr>) = (Inr b, c')" "in_step n c'"
      by (rule answeringE)
    with m Inr show ?thesis by (simp add: handled_def andThen_def call_def)
  qed
qed

lemma answering_validated [answering_intros]:
  "field_errors_only v \<Longrightarrow> answering k \<Longrightarrow> answering (validated v fs k)"
  unfolding validated_def by (intro answering_intros) (auto simp: field_errors_only_def)

section \<open>The handlers of the packages user and auth\<close>

lemma known_limiter: "known_errors (RateLimiter_Allow (redis_limiter l) k lim win)"
proof -
  have "known_errors (incrAndExpireScript k t)" for k t
    unfolding incrAndExpireScript_def
    by (intro known_intros) (auto simp: known_errors_def redis_INCR_def redis_PEXPIRE_def
        split: option.splits redis_value.splits if_splits)
  then show ?thesis
    unfolding redis_limiter_def RateLimiter.simps RedisLimiter_Allow_def Let_def by (intro known_intros) simp_all
qed

lemma user_handlers_answer:
  assumes "uenv_errors (lib_user L)" and "field_errors_only v"
    and h: "h = user_NewHandler (app_user_service L cfg) v pr"
  shows "answering (Handler_CreateUser h r)" "answering (Handler_GetUserById h r)" "answering (Handler_ListUsers h r)"
    "answering (Handler_UpdateUser h r)" "answering (Handler_DeleteUser h r)" "answering (Handler_GetUsersByEmail h r)"
    "answering (Handler_CreateUserWithProfile h r)"
proof -
  have s: "userh_service h = app_user_service L cfg" "userh_validator h = v" "userh_pr h = pr"
    by (simp_all add: h user_NewHandler_def)
  note k = known_user [OF assms(1), OF app_user_service_def]
  note c = user_counts [OF uncached_totals(1) app_user_service_def]
  have i: "answering (parseId r)"
    unfolding parseId_def Let_def by (intro answering_intros)
  have m: "answering (parseString r t)" for t
    unfolding parseString_def Let_def by (intro answering_intros)
  have l: "status_known err" if "ParseListUsersRequest h r = Inl err" for err
    using that assms(2)
    by (auto simp: ParseListUsersRequest_def Let_def s field_errors_only_def split: if_splits prod.splits option.splits)
  have 200: "answer_status 200" "answer_status 201" "answer_status 204" by (simp_all add: answer_status_def)
  show "answering (Handler_CreateUser h r)" "answering (Handler_GetUserById h r)"
    "answering (Handler_UpdateUser h r)" "answering (Handler_DeleteUser h r)" "answering (Handler_GetUsersByEmail h r)"
    "answering (Handler_CreateUserWithProfile h r)" "answering (Handler_ListUsers h r)"
    unfolding Handler_CreateUser_def Handler_GetUserById_def Handler_UpdateUser_def Handler_DeleteUser_def
      Handler_GetUsersByEmail_def Handler_CreateUserWithProfile_def Handler_ListUsers_def s
    by (intro answering_intros assms k c i m l 200; assumption)+
qed

lemma answering_state: "(\<And>x. answering (m x)) \<Longrightarrow> answering (\<lambda>c. m (f c) c)"
  unfolding answering_def frame_def by blast

lemma answering_guards:
  assumes "\<And>r. answering (nxt r)"
  shows "answering (RequireAuth m nxt r)" "answering (RequireRole m roles nxt r)"
    "answering (RequireSelfOrRole m extract roles nxt r)"
proof -
  have s: "answering (\<lambda>c. (case bearer m r (clock (conn_world c)) of None \<Rightarrow> unauthorized | Some p \<Rightarrow> k p) c)"
    if "\<And>p. answering (k p)" for k
    by (rule answering_state, intro answering_option that)
      (simp add: unauthorized_def answering_send answer_status_def)
  have eq: "RequireAuth m nxt r = (\<lambda>c. (case bearer m r (clock (conn_world c)) of
        None \<Rightarrow> unauthorized | Some p \<Rightarrow> nxt (as_bearer r p)) c)"
    "RequireRole m roles nxt r = (\<lambda>c. (case bearer m r (clock (conn_world c)) of
        None \<Rightarrow> unauthorized | Some p \<Rightarrow> if Principal_Role p \<in> set roles then nxt (as_bearer r p)
          else SendError 403 ''forbidden'' ''Forbidden'') c)"
    "RequireSelfOrRole m extract roles nxt r = (\<lambda>c. (case bearer m r (clock (conn_world c)) of
        None \<Rightarrow> unauthorized | Some p \<Rightarrow>
          if Principal_Role p \<in> set roles \<or> extract (as_bearer r p) = Inr (Principal_UserID p)
          then nxt (as_bearer r p)
          else (case extract (as_bearer r p) of
                  Inl err \<Rightarrow> SendError 400 ''invalid_path_param'' ''Invalid path parameter''
                | Inr i \<Rightarrow> SendError 403 ''forbidden'' ''Forbidden'')) c)"
    by (auto simp: fun_eq_iff RequireAuth_bearer RequireRole_bearer RequireSelfOrRole_bearer
        split: option.split sum.split)
  show "answering (RequireAuth m nxt r)" "answering (RequireRole m roles nxt r)"
    "answering (RequireSelfOrRole m extract roles nxt r)"
    unfolding eq by (intro s answering_intros assms; simp add: answer_status_def)+
qed

lemma auth_handlers_answer:
  assumes "env_errors (lib_auth L)" and "field_errors_only (validation_New (lib_validator L))"
    and h: "h = app_auth_handler L cfg"
  shows "answering (Handler_Register h r)" "answering (Handler_Login h r)" "answering (Handler_Refresh h r)"
    "answering (Handler_Logout h r)" "answering (Handler_Me h r)"
proof -
  define s where "s = pg_auth (lib_pg L) NewPasswordHasher (app_tokens cfg)
    (AuthConfig_RefreshTokenTTL (Config_Auth cfg)) (lib_auth L)"
  have w: "authh_service h = s" "authh_validator h = validation_New (lib_validator L)" "authh_pr h = lib_pr L"
    "authh_limiter h = Some (redis_limiter (NewRedisLimiter ''identity'' (TimeoutsConfig_RedisCommand (Config_Timeouts cfg))))"
    by (simp_all add: h app_auth_handler_def auth_NewHandler_def s_def Let_def)
  note k = known_auth [OF assms(1) s_def] and c = auth_counts [OF s_def]
  have st: "answer_status 200" "answer_status 201" "answer_status 204" "answer_status 429" by (simp_all add: answer_status_def)
  have lim: "answering (rate_limited h key lim win m)" if "answering m" for key lim win m
    unfolding rate_limited_def w option.case rejectRateLimited_def
    by (intro answering_intros known_limiter limiter_counts that st)
  show "answering (Handler_Register h r)" "answering (Handler_Login h r)" "answering (Handler_Refresh h r)"
    "answering (Handler_Logout h r)"
    unfolding Handler_Register_def Handler_Login_def Handler_Refresh_def Handler_Logout_def Let_def w
    by (intro answering_intros assms(2) k c lim st)+
  show "answering (Handler_Me h r)"
    unfolding Handler_Me_def w by (intro answering_intros k c st) simp
qed

section \<open>The application\<close>

text \<open>What the libraries are relied on for here.\<close>

definition answering_libs :: "libs \<Rightarrow> bool" where
  "answering_libs L \<longleftrightarrow> env_errors (lib_auth L) \<and> uenv_errors (lib_user L) \<and>
     field_errors_only (validation_New (lib_validator L)) \<and> (\<forall>r. answering (lib_metrics_handler L r)) \<and>
     frame (counts_of ''http_requests_total'') (lib_ping_db L) \<and>
     frame (counts_of ''http_requests_total'') (lib_ping_redis L) \<and>
     frame (counts_of ''http_requests_total'') (lib_ping_kafka L) \<and>
     answer_status (redirect_status (lib_redirect L))"

lemma health_answers:
  assumes "answering_libs L"
  shows "answering (Ready (NewHealthHandlers (lib_ping_db L) (lib_ping_redis L) (lib_ping_kafka L) sd) r)"
    "answering (Health r)" "answering (ping_handler r)" "answering (info_handler a r)" "answering (version_handler a r)"
proof -
  have c: "answering (health_check name m cs)" if "frame (counts_of ''http_requests_total'') m" for name m cs
    unfolding health_check_def by (intro answering_intros that)
  have st: "answer_status 200" "answer_status 503" by (simp_all add: answer_status_def)
  show "answering (Ready (NewHealthHandlers (lib_ping_db L) (lib_ping_redis L) (lib_ping_kafka L) sd) r)"
    unfolding Ready_def Let_def NewHealthHandlers_def HealthHandlers.simps
    by (intro answering_intros c st) (use assms in \<open>auto simp: answering_libs_def\<close>)
  show "answering (Health r)" "answering (ping_handler r)" "answering (info_handler a r)" "answering (version_handler a r)"
    unfolding Health_def ping_handler_def info_handler_def version_handler_def by (intro answering_intros st)+
qed

text \<open>Every route answers, but for the one that is there to panic.\<close>

lemma routes_answer:
  assumes "answering_libs L"
  shows "\<forall>rt \<in> set (app_routes (Run_app L cfg sd)).
    (\<forall>r. answering (route_handler rt r)) \<or>
    AppConfig_Environment (Config_App cfg) = ''local'' \<and> rt = route_to ''GET /panic'' panic_handler"
proof -
  let ?a = "Run_app L cfg sd"
  note lib = assms [unfolded answering_libs_def]
  have u: "app_userHandler ?a = user_NewHandler (app_user_service L cfg) (validation_New (lib_validator L)) (lib_pr L)"
    "app_auth ?a = app_auth_handler L cfg" "app_metrics_handler ?a = lib_metrics_handler L"
    "app_health ?a = NewHealthHandlers (lib_ping_db L) (lib_ping_redis L) (lib_ping_kafka L) sd"
    "app_Environment ?a = AppConfig_Environment (Config_App cfg)"
    by (simp_all add: Run_app_def)
  note uh = user_handlers_answer [OF conjunct1 [OF conjunct2 [OF lib]] conjunct1 [OF conjunct2 [OF conjunct2 [OF lib]]] u(1)]
  note ah = auth_handlers_answer [OF conjunct1 [OF lib] conjunct1 [OF conjunct2 [OF conjunct2 [OF lib]]] u(2)]
  have rec: "route_handler (route_to p h) = h" for p h by (simp add: route_to_def)
  show ?thesis
    unfolding app_routes_def initHealthModule_def auth_RegisterRoutes_def initUserModule_def user_RegisterRoutes_def u(3-5)
    using uh ah health_answers [OF assms] lib
    by (simp add: rec answering_guards)
qed


text \<open>The mux: an answer under some pattern, or a route that may do otherwise.\<close>

lemma ServeHTTP_run:
  assumes "\<forall>rt \<in> set routes. (\<forall>r. answering (route_handler rt r)) \<or> P rt"
    and "answer_status (redirect_status rp)"
  obtains (quiet) m p where "ServeHTTP rp routes r c = m (c\<lparr>conn_pattern := p\<rparr>)" "answering m"
      "p \<in> {conn_pattern c, ''''} \<union> route_pattern ` set routes"
    | (route) rt r' where "rt \<in> set routes" "P rt"
        "ServeHTTP rp routes r c = route_handler rt r' (c\<lparr>conn_pattern := route_pattern rt\<rparr>)"
        "pattern_method (route_pattern rt) = Req_Method r \<or>
           Req_Method r = ''HEAD'' \<and> pattern_method (route_pattern rt) = ''GET''"
        "match_path (route_pattern rt) (Req_Path r) \<noteq> None"
proof -
  have best: "best_route rts = Some rt \<Longrightarrow> rt \<in> set rts" for rts rt
    by (induction rts arbitrary: rt) (auto split: option.splits if_splits)
  have found: "rt \<in> set routes \<and> match_path (route_pattern rt) path \<noteq> None \<and>
      (pattern_method (route_pattern rt) = m \<or> m = ''HEAD'' \<and> pattern_method (route_pattern rt) = ''GET'')"
    if "find_route routes m path = Some rt" for rt m path
    using that by (auto simp: find_route_def Let_def split: option.splits if_splits dest!: best)
  have set_p: "andThen (set_pattern p) k c = k () (c\<lparr>conn_pattern := p\<rparr>)" for p and k :: "unit \<Rightarrow> unit http"
    by (simp add: andThen_def set_pattern_def modify_def)
  have same: "m c = m (c\<lparr>conn_pattern := conn_pattern c\<rparr>)" for m :: "unit http" by simp
  have err: "answering (http_Error t code)" if "answer_status code" for t code
    unfolding http_Error_def by (intro answering_intros that)
  have st: "answer_status 400" "answer_status 404" "answer_status 405" by (simp_all add: answer_status_def)
  define path where "path = (if Req_Method r = ''CONNECT'' then Req_Path r else cleanPath (Req_Path r))"
  define f where "f = find_route routes (Req_Method r) path"
  show ?thesis
  proof (cases "Req_Path r = ''*''")
    case True
    then have "ServeHTTP rp routes r c = WriteHeader 400 c" by (simp add: ServeHTTP_def Let_def)
    then show ?thesis using quiet [of "WriteHeader 400" "conn_pattern c"] st by (auto intro: answering_intros)
  next
    case star: False
    show ?thesis
    proof (cases "path = Req_Path r")
      case False
      let ?m = "andThen (Header_Set ''Location'' (redirect_location rp path (Req_RawQuery r))) (\<lambda>_.
           andThen (Header_Set ''Content-Type'' ''text/html; charset=utf-8'') (\<lambda>_.
           andThen (WriteHeader (redirect_status rp)) (\<lambda>_.
             if Req_Method r = ''GET'' then Write (RawDoc (redirect_body rp path)) else ret ())))"
      have "answering ?m" by (intro answering_intros assms(2))
      moreover have "ServeHTTP rp routes r c = ?m (c\<lparr>conn_pattern := (case f of None \<Rightarrow> '''' | Some rt \<Rightarrow> route_pattern rt)\<rparr>)"
        using False star by (simp add: ServeHTTP_def Let_def set_p flip: path_def f_def)
      moreover have "(case f of None \<Rightarrow> '''' | Some rt \<Rightarrow> route_pattern rt) \<in>
          {conn_pattern c, ''''} \<union> route_pattern ` set routes"
        by (auto simp: f_def dest: found split: option.split)
      ultimately show ?thesis by (intro quiet)
    next
      case True
      then have fr: "find_route routes (Req_Method r) (Req_Path r) = f" by (simp add: f_def)
      have tp: "(if Req_Method r = ''CONNECT'' then Req_Path r else cleanPath (Req_Path r)) = Req_Path r"
        using True by (simp add: path_def)
      show ?thesis
      proof (cases f)
        case None
        let ?m = "if allowed_methods routes path \<noteq> [] then
            andThen (Header_Set ''Allow'' (Join (allowed_methods routes path) '', '')) (\<lambda>_.
              http_Error ''Method Not Allowed'' 405)
          else http_Error ''404 page not found'' 404"
        have "answering ?m" by (intro answering_intros err st)
        moreover have "ServeHTTP rp routes r c = ?m (c\<lparr>conn_pattern := conn_pattern c\<rparr>)"
          using star None unfolding ServeHTTP_def Let_def tp fr by (simp add: True)
        ultimately show ?thesis using quiet [of ?m "conn_pattern c"] by blast
      next
        case (Some rt)
        let ?r = "r\<lparr>Req_PathValues := the (match_path (route_pattern rt) path)\<rparr>"
        have run: "ServeHTTP rp routes r c = route_handler rt ?r (c\<lparr>conn_pattern := route_pattern rt\<rparr>)"
          using star Some unfolding ServeHTTP_def Let_def tp fr by (simp add: True set_p)
        have rt: "rt \<in> set routes" using found Some by (auto simp: f_def)
        show ?thesis
        proof (cases "answering (route_handler rt ?r)")
          case True
          with run rt show ?thesis by (intro quiet) auto
        next
          case False
          with assms(1) rt have "P rt" by auto
          with run rt found [of "Req_Method r" path rt] Some show ?thesis
            using True by (intro route [of rt ?r]) (auto simp: f_def)
        qed
      qed
    qed
  qed
qed

definition mux_panics :: "Config \<Rightarrow> request \<Rightarrow> bool" where
  "mux_panics cfg r \<longleftrightarrow> AppConfig_Environment (Config_App cfg) = ''local'' \<and>
     (Req_Method r = ''GET'' \<or> Req_Method r = ''HEAD'') \<and> match_path ''GET /panic'' (Req_Path r) \<noteq> None"

lemma get_panic: "pattern_method ''GET /panic'' = ''GET''"
  by code_simp

lemma app_mux_run:
  assumes "answering_libs L" and "app_mux (Run_app L cfg sd) r c = (res, c1)" and "in_step n c"
  shows "in_step n c1 \<and> http_counts c1 = http_counts c \<and>
    conn_pattern c1 \<in> {conn_pattern c, ''''} \<union> route_pattern ` set (app_routes (Run_app L cfg sd)) \<and>
    (\<forall>p. res = Inl p \<longrightarrow> mux_panics cfg r)"
proof -
  let ?a = "Run_app L cfg sd"
  have st: "answer_status (redirect_status (app_redirect ?a))"
    using assms(1) by (simp add: answering_libs_def Run_app_def)
  have run: "ServeHTTP (app_redirect ?a) (app_routes ?a) r c = (res, c1)" using assms(2) by (simp add: app_mux_def)
  have i: "in_step n (c\<lparr>conn_pattern := p\<rparr>)" for p using assms(3) by simp
  show ?thesis
  proof (cases rule: ServeHTTP_run [OF routes_answer [OF assms(1), of cfg sd] st, where ?r = r and ?c = c, case_names quiet route])
    case (quiet m p)
    from answeringE [OF quiet(2) i [of p]] obtain u c' where
      m: "m (c\<lparr>conn_pattern := p\<rparr>) = (Inr u, c')" "in_step n c'" "tally c' = tally (c\<lparr>conn_pattern := p\<rparr>)" by blast
    from m(1) quiet(1) run have "res = Inr u" "c1 = c'" by simp_all
    moreover have "http_counts c' = http_counts c" "conn_pattern c' = p"
      using m(3) by (simp_all add: tally_def http_counts_def fun_eq_iff)
    ultimately show ?thesis using m(2) quiet(3) by simp
  next
    case (route rt r')
    let ?c = "c\<lparr>conn_pattern := ''GET /panic''\<rparr>"
    from route(2) have p: "route_pattern rt = ''GET /panic''" "route_handler rt = panic_handler"
      by (simp_all add: route_to_def)
    with route(3) run have "c1 = ?c" by (simp add: panic_handler_def throw_def)
    moreover have "mux_panics cfg r"
      using route(2,4,5) p by (auto simp: mux_panics_def get_panic)
    moreover have "''GET /panic'' \<in> route_pattern ` set (app_routes ?a)" using imageI [OF route(1), of route_pattern] p by simp
    ultimately show ?thesis using i [of "''GET /panic''"] by (simp add: http_counts_def fun_eq_iff)
  qed
qed


lemma answering_keeps: "answering m \<Longrightarrow> keeps (in_step n) m"
  unfolding answering_def keeps_def by (metis snd_conv)

interpretation ready_serving: answering_handler "Ready (NewHealthHandlers (ret ()) (ret ()) (ret ()) sd)"
proof
  fix n r
  have "answering (health_check name (ret ()) cs)" for name cs
    unfolding health_check_def by (intro answering_intros) simp
  then have "answering (Ready (NewHealthHandlers (ret ()) (ret ()) (ret ()) sd) r)"
    unfolding Ready_def Let_def NewHealthHandlers_def HealthHandlers.simps
    by (intro answering_intros) (simp_all add: answer_status_def)
  then show "keeps (in_step n) (Ready (NewHealthHandlers (ret ()) (ret ()) (ret ()) sd) r)" by (rule answering_keeps)
qed

lemma app_mux_serving:
  assumes "answering_libs L"
  shows "answering_handler (app_mux (Run_app L cfg sd))"
proof
  fix n r
  show "keeps (in_step n) (app_mux (Run_app L cfg sd) r)"
    using app_mux_run [OF assms prod.collapse [symmetric]] by (auto simp: keeps_def)
qed

text \<open>The preflight: answered by the CORS middleware, before the counting one.\<close>

lemma preflight_run:
  assumes opt: "Req_Method r = ''OPTIONS''" and "in_step 0 c" and "conn_status c = None"
  shows "\<exists>c'. app_chain cors mux r c = (Inr (), c') \<and> in_step 0 c' \<and> conn_status c' = Some 204 \<and>
    http_counts c' = http_counts c"
proof -
  obtain ctx c1 where 1: "app_chain cors mux r c =
      SecurityHeaders (CORS cors (Metrics_middleware (Logging (Recovery mux)))) (WithContext r ctx) c1"
    "entered c c1" unfolding app_chain_unfold by (rule RequestId_enter)
  obtain c2 where 2: "SecurityHeaders (CORS cors (Metrics_middleware (Logging (Recovery mux))))
      (WithContext r ctx) c1 = CORS cors (Metrics_middleware (Logging (Recovery mux))) (WithContext r ctx) c2"
    "entered c1 c2" by (rule SecurityHeaders_enter)
  have m: "Req_Method (WithContext r ctx) = ''OPTIONS''" using opt by (simp add: WithContext_def)
  have assoc: "andThen (andThen (Header_Set k v) f) g c' = andThen (f ()) g (set_header k v c')"
    for k v f g c' by (simp add: andThen_def Header_Set_run)
  obtain c3 where 3: "CORS cors (Metrics_middleware (Logging (Recovery mux))) (WithContext r ctx) c2 = WriteHeader 204 c3"
    "entered c2 c3"
  proof (cases "Header_Get (WithContext r ctx) ''Origin'' \<noteq> '''' \<and>
      Header_Get (WithContext r ctx) ''Origin'' \<in> set (CORSConfig_AllowedOrigins cors)")
    case True
    show ?thesis
      by (rule that, unfold CORS_def Let_def if_P [OF True] assoc Header_Set_then if_P [OF m], rule refl, simp)
  next
    case False
    show ?thesis
      by (rule that [of c2], unfold CORS_def Let_def if_not_P [OF False] if_P [OF m])
        (simp_all add: andThen_def ret_def)
  qed
  have e: "entered c c3" using 1 2 3 by (auto intro: entered_trans)
  note en = enteredD [OF e]
  have "WriteHeader 204 c3 = (Inr (), sent_header 204 c3)"
    using en(1) assms(2) by (intro WriteHeader_in_step [of 0]) (simp_all add: answer_status_def)
  moreover have "conn_status (sent_header 204 c3) = Some 204" "http_counts (sent_header 204 c3) = http_counts c"
    using en(2,4) assms(3) by (simp_all add: sent_header_def http_counts_def fun_eq_iff)
  moreover have "in_step 0 (sent_header 204 c3)" using en(1) assms(2) by simp
  ultimately show ?thesis using 1 2 3 by auto
qed

lemma panic_matches:
  "match_path ''GET /panic'' ''/panic'' = Some []" "match_path ''GET /metrics'' ''/panic'' = None"
  "match_path ''GET /ready'' ''/panic'' = None" "match_path ''GET /health'' ''/panic'' = None"
  "match_path ''GET /ping'' ''/panic'' = None" "match_path ''GET /info'' ''/panic'' = None"
  "match_path ''GET /version'' ''/panic'' = None" "match_path ''GET /auth/me'' ''/panic'' = None"
  "match_path ''GET /users'' ''/panic'' = None" "match_path ''GET /users/by-email/{email}'' ''/panic'' = None"
  "match_path ''GET /users/{id}'' ''/panic'' = None" "cleanPath ''/panic'' = ''/panic''"
  by code_simp+

lemma panic_run:
  assumes "app_Environment a = ''local''" and "Req_Method r = ''GET''" "Req_Path r = ''/panic''"
  shows "app_mux a r c = (Inl ''local test panic'', c\<lparr>conn_pattern := ''GET /panic''\<rparr>)"
proof -
  have "find_route (app_routes a) ''GET'' ''/panic'' = Some (route_to ''GET /panic'' panic_handler)"
    using assms(1)
    by (simp add: find_route_def app_routes_def initHealthModule_def auth_RegisterRoutes_def
        initUserModule_def user_RegisterRoutes_def route_to_def pattern_methods sample_methods panic_matches)
  then show ?thesis
    by (simp add: app_mux_def ServeHTTP_def assms(2,3) panic_matches set_pattern_def andThen_def modify_def
        route_to_def panic_handler_def throw_def)
qed

text \<open>
  C8: Every request is answered and counted. Whatever the request, the faults of the services and
  the state are, the server's handler ends without a panic. A preflight is answered with 204 and not
  counted. Any other request is counted exactly once, under its method, the pattern of a route or
  \<open>unknown\<close>, and the status that was sent; and a handler that panics is answered with 500.
\<close>

theorem requests_answered:
  assumes "answering_libs L" and "in_step 0 c" "conn_status c = None" "conn_pattern c = ''''"
  shows "\<exists>c'. app_handler (Run_app L cfg sd) r c = (Inr (), c') \<and> in_step 0 c' \<and>
    (if Req_Method r = ''OPTIONS'' then conn_status c' = Some 204 \<and> http_counts c' = http_counts c
     else (\<exists>p \<in> insert ''unknown'' (route_pattern ` set (app_routes (Run_app L cfg sd))).
       http_counts c' = (http_counts c)([Req_Method r, p, FormatInt (final_status c')] :=
         http_counts c [Req_Method r, p, FormatInt (final_status c')] + 1)) \<and>
       (AppConfig_Environment (Config_App cfg) = ''local'' \<and> Req_Method r = ''GET'' \<and> Req_Path r = ''/panic'' \<longrightarrow>
         conn_status c' = Some 500))"
proof (cases "Req_Method r = ''OPTIONS''")
  case True
  from preflight_run [OF True assms(2,3)] True show ?thesis unfolding app_handler_def by simp
next
  case False
  let ?a = "Run_app L cfg sd" and ?pats = "route_pattern ` set (app_routes (Run_app L cfg sd))"
  obtain ctx c0 res c1 c' where 1: "app_handler ?a r c = (Inr (), c')" "entered c c0"
    "app_mux ?a (WithContext r ctx) (pushed c0) = (res, c1)" "in_step 0 c'" "chain_answers r res c1 c'"
    unfolding app_handler_def
    by (rule answering_handler.chain_run [OF app_mux_serving [OF assms(1)] False assms(2,3)])
  note e = enteredD [OF 1(2)]
  have "in_step (length (conn_writers (pushed c0))) (pushed c0)"
    using e(1,2) assms(2,3) by (simp add: in_step_def pushed_def recorded_def numeral_2_eq_2)
  from app_mux_run [OF assms(1) 1(3) this]
  have m: "http_counts c1 = http_counts c" "conn_pattern c1 \<in> insert '''' ?pats"
    using e(4,8) assms(4) by (auto simp: pushed_def http_counts_def fun_eq_iff)
  let ?p = "if conn_pattern c1 = '''' then ''unknown'' else conn_pattern c1"
  have mem: "?p \<in> insert ''unknown'' ?pats" using m(2) by auto
  have cnt: "http_counts c' = (http_counts c)([Req_Method r, ?p, FormatInt (final_status c')] :=
      http_counts c [Req_Method r, ?p, FormatInt (final_status c')] + 1)"
    using 1(5) m(1) by (auto simp: chain_answers_def fun_eq_iff)
  have pan: "conn_status c' = Some 500"
    if "AppConfig_Environment (Config_App cfg) = ''local''" "Req_Method r = ''GET''" "Req_Path r = ''/panic''"
  proof -
    have "app_mux ?a (WithContext r ctx) (pushed c0) =
        (Inl ''local test panic'', (pushed c0)\<lparr>conn_pattern := ''GET /panic''\<rparr>)"
      by (rule panic_run) (use that in \<open>simp_all add: Run_app_def WithContext_def\<close>)
    then have "res = Inl ''local test panic''" "conn_status c1 = None"
      using 1(3) e(2) assms(3) by (auto simp: pushed_def)
    then show ?thesis using 1(5) by (simp add: chain_answers_def)
  qed
  show ?thesis unfolding if_not_P [OF False]
    by (intro exI [where x = c'] conjI impI bexI [where x = ?p] 1(1,4) mem cnt pan) simp_all
qed


lemma sample_libs_answering: "answering_libs sample_libs"
proof -
  have "field_errors_only (validation_New (lib_validator sample_libs))"
    using documented_field_errors [OF sample_validator_documented] by (simp add: sample_libs_def)
  moreover have "answering (Write (RawDoc ''''))" by (intro answering_intros)
  ultimately show ?thesis
    by (auto simp: answering_libs_def sample_libs_def env_errors_def uenv_errors_def bcrypt_errors_def jwt_errors_def
        marshal_errors_def sample_bcrypt_def sample_jwt_def answer_status_def split: if_splits)
qed

theorem requests_answered_witness:
  "\<exists>c'. app_handler (Run_app sample_libs sample_settings False) (sample_delete\<lparr>Req_Method := ''GET'', Req_Path := ''/panic''\<rparr>)
      (sample_conn ''GET'' sample_member) = (Inr (), c') \<and> conn_status c' = Some 500"
proof -
  let ?r = "sample_delete\<lparr>Req_Method := ''GET'', Req_Path := ''/panic''\<rparr>" and ?c = "sample_conn ''GET'' sample_member"
  have c: "in_step 0 ?c" "conn_status ?c = None" "conn_pattern ?c = ''''"
    by (simp_all add: sample_conn_def in_step_def)
  have "AppConfig_Environment (Config_App sample_settings) = ''local''"
    by (simp add: sample_settings_def default_config_def)
  then show ?thesis
    using requests_answered [OF sample_libs_answering c, of sample_settings False ?r] by auto
qed

end
