(* ===== verification/Requests.thy ===== *)
theory Requests
  imports Answers
begin

text \<open>
  What a request may do to the world is what the services do: an invariant that every operation of
  the services keeps, and that does not look at the counters and the entropy, is kept by the whole
  HTTP server, whatever the request.
\<close>

definition neutral :: "(world \<Rightarrow> bool) \<Rightarrow> bool" where
  "neutral K \<longleftrightarrow> (\<forall>w c e. K w \<longrightarrow> K (w\<lparr>counters := c\<rparr>) \<and> K (w\<lparr>entropy := e\<rparr>))"

abbreviation app_auth_service :: "libs \<Rightarrow> Config \<Rightarrow> auth_Service" where
  "app_auth_service L cfg \<equiv> authh_service (app_auth_handler L cfg)"

definition request_ops :: "libs \<Rightarrow> Config \<Rightarrow> (world \<Rightarrow> bool) \<Rightarrow> bool" where
  "request_ops L cfg K \<longleftrightarrow>
     (\<forall>x. keeps K (auth_Register (app_auth_service L cfg) x)) \<and>
     (\<forall>x. keeps K (auth_Login (app_auth_service L cfg) x)) \<and>
     (\<forall>x. keeps K (auth_Refresh (app_auth_service L cfg) x)) \<and>
     (\<forall>x. keeps K (auth_Logout (app_auth_service L cfg) x)) \<and>
     (\<forall>x. keeps K (auth_Me (app_auth_service L cfg) x)) \<and>
     (\<forall>x. keeps K (CreateUser (app_user_service L cfg) x)) \<and>
     (\<forall>x. keeps K (CreateUserWithProfile (app_user_service L cfg) x)) \<and>
     (\<forall>x. keeps K (GetUser (app_user_service L cfg) x)) \<and>
     (\<forall>x. keeps K (ListUsers (app_user_service L cfg) x)) \<and>
     (\<forall>i x. keeps K (UpdateUser (app_user_service L cfg) i x)) \<and>
     (\<forall>x. keeps K (DeleteUser (app_user_service L cfg) x)) \<and>
     (\<forall>x. keeps K (GetUserByEmail (app_user_service L cfg) x)) \<and>
     (\<forall>l k lim win. keeps K (RateLimiter_Allow (redis_limiter l) k lim win)) \<and>
     (\<forall>r. keeps (\<lambda>c. K (conn_world c)) (lib_metrics_handler L r)) \<and>
     keeps K (lib_ping_db L) \<and> keeps K (lib_ping_redis L) \<and> keeps K (lib_ping_kafka L)"

abbreviation keeps_world :: "(world \<Rightarrow> bool) \<Rightarrow> 'a http \<Rightarrow> bool" where
  "keeps_world K \<equiv> keeps (\<lambda>c. K (conn_world c))"

lemma keeps_outside: "frame conn_world m \<Longrightarrow> keeps_world K m"
  by (rule frame_keeps)

lemmas keeps_answers =
  JSON_world [THEN keeps_outside] SendError_world [THEN keeps_outside] SendValidationError_world [THEN keeps_outside]
  HandleError_world [THEN keeps_outside] DecodeJSON_world [THEN keeps_outside] WriteHeader_world [THEN keeps_outside]
  Write_world [THEN keeps_outside] Header_Set_world [THEN keeps_outside] log_at_world [THEN keeps_outside]

lemma keeps_call_world: "keeps K m \<Longrightarrow> keeps_world K (call m)"
  by (auto simp: keeps_def call_def split: prod.split)

lemma keeps_handled_world: "keeps K m \<Longrightarrow> (\<And>a. keeps_world K (k a)) \<Longrightarrow> keeps_world K (handled m k)"
  unfolding handled_def by (intro keeps_intros keeps_call_world keeps_answers)

lemma keeps_validated_world: "keeps_world K k \<Longrightarrow> keeps_world K (validated v fs k)"
  unfolding validated_def by (intro keeps_intros keeps_answers)

lemmas keeps_world_intros = keeps_answers keeps_handled_world keeps_validated_world keeps_when_ok

section \<open>The handlers\<close>

lemma keeps_guards:
  assumes "\<And>r. keeps_world K (nxt r)"
  shows "keeps_world K (RequireAuth m nxt r)" "keeps_world K (RequireRole m roles nxt r)"
    "keeps_world K (RequireSelfOrRole m extract roles nxt r)"
proof -
  note n = assms [unfolded keeps_def] and s = frame_snd [OF SendError_world] frame_snd [OF unauthorized_world]
  show "keeps_world K (RequireAuth m nxt r)" "keeps_world K (RequireRole m roles nxt r)"
    "keeps_world K (RequireSelfOrRole m extract roles nxt r)"
    unfolding keeps_def RequireAuth_bearer RequireRole_bearer RequireSelfOrRole_bearer
    using n by (simp_all add: s split: option.split sum.split)
qed

lemma keeps_handlers:
  assumes "request_ops L cfg K"
  shows "\<forall>rt \<in> set (app_routes (Run_app L cfg sd)). \<forall>r. keeps_world K (route_handler rt r)"
proof -
  note ops = assms [unfolded request_ops_def]
  let ?u = "user_NewHandler (app_user_service L cfg) (validation_New (lib_validator L)) (lib_pr L)"
  let ?h = "app_auth_handler L cfg"
  have us: "userh_service ?u = app_user_service L cfg" by (simp add: user_NewHandler_def)
  have p: "keeps_world K (parseId r)" "keeps_world K (parseString r t)" for r t
    unfolding parseId_def parseString_def Let_def by (intro keeps_intros keeps_answers)+
  have lim: "keeps_world K (rate_limited ?h key lim win m)" if "keeps_world K m" for key lim win m
  proof -
    have "authh_limiter ?h = Some (redis_limiter (NewRedisLimiter ''identity'' (TimeoutsConfig_RedisCommand (Config_Timeouts cfg))))"
      by (simp add: app_auth_handler_def auth_NewHandler_def Let_def)
    then show ?thesis unfolding rate_limited_def rejectRateLimited_def
      using ops that by (auto intro!: keeps_intros keeps_world_intros)
  qed
  have a: "keeps_world K (Handler_Register ?h r)" "keeps_world K (Handler_Login ?h r)" "keeps_world K (Handler_Refresh ?h r)"
    "keeps_world K (Handler_Logout ?h r)" "keeps_world K (Handler_Me ?h r)" for r
    unfolding Handler_Register_def Handler_Login_def Handler_Refresh_def Handler_Logout_def Handler_Me_def Let_def
    using ops by (auto intro!: keeps_intros keeps_world_intros lim)
  have u: "keeps_world K (Handler_CreateUser ?u r)" "keeps_world K (Handler_GetUserById ?u r)"
    "keeps_world K (Handler_ListUsers ?u r)" "keeps_world K (Handler_UpdateUser ?u r)"
    "keeps_world K (Handler_DeleteUser ?u r)" "keeps_world K (Handler_GetUsersByEmail ?u r)"
    "keeps_world K (Handler_CreateUserWithProfile ?u r)" for r
    unfolding Handler_CreateUser_def Handler_GetUserById_def Handler_ListUsers_def Handler_UpdateUser_def
      Handler_DeleteUser_def Handler_GetUsersByEmail_def Handler_CreateUserWithProfile_def us
    using ops by (auto intro!: keeps_intros keeps_world_intros p)
  have c: "keeps_world K (health_check name m cs)" if "keeps K m" for name m cs
    unfolding health_check_def by (intro keeps_intros keeps_call_world keeps_answers that)
  have rdy: "keeps_world K (Ready (NewHealthHandlers (lib_ping_db L) (lib_ping_redis L) (lib_ping_kafka L) sd) r)" for r
    unfolding Ready_def Let_def NewHealthHandlers_def HealthHandlers.simps
    using ops by (intro keeps_intros c keeps_answers) simp_all
  have h: "keeps_world K (Health r)" "keeps_world K (ping_handler r)" "keeps_world K (info_handler a r)"
    "keeps_world K (version_handler a r)" "keeps_world K (panic_handler r)" for a r
    unfolding Health_def ping_handler_def info_handler_def version_handler_def panic_handler_def
    by (intro keeps_answers keeps_throw)+
  have w: "app_userHandler (Run_app L cfg sd) = ?u" "app_auth (Run_app L cfg sd) = ?h"
    "app_metrics_handler (Run_app L cfg sd) = lib_metrics_handler L"
    "app_health (Run_app L cfg sd) = NewHealthHandlers (lib_ping_db L) (lib_ping_redis L) (lib_ping_kafka L) sd"
    by (simp_all add: Run_app_def)
  have rec: "route_handler (route_to p h) = h" for p h by (simp add: route_to_def)
  show ?thesis
    unfolding app_routes_def initHealthModule_def auth_RegisterRoutes_def initUserModule_def user_RegisterRoutes_def w
    using ops a u h rdy by (simp add: rec keeps_guards)
qed


section \<open>The mux and the chain\<close>

lemma keeps_pattern: "keeps_world K (set_pattern p)"
  by (simp add: keeps_def set_pattern_def modify_def)

lemma keeps_mux:
  assumes "request_ops L cfg K"
  shows "keeps_world K (app_mux (Run_app L cfg sd) r)"
proof (rule keepsI)
  fix c :: conn assume K: "K (conn_world c)"
  obtain res c1 where run: "app_mux (Run_app L cfg sd) r c = (res, c1)" by (rule prod.exhaust)
  from run [unfolded app_mux_def] have "K (conn_world c1)"
  proof (cases rule: ServeHTTP_cases)
    case none
    with K show ?thesis by simp
  next
    case (route rt ms)
    have "keeps_world K (route_handler rt (r\<lparr>Req_PathValues := ms\<rparr>))"
      using keeps_handlers [OF assms, of sd] route(1) by blast
    from keepsD [OF this route(4)] K show ?thesis by simp
  qed
  with run show "K (conn_world (snd (app_mux (Run_app L cfg sd) r c)))" by simp
qed

lemma keeps_with_responseWriter: "keeps_world K m \<Longrightarrow> keeps_world K (with_responseWriter m)"
proof (rule keepsI)
  fix c :: conn assume m: "keeps_world K m" and K: "K (conn_world c)"
  obtain res c1 where run: "m (c\<lparr>conn_writers := newResponseWriter # conn_writers c\<rparr>) = (res, c1)" by (rule prod.exhaust)
  from keepsD [OF m run] K have "K (conn_world c1)" by simp
  with run show "K (conn_world (snd (with_responseWriter m c)))"
    by (cases res) (simp_all add: with_responseWriter_def)
qed

lemma neutral_inc: "neutral K \<Longrightarrow> keeps K (metric_inc n ls)"
  by (simp add: neutral_def keeps_def metric_inc_def modify_def)

lemma neutral_rand: "neutral K \<Longrightarrow> keeps K (rand_Read n)"
  unfolding keeps_def neutral_def using rand_Read_world [of n] by metis

lemma keeps_wrappers:
  assumes "neutral K" and "\<And>r. keeps_world K (nxt r)"
  shows "keeps_world K (Metrics_middleware nxt r)" "keeps_world K (Logging nxt r)" "keeps_world K (Recovery nxt r)"
    "keeps_world K (RequestId nxt r)" "keeps_world K (SecurityHeaders nxt r)" "keeps_world K (CORS cors nxt r)"
proof -
  have inc: "keeps_world K (call (metric_inc n ls))" for n ls
    by (rule keeps_call_world [OF neutral_inc [OF assms(1)]])
  have w: "keeps_world K (with_responseWriter (nxt r))" by (rule keeps_with_responseWriter [OF assms(2)])
  have m: "keeps_world K (andThen (call (metric_inc n1 ls)) (\<lambda>_. andThen (call (metric_inc n2 ls)) (\<lambda>_. ret ())))"
    for n1 n2 ls by (intro keeps_andThen inc keeps_ret)
  show "keeps_world K (Metrics_middleware nxt r)"
    unfolding Metrics_middleware_def
    by (rule keeps_andThen [OF w]) (use m in \<open>simp add: keeps_def Let_def\<close>)
  show "keeps_world K (Logging nxt r)"
  proof (rule keepsI)
    fix c :: conn assume K: "K (conn_world c)"
    obtain p c' where run: "Logging nxt r c = (p, c')" by (rule prod.exhaust)
    from run obtain q c1 c2 where "nxt r c1 = (q, c2)" "conn_world c1 = conn_world c" "conn_world c' = conn_world c2"
      by (rule Logging_world)
    with keepsD [OF assms(2), of r c1 q c2] K run show "K (conn_world (snd (Logging nxt r c)))" by simp
  qed
  show "keeps_world K (Recovery nxt r)"
    unfolding Recovery_def by (intro keeps_intros assms(2) keeps_answers)
  have "keeps_world K generateRequestId"
    unfolding generateRequestId_def by (intro keeps_intros keeps_call_world neutral_rand assms(1))
  then show "keeps_world K (RequestId nxt r)"
    unfolding RequestId_def by (intro keeps_intros assms(2) keeps_answers)
  show "keeps_world K (SecurityHeaders nxt r)" "keeps_world K (CORS cors nxt r)"
    unfolding SecurityHeaders_def CORS_def Let_def by (intro keeps_intros assms(2) keeps_answers)+
qed

lemma app_handler_keeps:
  assumes "neutral K" and "request_ops L cfg K"
  shows "keeps_world K (app_handler (Run_app L cfg sd) r)"
  unfolding app_handler_def app_chain_unfold
  by (intro keeps_wrappers assms(1) keeps_mux assms(2))

end
