(* ===== verification/Grpc_Api.thy ===== *)
theory Grpc_Api
  imports Counting
begin

text \<open>
  internal/grpcapi: the read side of the users over gRPC, with the interceptors that authenticate
  and count a call (auth_interceptor.go, metrics_interceptor.go), the checks of the caller
  (authz.go) and the service (user_service.go), and \<open>initGRPCModule\<close> of internal/app/app.go,
  which puts them together. A handler is a program on the world whose error is a gRPC status.
\<close>

section \<open>Statuses, contexts and messages\<close>

datatype grpc_code =
    codes_OK | codes_InvalidArgument | codes_NotFound | codes_AlreadyExists
  | codes_PermissionDenied | codes_Unimplemented | codes_Internal | codes_Unauthenticated

fun code_String :: "grpc_code \<Rightarrow> string" where
  "code_String codes_OK = ''OK''"
| "code_String codes_InvalidArgument = ''InvalidArgument''"
| "code_String codes_NotFound = ''NotFound''"
| "code_String codes_AlreadyExists = ''AlreadyExists''"
| "code_String codes_PermissionDenied = ''PermissionDenied''"
| "code_String codes_Unimplemented = ''Unimplemented''"
| "code_String codes_Internal = ''Internal''"
| "code_String codes_Unauthenticated = ''Unauthenticated''"

text \<open>\<open>status.Error\<close> and \<open>status.Code\<close>\<close>

datatype status = Status (status_code: grpc_code) (status_message: string)

type_synonym 'a grpc = "(world, status, 'a) program"

definition grpc_Code :: "status + 'a \<Rightarrow> grpc_code" where
  "grpc_Code res = (case res of Inl st \<Rightarrow> status_code st | Inr _ \<Rightarrow> codes_OK)"

text \<open>The context of a call: the metadata received, with keys in lower case, and the values.\<close>

record rpc_context =
  rpc_metadata :: "(string \<times> string list) list"
  rpc_values :: request_context

text \<open>\<open>timestamppb.New\<close>: seconds and nanoseconds since the epoch.\<close>

record Timestamp =
  Timestamp_Seconds :: int
  Timestamp_Nanos :: int

definition timestamppb_New :: "int \<Rightarrow> Timestamp" where
  "timestamppb_New t = \<lparr>Timestamp_Seconds = t div 10 ^ 9, Timestamp_Nanos = t mod 10 ^ 9\<rparr>"

record pb_User =
  pb_Id :: int
  pb_Name :: string
  pb_Email :: string
  pb_Age :: int
  pb_Role :: string
  pb_CreatedAt :: Timestamp
  pb_UpdatedAt :: Timestamp

text \<open>The requests and responses of the service; an \<open>int32\<close> or \<open>int64\<close> field is an integer.\<close>

record pb_ListUsers =
  pb_Limit :: int
  pb_Offset :: int
  pb_ListEmail :: string
  pb_Sort :: string

datatype rpc_request = GetUserRequest int | ListUsersCall pb_ListUsers

datatype rpc_response = GetUserResponse pb_User | ListUsersResponse "pb_User list" int

type_synonym UnaryHandler = "rpc_context \<Rightarrow> rpc_request \<Rightarrow> rpc_response grpc"

text \<open>An interceptor gets the full name of the method and the next handler.\<close>

type_synonym UnaryInterceptor = "string \<Rightarrow> UnaryHandler \<Rightarrow> UnaryHandler"

section \<open>auth_interceptor.go\<close>

definition ValueFromIncomingContext :: "rpc_context \<Rightarrow> string \<Rightarrow> string list" where
  "ValueFromIncomingContext ctx key =
     (case map_of (rpc_metadata ctx) key of None \<Rightarrow> [] | Some vs \<Rightarrow> vs)"

definition authorizationHeader :: "rpc_context \<Rightarrow> string" where
  "authorizationHeader ctx =
     (case ValueFromIncomingContext ctx ''authorization'' of [] \<Rightarrow> '''' | v # vs \<Rightarrow> TrimSpace v)"

text \<open>\<open>AuthInterceptor\<close> holds the token manager; the JWT library is a parameter.\<close>

record AuthInterceptor =
  AuthInterceptor_tokens :: TokenManager
  AuthInterceptor_jwt :: jwt_lib

definition NewAuthInterceptor :: "TokenManager \<Rightarrow> jwt_lib \<Rightarrow> AuthInterceptor" where
  "NewAuthInterceptor tokens jwt = \<lparr>AuthInterceptor_tokens = tokens, AuthInterceptor_jwt = jwt\<rparr>"

definition AuthInterceptor_Unary :: "AuthInterceptor \<Rightarrow> UnaryInterceptor" where
  "AuthInterceptor_Unary i fullMethod handler ctx req =
     (let header = authorizationHeader ctx
      in if header = '''' then handler ctx req
         else if \<not> HasPrefix header ''Bearer ''
         then throw (Status codes_Unauthenticated ''invalid authorization header'')
         else let tokenString = TrimSpace (TrimPrefix header ''Bearer '')
              in if tokenString = '''' then throw (Status codes_Unauthenticated ''empty bearer token'')
                 else (\<lambda>w. (case TokenManager_Parse (AuthInterceptor_jwt i) (AuthInterceptor_tokens i)
                                   tokenString (clock w) of
                        Inl err \<Rightarrow> throw (Status codes_Unauthenticated ''invalid token'')
                      | Inr claims \<Rightarrow>
                          (let role = Claims_Role claims
                           in if \<not> Role_IsValid role
                              then throw (Status codes_Unauthenticated ''invalid token role'')
                              else handler (ctx\<lparr>rpc_values := ContextWithUser (rpc_values ctx)
                                     \<lparr>Principal_UserID = Claims_UserID claims,
                                      Principal_Email = Claims_Email claims,
                                      Principal_Role = role\<rparr>\<rparr>) req)) w))"

section \<open>metrics_interceptor.go\<close>

text \<open>The duration it observes is not modelled.\<close>

definition MetricsInterceptor_Unary :: UnaryInterceptor where
  "MetricsInterceptor_Unary fullMethod handler ctx req w =
     (case handler ctx req w of (res, w1) \<Rightarrow>
        (res, snd (metric_inc ''grpc_requests_total'' [fullMethod, code_String (grpc_Code res)] w1)))"

section \<open>authz.go\<close>

definition requirePrincipal :: "rpc_context \<Rightarrow> status + Principal" where
  "requirePrincipal ctx =
     (case PrincipalFromContext (rpc_values ctx) of
        None \<Rightarrow> Inl (Status codes_Unauthenticated ''unauthenticated'')
      | Some prin \<Rightarrow> Inr prin)"

text \<open>The error, or none.\<close>

definition requireRole :: "rpc_context \<Rightarrow> Role list \<Rightarrow> status option" where
  "requireRole ctx roles =
     (case requirePrincipal ctx of
        Inl err \<Rightarrow> Some err
      | Inr prin \<Rightarrow> if Principal_Role prin \<in> set roles then None
                   else Some (Status codes_PermissionDenied ''permission denied''))"

definition requireSelfOrRole :: "rpc_context \<Rightarrow> int \<Rightarrow> Role list \<Rightarrow> status option" where
  "requireSelfOrRole ctx resourceUserID roles =
     (case requirePrincipal ctx of
        Inl err \<Rightarrow> Some err
      | Inr prin \<Rightarrow> if Principal_Role prin \<in> set roles then None
                   else if Principal_UserID prin = resourceUserID then None
                   else Some (Status codes_PermissionDenied ''permission denied''))"

section \<open>user_service.go\<close>

record UserReader =
  UserReader_GetUser :: "int \<Rightarrow> User prog"
  UserReader_ListUsers :: "ListUsersInput \<Rightarrow> ListUsersOutput prog"

definition userToProto :: "User \<Rightarrow> pb_User" where
  "userToProto usr =
     \<lparr>pb_Id = User_ID usr, pb_Name = User_Name usr, pb_Email = User_Email usr, pb_Age = User_Age usr,
      pb_Role = User_Role usr, pb_CreatedAt = timestamppb_New (User_CreatedAt usr),
      pb_UpdatedAt = timestamppb_New (User_UpdatedAt usr)\<rparr>"

definition toGRPCError :: "go_error \<Rightarrow> status" where
  "toGRPCError err =
     (case errors_As is_PublicError err of
        Some (PublicError st code message e) \<Rightarrow>
          Status (if st = 400 then codes_InvalidArgument
                  else if st = 401 then codes_Unauthenticated
                  else if st = 403 then codes_PermissionDenied
                  else if st = 404 then codes_NotFound
                  else if st = 409 then codes_AlreadyExists
                  else codes_Internal) message
      | _ \<Rightarrow> Status codes_Internal ''internal error'')"

text \<open>\<open>v, err := call(); if err != nil { return nil, toGRPCError(err) }\<close>\<close>

definition reading :: "'a prog \<Rightarrow> ('a \<Rightarrow> 'b grpc) \<Rightarrow> 'b grpc" where
  "reading m k w =
     (case m w of (Inl err, w1) \<Rightarrow> throw (toGRPCError err) w1 | (Inr a, w1) \<Rightarrow> k a w1)"

definition UserService_GetUser :: "UserReader \<Rightarrow> rpc_context \<Rightarrow> int \<Rightarrow> rpc_response grpc" where
  "UserService_GetUser rdr ctx i =
     (if i \<le> 0 then throw (Status codes_InvalidArgument ''invalid user id'')
      else case requireSelfOrRole ctx i [RoleAdmin] of
          Some err \<Rightarrow> throw err
        | None \<Rightarrow> reading (UserReader_GetUser rdr i) (\<lambda>usr. ret (GetUserResponse (userToProto usr))))"

definition UserService_ListUsers :: "UserReader \<Rightarrow> rpc_context \<Rightarrow> pb_ListUsers \<Rightarrow> rpc_response grpc" where
  "UserService_ListUsers rdr ctx req =
     (case requireRole ctx [RoleAdmin] of
        Some err \<Rightarrow> throw err
      | None \<Rightarrow>
          (let limit = (if pb_Limit req = 0 then 20 else pb_Limit req)
           in if limit < 0 \<or> limit > 100
              then throw (Status codes_InvalidArgument ''limit must be between 1 and 100'')
              else if pb_Offset req < 0
              then throw (Status codes_InvalidArgument ''offset must be greater than or equal to 0'')
              else reading (UserReader_ListUsers rdr
                     \<lparr>ListUsersInput_Limit = limit, ListUsersInput_Offset = pb_Offset req,
                      ListUsersInput_Email = pb_ListEmail req, ListUsersInput_Sort = pb_Sort req\<rparr>) (\<lambda>lst.
                   ret (ListUsersResponse (map userToProto (ListUsersOutput_Users lst))
                         (ListUsersOutput_Total lst)))))"

section \<open>initGRPCModule\<close>

definition FullMethod :: "rpc_request \<Rightarrow> string" where
  "FullMethod req =
     (case req of GetUserRequest i \<Rightarrow> ''/api.user.v1.UserService/GetUser''
      | ListUsersCall l \<Rightarrow> ''/api.user.v1.UserService/ListUsers'')"

text \<open>\<open>RegisterUserServiceServer\<close>: the method of the request.\<close>

definition UserService_handler :: "UserReader \<Rightarrow> UnaryHandler" where
  "UserService_handler rdr ctx req =
     (case req of GetUserRequest i \<Rightarrow> UserService_GetUser rdr ctx i
      | ListUsersCall l \<Rightarrow> UserService_ListUsers rdr ctx l)"

text \<open>\<open>grpc.ChainUnaryInterceptor\<close>: the first is the outermost.\<close>

definition ChainUnaryInterceptor :: "UnaryInterceptor list \<Rightarrow> string \<Rightarrow> UnaryHandler \<Rightarrow> UnaryHandler" where
  "ChainUnaryInterceptor is fullMethod handler = foldr (\<lambda>i next. i fullMethod next) is handler"

definition service_reader :: "user_Service \<Rightarrow> UserReader" where
  "service_reader s = \<lparr>UserReader_GetUser = GetUser s, UserReader_ListUsers = ListUsers s\<rparr>"

definition app_interceptor :: "libs \<Rightarrow> Config \<Rightarrow> AuthInterceptor" where
  "app_interceptor L cfg = NewAuthInterceptor (app_tokens cfg) (env_jwt (lib_auth L))"

text \<open>A call as the server takes it: the context has the metadata and no values yet.\<close>

type_synonym metadata = "(string \<times> string list) list"

definition grpc_serve :: "AuthInterceptor \<Rightarrow> UserReader \<Rightarrow> metadata \<Rightarrow> rpc_request \<Rightarrow> rpc_response grpc" where
  "grpc_serve i rdr md req =
     ChainUnaryInterceptor [MetricsInterceptor_Unary, AuthInterceptor_Unary i]
       (FullMethod req) (UserService_handler rdr) \<lparr>rpc_metadata = md, rpc_values = background\<rparr> req"

definition initGRPCModule :: "libs \<Rightarrow> Config \<Rightarrow> metadata \<Rightarrow> rpc_request \<Rightarrow> rpc_response grpc" where
  "initGRPCModule L cfg = grpc_serve (app_interceptor L cfg) (service_reader (app_user_service L cfg))"

section \<open>The caller of a method\<close>

text \<open>Whom the metadata of a call names at a time: nobody, a principal, or an error.\<close>

definition rpc_bearer :: "AuthInterceptor \<Rightarrow> rpc_context \<Rightarrow> int \<Rightarrow> status + Principal option" where
  "rpc_bearer i ctx now =
     (let header = authorizationHeader ctx;
          tokenString = TrimSpace (TrimPrefix header ''Bearer '')
      in if header = '''' then Inr None
         else if \<not> HasPrefix header ''Bearer ''
         then Inl (Status codes_Unauthenticated ''invalid authorization header'')
         else if tokenString = '''' then Inl (Status codes_Unauthenticated ''empty bearer token'')
         else case TokenManager_Parse (AuthInterceptor_jwt i) (AuthInterceptor_tokens i) tokenString now of
             Inl err \<Rightarrow> Inl (Status codes_Unauthenticated ''invalid token'')
           | Inr claims \<Rightarrow>
               if \<not> Role_IsValid (Claims_Role claims)
               then Inl (Status codes_Unauthenticated ''invalid token role'')
               else Inr (Some \<lparr>Principal_UserID = Claims_UserID claims,
                   Principal_Email = Claims_Email claims, Principal_Role = Claims_Role claims\<rparr>))"

definition as_caller :: "rpc_context \<Rightarrow> Principal option \<Rightarrow> rpc_context" where
  "as_caller ctx who = (case who of None \<Rightarrow> ctx
     | Some p \<Rightarrow> ctx\<lparr>rpc_values := ContextWithUser (rpc_values ctx) p\<rparr>)"

lemma AuthInterceptor_bearer:
  "AuthInterceptor_Unary i m handler ctx req w =
     (case rpc_bearer i ctx (clock w) of
        Inl st \<Rightarrow> (Inl st, w) | Inr who \<Rightarrow> handler (as_caller ctx who) req w)"
  by (auto simp: AuthInterceptor_Unary_def rpc_bearer_def as_caller_def Let_def throw_def split: sum.splits)

lemma caller_as_caller [simp]:
  "PrincipalFromContext (rpc_values (as_caller \<lparr>rpc_metadata = md, rpc_values = background\<rparr> who)) = who"
  by (simp add: as_caller_def PrincipalFromContext_def ContextWithUser_def background_def split: option.split)

text \<open>A call in two steps: the answer, and the count of its code.\<close>

definition rpc_answer :: "AuthInterceptor \<Rightarrow> UserReader \<Rightarrow> metadata \<Rightarrow> rpc_request \<Rightarrow> rpc_response grpc" where
  "rpc_answer i rdr md req w =
     (let ctx = \<lparr>rpc_metadata = md, rpc_values = background\<rparr>
      in case rpc_bearer i ctx (clock w) of
           Inl st \<Rightarrow> (Inl st, w)
         | Inr who \<Rightarrow> UserService_handler rdr (as_caller ctx who) req w)"

definition count_rpc :: "rpc_request \<Rightarrow> grpc_code \<Rightarrow> world \<Rightarrow> world" where
  "count_rpc req code w = snd (metric_inc ''grpc_requests_total'' [FullMethod req, code_String code] w)"

lemma grpc_serve_answer:
  "grpc_serve i rdr md req w =
     (case rpc_answer i rdr md req w of (res, w1) \<Rightarrow> (res, count_rpc req (grpc_Code res) w1))"
  by (simp add: grpc_serve_def ChainUnaryInterceptor_def MetricsInterceptor_Unary_def AuthInterceptor_bearer
      rpc_answer_def count_rpc_def Let_def)

abbreviation rpc_counts :: "world \<Rightarrow> string list \<Rightarrow> nat" where
  "rpc_counts \<equiv> counts_of ''grpc_requests_total''"

lemma count_rpc_views [simp]:
  "db (count_rpc req code w) = db w" "plan (count_rpc req code w) = plan w"
  "rpc_counts (count_rpc req code w) =
     (rpc_counts w)([FullMethod req, code_String code] := rpc_counts w [FullMethod req, code_String code] + 1)"
  by (simp_all add: count_rpc_def count_inc) (simp_all add: metric_inc_def modify_def)

lemma frame_reading [frame_intros]:
  "frame v m \<Longrightarrow> (\<And>a. frame v (k a)) \<Longrightarrow> frame v (reading m k)"
  unfolding frame_def reading_def by (simp add: split_beta throw_def split: sum.splits)

lemma reading_InrE:
  assumes "reading m k w = (Inr b, w')"
  obtains a w1 where "m w = (Inr a, w1)" "k a w1 = (Inr b, w')"
  using assms by (auto simp: reading_def throw_def split: prod.splits sum.splits)

text \<open>The interface \<open>UserReader\<close>: its operations read the tables and count no call.\<close>

locale user_reader =
  fixes rdr :: UserReader
  assumes reader_db: "frame db (UserReader_GetUser rdr i)" "frame db (UserReader_ListUsers rdr inp)"
    and reader_counts: "frame rpc_counts (UserReader_GetUser rdr i)" "frame rpc_counts (UserReader_ListUsers rdr inp)"
begin

lemma handler_frames:
  "frame db (UserService_handler rdr ctx req)" "frame rpc_counts (UserService_handler rdr ctx req)"
  unfolding UserService_handler_def UserService_GetUser_def UserService_ListUsers_def Let_def
  by (cases req; simp only: rpc_request.case; intro frame_intros reader_db reader_counts)+

lemma serve_counted:
  assumes "grpc_serve i rdr md req w = (res, w')"
  shows "db w' = db w \<and> rpc_counts w' = (rpc_counts w)
    ([FullMethod req, code_String (grpc_Code res)] := rpc_counts w [FullMethod req, code_String (grpc_Code res)] + 1)"
proof -
  obtain r w1 where 1: "rpc_answer i rdr md req w = (r, w1)" by (rule prod.exhaust)
  with assms have e: "res = r" "w' = count_rpc req (grpc_Code res) w1" by (auto simp: grpc_serve_answer)
  have "db w1 = db w" "rpc_counts w1 = rpc_counts w"
    using 1 frameD [OF handler_frames(1)] frameD [OF handler_frames(2)]
    by (auto simp: rpc_answer_def Let_def split: sum.splits)
  with e show ?thesis by simp
qed

end

lemma rpc_bearer_role: "rpc_bearer i ctx now = Inr (Some p) \<Longrightarrow> Role_IsValid (Principal_Role p)"
  by (auto simp: rpc_bearer_def Let_def split: if_splits sum.splits)

lemma answer_authorized:
  assumes "rpc_answer i rdr md req w = (Inr a, w')"
  obtains p where "rpc_bearer i \<lparr>rpc_metadata = md, rpc_values = background\<rparr> (clock w) = Inr (Some p)"
    "Role_IsValid (Principal_Role p)"
    "Principal_Role p = RoleAdmin \<or> req = GetUserRequest (Principal_UserID p)"
proof -
  let ?ctx = "\<lparr>rpc_metadata = md, rpc_values = background\<rparr>"
  from assms obtain who where b: "rpc_bearer i ?ctx (clock w) = Inr who"
    and h: "UserService_handler rdr (as_caller ?ctx who) req w = (Inr a, w')"
    by (auto simp: rpc_answer_def Let_def split: sum.splits)
  obtain p where p: "who = Some p" "Principal_Role p = RoleAdmin \<or> req = GetUserRequest (Principal_UserID p)"
  proof (cases who)
    case None
    with h show ?thesis
      by (cases req) (simp_all add: UserService_handler_def UserService_GetUser_def UserService_ListUsers_def
          requireSelfOrRole_def requireRole_def requirePrincipal_def throw_def split: if_splits)
  next
    case (Some p)
    with h that show ?thesis
      by (cases req) (auto simp: UserService_handler_def UserService_GetUser_def UserService_ListUsers_def
          requireSelfOrRole_def requireRole_def requirePrincipal_def throw_def split: if_splits)
  qed
  with b that rpc_bearer_role show ?thesis by blast
qed

section \<open>The user service as the reader\<close>

interpretation app_reader: user_reader "service_reader (app_user_service L cfg)"
  by (unfold_locales, unfold service_reader_def UserReader.simps app_user_service_def)
    (rule pguser.reading_operations user_counts [OF uncached_totals(2) refl])+

section \<open>What a call answers\<close>

text \<open>
  C9: Reading over gRPC. Whatever the call, the token and the faults of the services are, a call
  changes no table and is counted once, under its method and the code of its answer; and it
  answers with data only for a token the manager accepts at that time, of a valid role, which is
  ADMIN or, for \<open>GetUser\<close> only, of the user asked for.
\<close>

theorem grpc_reads_authorized:
  assumes "initGRPCModule L cfg md req w = (res, w')"
  shows "db w' = db w \<and>
    rpc_counts w' = (rpc_counts w)([FullMethod req, code_String (grpc_Code res)] :=
      rpc_counts w [FullMethod req, code_String (grpc_Code res)] + 1) \<and>
    (\<forall>a. res = Inr a \<longrightarrow> (\<exists>p. Role_IsValid (Principal_Role p) \<and>
       rpc_bearer (app_interceptor L cfg) \<lparr>rpc_metadata = md, rpc_values = background\<rparr> (clock w) = Inr (Some p) \<and>
       (Principal_Role p = RoleAdmin \<or> req = GetUserRequest (Principal_UserID p))))"
proof (intro conjI allI impI)
  note run = assms [unfolded initGRPCModule_def]
  from app_reader.serve_counted [OF run] show "db w' = db w"
    and "rpc_counts w' = (rpc_counts w)([FullMethod req, code_String (grpc_Code res)] :=
      rpc_counts w [FullMethod req, code_String (grpc_Code res)] + 1)" by simp_all
  fix a assume "res = Inr a"
  with run obtain w1 where "rpc_answer (app_interceptor L cfg) (service_reader (app_user_service L cfg)) md req w =
      (Inr a, w1)" by (auto simp: grpc_serve_answer split: prod.splits)
  from answer_authorized [OF this] show "\<exists>p. Role_IsValid (Principal_Role p) \<and>
       rpc_bearer (app_interceptor L cfg) \<lparr>rpc_metadata = md, rpc_values = background\<rparr> (clock w) = Inr (Some p) \<and>
       (Principal_Role p = RoleAdmin \<or> req = GetUserRequest (Principal_UserID p))" by blast
qed

text \<open>\<open>GetUser\<close> as a function of the caller and the table, with the errors in the order of the code.\<close>

definition get_user_spec :: "status + Principal option \<Rightarrow> int \<Rightarrow> User list \<Rightarrow> status + rpc_response" where
  "get_user_spec caller i us =
     (case caller of Inl st \<Rightarrow> Inl st
      | Inr who \<Rightarrow>
          if i \<le> 0 then Inl (Status codes_InvalidArgument ''invalid user id'')
          else case who of
              None \<Rightarrow> Inl (Status codes_Unauthenticated ''unauthenticated'')
            | Some p \<Rightarrow>
                if Principal_Role p \<noteq> RoleAdmin \<and> Principal_UserID p \<noteq> i
                then Inl (Status codes_PermissionDenied ''permission denied'')
                else case find (\<lambda>u. User_ID u = i) us of
                    None \<Rightarrow> Inl (Status codes_NotFound ''User not found'')
                  | Some u \<Rightarrow> Inr (GetUserResponse (userToProto u)))"

text \<open>Rows whose texts are UTF-8, which is all a PostgreSQL database in that encoding stores.\<close>

definition utf8_rows :: "User list \<Rightarrow> bool" where
  "utf8_rows = list_all (\<lambda>u. utf8_valid (User_Name u) \<and> utf8_valid (User_Email u) \<and> utf8_valid (User_Role u))"

lemma proto_views:
  "userToProto (scan_user u) = userToProto u"
  "utf8_rows us \<Longrightarrow> u \<in> set us \<Longrightarrow> userToProto (cache_view u) = userToProto u"
  by (simp_all add: userToProto_def scan_user_def cache_view_def utf8_rows_def list_all_iff)

lemma app_cache_get_empty:
  assumes "plan w = []"
  obtains r w1 where "Cache_GetUser (app_cache timeout errText) i w = (r, w1)"
    "plan w1 = []" "db w1 = db w" "\<And>u. r = Inr (u, True) \<Longrightarrow> app_look timeout errText w i = Some u"
proof -
  obtain r w1 where 1: "Cache_GetUser (app_cache timeout errText) i w = (r, w1)" by (rule prod.exhaust)
  have "plan w1 = []" using 1 assms
    by (auto simp: app_cache_def NewObservedCache_def ObservedCache_GetUser_def redis_cache_def
        RedisCache_GetUser_def redis_Get_def external_empty metrics_CacheObserver_def attempt_def andThen_def
        ret_def throw_def metric_inc_def modify_def split: option.splits sum.splits if_splits prod.splits)
  moreover have "db w1 = db w" by (rule frameD [OF app_cache.cache_frames(1) 1])
  moreover have "app_look timeout errText w i = Some u" if "r = Inr (u, True)" for u
    using app_cache.get_Inr [OF 1 [unfolded that]] by simp
  ultimately show ?thesis using that 1 by blast
qed


lemma GetUser_answer:
  assumes "plan w = []" and c: "cache_coherent_at (app_look timeout errText) i w" and i: "0 < i"
  shows "case fst (GetUser (app_user pg hasher env timeout errText ttl) i w) of
      Inl e \<Rightarrow> e = NewUserNotFoundError \<and> find (\<lambda>u. User_ID u = i) (users (db w)) = None
    | Inr v \<Rightarrow> answers i v w"
proof -
  obtain r w1 where 1: "Cache_GetUser (app_cache timeout errText) i w = (r, w1)" "plan w1 = []" "db w1 = db w"
    and hit: "\<And>u. r = Inr (u, True) \<Longrightarrow> app_look timeout errText w i = Some u"
    using app_cache_get_empty [where timeout = timeout and errText = errText and i = i, OF assms(1)] by metis
  show ?thesis
  proof (cases "\<exists>u. r = Inr (u, True)")
    case True
    then obtain u where u: "r = Inr (u, True)" by blast
    with i 1 have "fst (GetUser (app_user pg hasher env timeout errText ttl) i w) = Inr u"
      by (simp add: GetUser_def pg_user_simps attempt_def Let_def ret_def)
    moreover have "answers i u w"
      using hit [OF u] c by (auto simp: cache_coherent_at_def answers_def)
    ultimately show ?thesis by simp
  next
    case False
    then have "fst (GetUser (app_user pg hasher env timeout errText ttl) i w) =
        (case find (\<lambda>u. User_ID u = i) (users (db w)) of
           None \<Rightarrow> Inl NewUserNotFoundError | Some u \<Rightarrow> Inr (scan_user u))"
      using i 1 by (cases r)
        (auto simp: GetUser_def pg_user_simps attempt_def Let_def ret_def mapErr_def andThen_def FindByID_ok
          split: option.split prod.split)
    then show ?thesis by (simp add: answers_def split: option.split)
  qed
qed



section \<open>A call against a concrete application\<close>

definition sample_metadata :: metadata where
  "sample_metadata = [(''authorization'', [''Bearer header.claims.mac''])]"

lemma sample_caller:
  "rpc_bearer (app_interceptor sample_libs sample_settings)
     \<lparr>rpc_metadata = sample_metadata, rpc_values = background\<rparr> 0 =
     Inr (Some \<lparr>Principal_UserID = 9, Principal_Email = ''a@b.c'', Principal_Role = RoleAdmin\<rparr>)"
proof -
  let ?h = "''Bearer header.claims.mac''"
  have t: "TrimSpace ?h = ?h" "TrimSpace (TrimPrefix ?h ''Bearer '') = ''header.claims.mac''"
    "HasPrefix ?h ''Bearer ''" by code_simp+
  have h: "authorizationHeader \<lparr>rpc_metadata = sample_metadata, rpc_values = background\<rparr> = ?h"
    by (simp add: authorizationHeader_def ValueFromIncomingContext_def sample_metadata_def t)
  show ?thesis
    by (simp add: rpc_bearer_def h t app_interceptor_def NewAuthInterceptor_def sample_libs_def sample_parse)
      (simp add: sample_admin_claims_def sample_auth_claims_def Role_IsValid_def)
qed

lemma sample_utf8: "utf8_rows (users (db sample_member))"
proof -
  have "utf8_valid ''Ann'' \<and> utf8_valid ''a@b.c'' \<and> utf8_valid ''USER''" by code_simp
  then show ?thesis by (simp add: utf8_rows_def sample_user_def RoleUser_def)
qed


theorem grpc_reads_authorized_witness:
  "db (snd (initGRPCModule sample_libs sample_settings sample_metadata (GetUserRequest 1) sample_member)) =
     db sample_member"
  using grpc_reads_authorized [OF prod.collapse [symmetric]] by blast

end
