(* ===== verification/Effects.thy ===== *)
theory Effects
  imports Requests Grpc_Api
begin

text \<open>
  What a request leaves behind, operation by operation: the tables of the consumer stay, the outbox
  grows by new events only, and every user that appears is announced by one of them. The operations
  of the two services are covered here from their own lemmas; \<open>Whole_System\<close> lifts the result to
  whole requests and calls.
\<close>

section \<open>What a request does to the tables\<close>

text \<open>
  The events of the consumer stay, the outbox grows by new events only, and every user that
  appears is announced by one of them.
\<close>

definition announces_user :: "int \<Rightarrow> OutboxEvent \<Rightarrow> bool" where
  "announces_user i ev \<longleftrightarrow> OutboxEvent_EventType ev = EventTypeUserRegistered \<and> OutboxEvent_AggregateID ev = FormatInt i"

definition request_effect :: "tables \<Rightarrow> tables \<Rightarrow> bool" where
  "request_effect d d' \<longleftrightarrow>
     processed_kafka_events d' = processed_kafka_events d \<and> user_audit_events d' = user_audit_events d \<and>
     (\<exists>evs. outbox_events d' = outbox_events d @ evs \<and> (\<forall>ev \<in> set evs. OutboxEvent_Status ev = StatusNew) \<and>
        (\<forall>i \<in> set (map User_ID (users d')) - set (map User_ID (users d)). \<exists>ev \<in> set evs. announces_user i ev))"

lemma request_effect_refl: "request_effect d d"
  by (simp add: request_effect_def)

definition visible :: "world \<Rightarrow> int list \<times> OutboxEvent list \<times> ProcessedRow list \<times> UserAuditEvent list" where
  "visible w = (map User_ID (users (db w)), outbox_events (db w), processed_kafka_events (db w), user_audit_events (db w))"

lemma visible_effect: "visible w' = visible w \<Longrightarrow> request_effect (db w) (db w')"
  by (auto simp: request_effect_def visible_def)

lemma visible_frame: "frame visible m \<Longrightarrow> request_effect (db w) (db (snd (m w)))"
  by (intro visible_effect) (simp add: frame_def)

lemma visible_db: "frame db m \<Longrightarrow> frame visible m"
  by (simp add: frame_def visible_def)

lemma visible_update [simp]:
  "visible (w\<lparr>clock := cl, plan := p\<rparr>) = visible w" "visible (w\<lparr>tx := t\<rparr>) = visible w"
  by (simp_all add: visible_def)

text \<open>The statements that write without being seen there: those on the tokens, and an update of a user.\<close>

lemma visible_stmts:
  "frame visible (insert_refresh_tokens t)" "frame visible (revoke_refresh_token i)" "frame visible (update_users n m a i)"
  by (auto simp: frame_def visible_def insert_refresh_tokens_def revoke_refresh_token_def update_users_def Let_def
      map_update_where split: option.split)

lemma visible_tokens:
  "frame visible (RefreshTokenStore_CreateRefreshToken NewRefreshTokenRepository t)"
  "frame visible (RefreshTokenStore_FindRefreshTokenByHash NewRefreshTokenRepository h)"
  "frame visible (RefreshTokenStore_RevokeRefreshToken NewRefreshTokenRepository i)"
proof -
  have s: "frame visible (select_refresh_token h)"
    by (rule visible_db) (auto simp: frame_def select_refresh_token_def split: option.split)
  show "frame visible (RefreshTokenStore_CreateRefreshToken NewRefreshTokenRepository t)"
    "frame visible (RefreshTokenStore_FindRefreshTokenByHash NewRefreshTokenRepository h)"
    "frame visible (RefreshTokenStore_RevokeRefreshToken NewRefreshTokenRepository i)"
    unfolding NewRefreshTokenRepository_def RefreshTokenStore.simps RefreshTokenRepository_CreateRefreshToken_def
      RefreshTokenRepository_FindRefreshTokenByHash_def RefreshTokenRepository_RevokeRefreshToken_def
    by (intro frame_intros visible_stmts s visible_update)+
qed

lemma visible_issue: "frame visible (issueTokenPairWithStore s NewRefreshTokenRepository u)"
proof -
  have "frame visible (\<lambda>w. RefreshTokenStore_CreateRefreshToken NewRefreshTokenRepository (f w) w)" for f
    using visible_tokens(1) by (simp add: frame_def)
  then show ?thesis unfolding issueTokenPairWithStore_def
    by (intro frame_intros visible_db [OF frame_Generate(1)] token_Generate_only)
qed

section \<open>The operations of the services\<close>

definition request_effects :: "'a prog \<Rightarrow> bool" where
  "request_effects m \<longleftrightarrow> (\<forall>w. request_effect (db w) (db (snd (m w))))"

lemma effects_visible: "frame visible m \<Longrightarrow> request_effects m"
  by (simp add: request_effects_def visible_frame)

lemma effects_created:
  assumes "users d' = users d @ [row]" "outbox_events d' = outbox_events d @ [ev]"
    and "processed_kafka_events d' = processed_kafka_events d" "user_audit_events d' = user_audit_events d"
    and "OutboxEvent_Status ev = StatusNew" "OutboxEvent_EventType ev = EventTypeUserRegistered"
      "OutboxEvent_AggregateID ev = FormatInt (User_ID row)"
  shows "request_effect d d'"
  using assms by (auto simp: request_effect_def announces_user_def)

lemma auth_effects:
  assumes s: "s = pg_auth pg hasher tokens ttl env"
  shows "request_effects (auth_Register s rr)" "request_effects (auth_Login s lr)" "request_effects (auth_Refresh s fr)"
    "request_effects (auth_Logout s lo)" "request_effects (auth_Me s i)"
proof -
  have r: "frame visible (Repository_FindByID (user_NewPostgresRepository pg) i)"
    "frame visible (Repository_FindByEmail (user_NewPostgresRepository pg) m)" for i m
    by (rule visible_db, rule pg_users.readers)+
  have tx: "frame visible (refresh_tx s h (pgauth.stores pg))" for h
  proof -
    have st: "frame visible (\<lambda>w. if b (clock w) then m w else k w)" if "frame visible m" "frame visible k"
      for b and m k :: "AuthResponse prog" using that by (simp add: frame_def)
    show ?thesis unfolding refresh_tx_def TxStores.simps
      by (intro frame_intros st visible_tokens visible_issue r)
  qed
  show "request_effects (auth_Register s rr)"
    unfolding request_effects_def
  proof
    fix w
    obtain res w' where run: "auth_Register s rr w = (res, w')" by (rule prod.exhaust)
    from register_outcome [OF run [unfolded s]] have "request_effect (db w) (db w')"
    proof (elim disjE exE conjE)
      fix resp assume "registration env hasher rr (db w) (db w') resp"
      then show ?thesis by (auto simp: registration_def intro!: effects_created)
    next
      fix resp assume "registration env hasher rr (db w) (db w') resp"
      then show ?thesis by (auto simp: registration_def intro!: effects_created)
    qed (simp add: request_effect_refl)
    then show "request_effect (db w) (db (snd (auth_Register s rr w)))" by (simp add: run)
  qed
  show "request_effects (auth_Refresh s fr)"
    unfolding request_effects_def
  proof
    fix w
    let ?b = "refresh_tx s (RefreshTokenManager_Hash (env_sha256 (auth_lib s)) (RefreshRequest_RefreshToken fr)) (pgauth.stores pg)"
    obtain res w' where run: "auth_run ?b w = (res, w')" by (rule prod.exhaust)
    have eq: "auth_Refresh s fr w = (res, w')"
      using run by (simp add: auth_Refresh_def s auth_WithinTx_def auth_run_def Let_def)
    have fr: "frame tx ?b" unfolding s by (rule db_only_frames(1) [OF pgauth.refresh_tx_only(1)])
    from auth_tx.all_or_nothing [OF fr run] show "request_effect (db w) (db (snd (auth_Refresh s fr w)))"
    proof (elim disjE exE conjE)
      fix c p a w1 assume b: "?b (started c p w) = (Inr a, w1)" and d: "db w' = db w1"
      have "visible w1 = visible w" using frameD [OF tx b] by (simp add: started_def)
      with d show ?thesis unfolding eq snd_conv d by (rule_tac visible_effect)
    qed (simp add: eq request_effect_refl)
  qed
  show "request_effects (auth_Login s lr)" "request_effects (auth_Logout s lo)" "request_effects (auth_Me s i)"
    unfolding auth_Login_def auth_Logout_def auth_Me_def issueTokenPair_def Let_def s pg_auth_simps
    by (intro effects_visible frame_intros r visible_tokens visible_issue)+
qed


lemma user_effects:
  assumes s: "s = app_user pg hasher env timeout errText ttl"
  shows "request_effects (CreateUser s cu)" "request_effects (CreateUserWithProfile s cp)" "request_effects (GetUser s i)"
    "request_effects (ListUsers s li)" "request_effects (UpdateUser s i uu)" "request_effects (DeleteUser s i)"
    "request_effects (GetUserByEmail s m)"
proof -
  have created: "request_effect d d'" if "user_created env' n m a h bs d d' u ps" for env' n m a h bs d d' u ps
    using that by (auto simp: user_created_def announces_def intro!: effects_created)
  show "request_effects (CreateUser s cu)"
    unfolding request_effects_def
  proof
    fix w
    obtain res w' where run: "CreateUser s cu w = (res, w')" by (rule prod.exhaust)
    from run [unfolded s] have "request_effect (db w) (db w')"
      by (cases rule: pguser.CreateUser_cases) (auto simp: request_effect_refl intro: created)
    then show "request_effect (db w) (db (snd (CreateUser s cu w)))" by (simp add: run)
  qed
  show "request_effects (CreateUserWithProfile s cp)"
    unfolding request_effects_def
  proof
    fix w
    obtain res w' where run: "CreateUserWithProfile s cp w = (res, w')" by (rule prod.exhaust)
    from run [unfolded s] have "request_effect (db w) (db w')"
      by (cases rule: pguser.CreateUserWithProfile_cases) (auto simp: request_effect_refl intro: created)
    then show "request_effect (db w) (db (snd (CreateUserWithProfile s cp w)))" by (simp add: run)
  qed
  show "request_effects (GetUser s i)" "request_effects (ListUsers s li)" "request_effects (GetUserByEmail s m)"
    unfolding s by (intro effects_visible visible_db pguser.reading_operations)+
  have r: "frame visible (Repository_FindByID (user_NewPostgresRepository pg) i)"
    "frame visible (Repository_ExistsByEmail (user_NewPostgresRepository pg) m)" for i m
    by (rule visible_db, rule pg_users.readers)+
  have u: "frame visible (Repository_Update (user_NewPostgresRepository pg) u)" for u
    unfolding user_NewPostgresRepository_def Repository.simps user_PostgresRepository_Update_def
    by (intro frame_intros visible_stmts visible_update)
  have c: "frame visible (Cache_DeleteUser (app_cache timeout errText) i)"
    by (rule visible_db [OF app_cache.cache_frames(3)])
  have v: "frame visible (validateUserInput pa n m a)" for pa n m a
    unfolding validateUserInput_def Let_def by (intro frame_intros)
  show "request_effects (UpdateUser s i uu)"
    unfolding UpdateUser_def invalidate_def Let_def s pg_user_simps option.case
    by (intro effects_visible frame_intros r u c v)
  show "request_effects (DeleteUser s i)"
    unfolding request_effects_def
  proof
    fix w :: world
    let ?K = "\<lambda>w'. request_effect (db w) (db w')"
    have k: "keeps ?K m" if "frame db m" for m :: "'x prog"
      by (rule frame_keeps [where v = db and J = "request_effect (db w)", OF that])
    have del: "keeps ?K (delete_users j)" for j
      by (auto simp: keeps_def delete_users_def request_effect_def)
    have rd: "keeps ?K (Repository_Delete (user_NewPostgresRepository pg) j)" for j
      unfolding user_NewPostgresRepository_def Repository.simps user_PostgresRepository_Delete_def
      by (intro keeps_intros del) (simp add: timeless_def)
    have c: "keeps ?K (Cache_DeleteUser (app_cache timeout errText) i)"
      by (rule k [OF app_cache.cache_frames(3)])
    have "keeps ?K (DeleteUser s i)"
      unfolding DeleteUser_def invalidate_def s pg_user_simps option.case
      by (intro keeps_intros rd c)
    then show "request_effect (db w) (db (snd (DeleteUser s i w)))"
      by (rule keeps_snd) (rule request_effect_refl)
  qed
qed

end
