(* ===== verification/Kafka_Consumer.thy ===== *)
theory Kafka_Consumer
  imports Auth_Service
begin

text \<open>
  internal/kafkaconsumer and internal/audit: the stores of processed events and of audit
  events with their statements, the transaction of the consumer, the router, the handler of
  user.registered, and the consumer that turns records into events, handles each event once and
  commits its offset. \<open>proto.Unmarshal\<close>, the normal form in which PostgreSQL keeps jsonb, and
  \<open>kgo.NewClient\<close> are parameters.
\<close>

section \<open>Stores\<close>

record IdempotencyStore =
  IdempotencyStore_WasProcessed :: "string \<Rightarrow> bool prog"
  IdempotencyStore_MarkProcessed :: "KafkaEvent \<Rightarrow> unit prog"

record audit_Store =
  audit_CreateUserAuditEvent :: "UserAuditEvent \<Rightarrow> UserAuditEvent prog"
  audit_CountBySourceEventID :: "string \<Rightarrow> int prog"

definition select_processed :: "string \<Rightarrow> unit prog" where
  "select_processed eventID w =
     (if eventID \<in> set (map ProcessedRow_EventID (processed_kafka_events (db w))) then (Inr (), w)
      else (Inl (Sentinel PgxErrNoRows), w))"

text \<open>\<open>INSERT INTO processed_kafka_events ... ON CONFLICT (event_id) DO NOTHING\<close>\<close>

definition insert_processed :: "KafkaEvent \<Rightarrow> unit prog" where
  "insert_processed e w =
     (let row = \<lparr>ProcessedRow_EventID = KafkaEvent_EventID e, ProcessedRow_Topic = KafkaEvent_Topic e,
                 ProcessedRow_Partition = KafkaEvent_Partition e, ProcessedRow_Offset = KafkaEvent_Offset e,
                 ProcessedRow_EventType = KafkaEvent_EventType e, ProcessedRow_ProcessedAt = pg_now w\<rparr>
      in if KafkaEvent_EventID e \<in> set (map ProcessedRow_EventID (processed_kafka_events (db w)))
         then (Inr (), w)
         else (Inr (), upd_db (\<lambda>d. d\<lparr>processed_kafka_events := processed_kafka_events d @ [row]\<rparr>) w))"

definition PostgresIdempotencyStore_WasProcessed :: "string \<Rightarrow> bool prog" where
  "PostgresIdempotencyStore_WasProcessed eventID =
     attempt (sql [eventID] (select_processed eventID)) (\<lambda>r. case r of
         Inl err \<Rightarrow> if errors_Is err PgxErrNoRows then ret False
                    else throw (wrapf ''error querying processed kafka_events'' err)
       | Inr _ \<Rightarrow> ret True)"

definition PostgresIdempotencyStore_MarkProcessed :: "KafkaEvent \<Rightarrow> unit prog" where
  "PostgresIdempotencyStore_MarkProcessed event =
     mapErr (wrapf ''mark kafka event processed'')
       (sql [KafkaEvent_EventID event, KafkaEvent_Topic event, KafkaEvent_EventType event]
          (insert_processed event))"

definition NewPostgresIdempotencyStore :: IdempotencyStore where
  "NewPostgresIdempotencyStore =
     \<lparr>IdempotencyStore_WasProcessed = PostgresIdempotencyStore_WasProcessed,
      IdempotencyStore_MarkProcessed = PostgresIdempotencyStore_MarkProcessed\<rparr>"

text \<open>
  \<open>insert into user_audit_events (...) values ($1, $2, $3, $4::jsonb)\<close>: the cast refuses a
  text that is not JSON and keeps its normal form otherwise.
\<close>

definition insert_user_audit_events :: "(string \<Rightarrow> string option) \<Rightarrow> UserAuditEvent \<Rightarrow> UserAuditEvent prog" where
  "insert_user_audit_events jsonb e w =
     (case jsonb (UserAuditEvent_Payload e) of
        None \<Rightarrow> (Inl (PgError ''22P02'' ''invalid input syntax for type json''), w)
      | Some payload \<Rightarrow>
          let i = user_audit_events_id_seq (seqs w) + 1;
              w1 = w\<lparr>seqs := (seqs w)\<lparr>user_audit_events_id_seq := i\<rparr>\<rparr>;
              row = e\<lparr>UserAuditEvent_ID := i, UserAuditEvent_Payload := payload,
                      UserAuditEvent_CreatedAt := pg_now w\<rparr>
          in if UserAuditEvent_SourceEventID e \<in> set (map UserAuditEvent_SourceEventID (user_audit_events (db w)))
             then (Inl (unique_violation ''user_audit_events_source_event_id_key''), w1)
             else (Inr row, upd_db (\<lambda>d. d\<lparr>user_audit_events := user_audit_events d @ [row]\<rparr>) w1))"

definition count_audit_events :: "string \<Rightarrow> int prog" where
  "count_audit_events sourceEventID w =
     (Inr (int (length (filter (\<lambda>a. UserAuditEvent_SourceEventID a = sourceEventID)
        (user_audit_events (db w))))), w)"

definition audit_PostgresStore_CreateUserAuditEvent ::
  "(string \<Rightarrow> string option) \<Rightarrow> UserAuditEvent \<Rightarrow> UserAuditEvent prog" where
  "audit_PostgresStore_CreateUserAuditEvent jsonb event =
     mapErr (wrapf ''create audit event'')
       (sql [UserAuditEvent_SourceEventID event, UserAuditEvent_EventType event, UserAuditEvent_Payload event]
          (insert_user_audit_events jsonb event))"

definition audit_PostgresStore_CountBySourceEventID :: "string \<Rightarrow> int prog" where
  "audit_PostgresStore_CountBySourceEventID sourceEventID =
     mapErr (wrapf ''count user audit events by source event id'')
       (sql [sourceEventID] (count_audit_events sourceEventID))"

definition audit_NewPostgresStore :: "(string \<Rightarrow> string option) \<Rightarrow> audit_Store" where
  "audit_NewPostgresStore jsonb =
     \<lparr>audit_CreateUserAuditEvent = audit_PostgresStore_CreateUserAuditEvent jsonb,
      audit_CountBySourceEventID = audit_PostgresStore_CountBySourceEventID\<rparr>"

section \<open>Transactions\<close>

record consumer_TxStores =
  TxStores_IdempotencyStore :: IdempotencyStore
  TxStores_UserAuditStore :: audit_Store

definition consumer_rollback_error :: "go_error + unit \<Rightarrow> go_error \<Rightarrow> go_error" where
  "consumer_rollback_error rb err =
     (case rb of
        Inl rollbackErr \<Rightarrow>
          Errorf (''rollback kafka consumer tx: '' @ Error rollbackErr @ ''; original error: '') err ''''
      | Inr _ \<Rightarrow> err)"

definition consumer_WithinTx ::
  "(string \<Rightarrow> string option) \<Rightarrow> (consumer_TxStores \<Rightarrow> 'a prog) \<Rightarrow> 'a prog" where
  "consumer_WithinTx jsonb fn =
     (let stores = \<lparr>TxStores_IdempotencyStore = NewPostgresIdempotencyStore,
                    TxStores_UserAuditStore = audit_NewPostgresStore jsonb\<rparr>
      in run_tx (wrapf ''begin kafka consumer tx'') (wrapf ''commit kafka consumer tx'')
           consumer_rollback_error (fn stores))"

section \<open>Handlers\<close>

record EventHandler =
  EventHandler_Handle :: "KafkaEvent \<Rightarrow> consumer_TxStores \<Rightarrow> unit prog"

type_synonym Router = "string \<Rightarrow> EventHandler option"

definition NewRouter :: Router where
  "NewRouter = (\<lambda>_. None)"

definition Router_Register :: "Router \<Rightarrow> string \<Rightarrow> EventHandler \<Rightarrow> Router" where
  "Router_Register r eventType handler = r(eventType \<mapsto> handler)"

definition Router_Handle :: "Router \<Rightarrow> KafkaEvent \<Rightarrow> consumer_TxStores \<Rightarrow> unit prog" where
  "Router_Handle r event stores =
     (case r (KafkaEvent_EventType event) of
        None \<Rightarrow> throw (NewError (''no handler registered for event type '' @ KafkaEvent_EventType event))
      | Some handler \<Rightarrow> EventHandler_Handle handler event stores)"

definition router_handler :: "Router \<Rightarrow> EventHandler" where
  "router_handler r = \<lparr>EventHandler_Handle = Router_Handle r\<rparr>"

record UserRegisteredPayload =
  UserRegisteredPayload_UserID :: int
  UserRegisteredPayload_Email :: string
  UserRegisteredPayload_Role :: string

definition UserRegisteredPayload_json :: "UserRegisteredPayload \<Rightarrow> json" where
  "UserRegisteredPayload_json p = JObject
     [(''userId'', JInt (UserRegisteredPayload_UserID p)),
      (''email'', JString (UserRegisteredPayload_Email p)),
      (''role'', JString (UserRegisteredPayload_Role p))]"

text \<open>\<open>%q\<close> writes a Go string literal; its text, in error messages only, is a parameter.\<close>

record consumer_env =
  cenv_unmarshal :: "string \<Rightarrow> go_error + UserRegistered"
  cenv_quote :: "string \<Rightarrow> string"
  cenv_time :: "int \<Rightarrow> string"

definition audit_payload :: "consumer_env \<Rightarrow> UserRegistered \<Rightarrow> string" where
  "audit_payload env payload = Marshal (cenv_time env) (UserRegisteredPayload_json
     \<lparr>UserRegisteredPayload_UserID = UserRegistered_UserId payload,
      UserRegisteredPayload_Email = UserRegistered_Email payload,
      UserRegisteredPayload_Role = UserRegistered_Role payload\<rparr>)"

definition UserRegisteredHandler_Handle ::
  "consumer_env \<Rightarrow> KafkaEvent \<Rightarrow> consumer_TxStores \<Rightarrow> unit prog" where
  "UserRegisteredHandler_Handle env event stores =
     (if KafkaEvent_ContentType event \<noteq> ContentTypeProtobuf
      then throw (NewError (''unsupported user registered content type '' @ cenv_quote env (KafkaEvent_ContentType event)))
      else if KafkaEvent_ProtoMessage event \<noteq> ProtoMessageUserRegistered
      then throw (NewError (''unsupported user registered proto message '' @ cenv_quote env (KafkaEvent_ProtoMessage event)))
      else if KafkaEvent_EventVersion event \<noteq> EventVersionV1
      then throw (NewError (''unsupported user registered event version '' @ cenv_quote env (KafkaEvent_EventVersion event)))
      else case UnmarshalUserRegistered (cenv_unmarshal env) (KafkaEvent_Payload event) of
             Inl err \<Rightarrow> throw err
           | Inr payload \<Rightarrow>
               andThen (mapErr (wrapf ''create user audit event'')
                          (audit_CreateUserAuditEvent (TxStores_UserAuditStore stores)
                             \<lparr>UserAuditEvent_ID = 0, UserAuditEvent_SourceEventID = KafkaEvent_EventID event,
                              UserAuditEvent_UserID = UserRegistered_UserId payload,
                              UserAuditEvent_EventType = KafkaEvent_EventType event,
                              UserAuditEvent_Payload = audit_payload env payload,
                              UserAuditEvent_CreatedAt = 0\<rparr>)) (\<lambda>_. ret ()))"

definition user_registered_handler :: "consumer_env \<Rightarrow> EventHandler" where
  "user_registered_handler env = \<lparr>EventHandler_Handle = UserRegisteredHandler_Handle env\<rparr>"

section \<open>Records and events\<close>

text \<open>The loop that fills the map of headers: a later header of the same key overrides.\<close>

fun header_map :: "(string \<Rightarrow> string) \<Rightarrow> (string \<times> string) list \<Rightarrow> string \<Rightarrow> string" where
  "header_map m [] = m"
| "header_map m ((k, v) # hs) = header_map (m(k := v)) hs"

definition eventFromRecord :: "KafkaRecord \<Rightarrow> go_error + KafkaEvent" where
  "eventFromRecord record =
     (let headers = header_map (\<lambda>_. '''') (Record_Headers record);
          eventID = headers ''event_id''; eventType = headers ''event_type'';
          aggregateType = headers ''aggregate_type''; aggregateID = headers ''aggregate_id'';
          contentType = headers ''content_type''; protoMessage = headers ''proto_message'';
          eventVersion = headers ''event_version''
      in if eventID = '''' then Inl (NewError ''kafka record missing event_id header'')
         else if eventType = '''' then Inl (NewError ''kafka record missing event_type header'')
         else if aggregateType = '''' then Inl (NewError ''kafka record missing aggregate_type header'')
         else if aggregateID = '''' then Inl (NewError ''kafka record missing aggregate_id header'')
         else if contentType = '''' then Inl (NewError ''kafka record missing content_type header'')
         else if contentType = ''application/x-protobuf'' \<and> protoMessage = ''''
         then Inl (NewError ''kafka protobuf record missing proto_message header'')
         else if eventVersion = '''' then Inl (NewError ''kafka record missing event_version header'')
         else Inr \<lparr>KafkaEvent_EventID = eventID, KafkaEvent_EventType = eventType,
                   KafkaEvent_AggregateType = aggregateType, KafkaEvent_AggregateID = aggregateID,
                   KafkaEvent_ContentType = contentType, KafkaEvent_ProtoMessage = protoMessage,
                   KafkaEvent_EventVersion = eventVersion, KafkaEvent_Payload = Record_Value record,
                   KafkaEvent_Topic = Record_Topic record, KafkaEvent_Partition = Record_Partition record,
                   KafkaEvent_Offset = Record_Offset record\<rparr>)"

fun first_event_type :: "(string \<times> string) list \<Rightarrow> string" where
  "first_event_type [] = ''unknown''"
| "first_event_type ((k, v) # hs) = (if k = ''event_type'' then v else first_event_type hs)"

definition eventTypeFromRecord :: "KafkaRecord \<Rightarrow> string" where
  "eventTypeFromRecord record = first_event_type (Record_Headers record)"

section \<open>The consumer\<close>

record consumer_Config =
  consumer_Brokers :: "string list"
  consumer_Topic :: string
  consumer_ConsumerGroup :: string
  consumer_ProcessTimeout :: int

record Consumer =
  Consumer_handler :: EventHandler
  Consumer_txFactory :: "(consumer_TxStores \<Rightarrow> bool prog) \<Rightarrow> bool prog"
  Consumer_observer :: Observer
  Consumer_processTimeout :: int

definition consumer_WithObserver :: "Observer option \<Rightarrow> Consumer \<Rightarrow> Consumer" where
  "consumer_WithObserver obs c = (case obs of None \<Rightarrow> c | Some ob \<Rightarrow> c\<lparr>Consumer_observer := ob\<rparr>)"

definition NewConsumer ::
  "(kgo_Opt list \<Rightarrow> go_error option) \<Rightarrow> consumer_Config \<Rightarrow> EventHandler option \<Rightarrow>
     ((consumer_TxStores \<Rightarrow> bool prog) \<Rightarrow> bool prog) option \<Rightarrow> (Consumer \<Rightarrow> Consumer) list \<Rightarrow>
     go_error + Consumer" where
  "NewConsumer newClient cfg handler txFactory opts =
     (if consumer_Brokers cfg = [] then Inl (NewError ''kafka brokers are required'')
      else if consumer_Topic cfg = '''' then Inl (NewError ''kafka topic is required'')
      else if consumer_ConsumerGroup cfg = '''' then Inl (NewError ''kafka consumer group is required'')
      else case handler of
        None \<Rightarrow> Inl (NewError ''kafka event handler is required'')
      | Some h \<Rightarrow> (case txFactory of
          None \<Rightarrow> Inl (NewError ''kafka consumer tx factory is required'')
        | Some f \<Rightarrow> (case newClient [SeedBrokers (consumer_Brokers cfg), ClientID ''identity-service-consumer'',
                         ConsumerGroup (consumer_ConsumerGroup cfg), ConsumeTopics [consumer_Topic cfg],
                         DisableAutoCommit] of
            Some err \<Rightarrow> Inl (wrapf ''create kafka client'' err)
          | None \<Rightarrow> Inr (foldl (\<lambda>c opt. opt c)
              \<lparr>Consumer_handler = h, Consumer_txFactory = f, Consumer_observer = NoopObserver,
               Consumer_processTimeout = consumer_ProcessTimeout cfg\<rparr> opts))))"

text \<open>The closure of a record's transaction; its value is the flag \<open>duplicate\<close>.\<close>

definition process_tx :: "EventHandler \<Rightarrow> KafkaEvent \<Rightarrow> consumer_TxStores \<Rightarrow> bool prog" where
  "process_tx handler event stores =
     andThen (IdempotencyStore_WasProcessed (TxStores_IdempotencyStore stores) (KafkaEvent_EventID event))
       (\<lambda>processed.
        if processed then ret True
        else andThen (EventHandler_Handle handler event stores) (\<lambda>_.
             andThen (IdempotencyStore_MarkProcessed (TxStores_IdempotencyStore stores) event) (\<lambda>_. ret False)))"

text \<open>\<open>CommitRecords\<close> moves the group's offset of the partition behind the record.\<close>

definition CommitRecords :: "KafkaRecord \<Rightarrow> unit prog" where
  "CommitRecords record = external (modify (\<lambda>w. w\<lparr>committed :=
     (committed w)((Record_Topic record, Record_Partition record) \<mapsto> Record_Offset record + 1)\<rparr>))"

definition Consumer_processRecord :: "Consumer \<Rightarrow> KafkaRecord \<Rightarrow> unit prog" where
  "Consumer_processRecord c record =
     (case eventFromRecord record of
        Inl err \<Rightarrow> throw err
      | Inr event \<Rightarrow>
          andThen (Consumer_txFactory c (process_tx (Consumer_handler c) event)) (\<lambda>duplicate.
            mapErr (wrapf ''commit kafka record'') (CommitRecords record)))"

text \<open>The records of one partition of a fetch: the rest is left when one fails.\<close>

fun Consumer_processPartition :: "Consumer \<Rightarrow> KafkaRecord list \<Rightarrow> unit prog" where
  "Consumer_processPartition c [] = ret ()"
| "Consumer_processPartition c (record # records) =
     attempt (Consumer_processRecord c record) (\<lambda>r. case r of
         Inl err \<Rightarrow> Observer_EventFailed (Consumer_observer c) (eventTypeFromRecord record)
       | Inr _ \<Rightarrow> attempt (Observer_EventProcessed (Consumer_observer c) (eventTypeFromRecord record))
                   (\<lambda>_. Consumer_processPartition c records))"

fun Consumer_processFetches :: "Consumer \<Rightarrow> KafkaRecord list list \<Rightarrow> unit prog" where
  "Consumer_processFetches c [] = ret ()"
| "Consumer_processFetches c (p # ps) =
     attempt (Consumer_processPartition c p) (\<lambda>_. Consumer_processFetches c ps)"

text \<open>
  \<open>Run\<close>: one entry per poll. The poll ends the loop when the context is done, its errors are
  logged and the fetch dropped, otherwise its records are processed.
\<close>

datatype poll = PollDone | PollErrors | PollRecords "KafkaRecord list list"

fun Consumer_Run :: "Consumer \<Rightarrow> go_error \<Rightarrow> poll list \<Rightarrow> world \<Rightarrow> go_error option \<times> world" where
  "Consumer_Run c ctxErr [] w = (None, w)"
| "Consumer_Run c ctxErr (PollDone # ps) w = (Some ctxErr, w)"
| "Consumer_Run c ctxErr (PollErrors # ps) w = Consumer_Run c ctxErr ps w"
| "Consumer_Run c ctxErr (PollRecords fs # ps) w =
     Consumer_Run c ctxErr ps (snd (Consumer_processFetches c fs w))"

section \<open>The contracts\<close>

abbreviation processed_ids :: "world \<Rightarrow> string list" where
  "processed_ids w \<equiv> map ProcessedRow_EventID (processed_kafka_events (db w))"

abbreviation audited_ids :: "world \<Rightarrow> string list" where
  "audited_ids w \<equiv> map UserAuditEvent_SourceEventID (user_audit_events (db w))"

locale idempotency_store =
  fixes I :: IdempotencyStore
  assumes was_Inr: "IdempotencyStore_WasProcessed I i w = (Inr b, w') \<Longrightarrow> b \<longleftrightarrow> i \<in> set (processed_ids w)"
    and was_reads: "frame db (IdempotencyStore_WasProcessed I i)" "frame seqs (IdempotencyStore_WasProcessed I i)"
    and mark_Inr: "IdempotencyStore_MarkProcessed I e w = (Inr u, w') \<Longrightarrow>
      (KafkaEvent_EventID e \<in> set (processed_ids w) \<longrightarrow> db w' = db w) \<and>
      (KafkaEvent_EventID e \<notin> set (processed_ids w) \<longrightarrow>
        (\<exists>row. ProcessedRow_EventID row = KafkaEvent_EventID e \<and>
           db w' = (db w)\<lparr>processed_kafka_events := processed_kafka_events (db w) @ [row]\<rparr>))"
    and idem_only_db: "db_only (IdempotencyStore_WasProcessed I i)" "db_only (IdempotencyStore_MarkProcessed I e)"
    and idem_keeps: "keeps (consistent s) (IdempotencyStore_MarkProcessed I e)"

locale audit_store =
  fixes A :: audit_Store
  assumes audit_Inr: "audit_CreateUserAuditEvent A e w = (Inr c, w') \<Longrightarrow>
      UserAuditEvent_SourceEventID c = UserAuditEvent_SourceEventID e \<and>
      UserAuditEvent_UserID c = UserAuditEvent_UserID e \<and>
      UserAuditEvent_EventType c = UserAuditEvent_EventType e \<and>
      UserAuditEvent_SourceEventID e \<notin> set (audited_ids w) \<and>
      db w' = (db w)\<lparr>user_audit_events := user_audit_events (db w) @ [c]\<rparr>"
    and count_Inr: "audit_CountBySourceEventID A i w = (Inr n, w') \<Longrightarrow>
      n = int (count_list (audited_ids w) i) \<and> db w' = db w"
    and audit_only_db: "db_only (audit_CreateUserAuditEvent A e)" "db_only (audit_CountBySourceEventID A i)"
    and audit_keeps: "keeps (consistent s) (audit_CreateUserAuditEvent A e)"

text \<open>A handler that, when it succeeds, has added one audit row for its event and nothing else.\<close>

locale audited_handler =
  fixes H :: EventHandler and sts :: consumer_TxStores
  assumes handle_Inr: "EventHandler_Handle H e sts w = (Inr u, w') \<Longrightarrow>
      \<exists>a. UserAuditEvent_SourceEventID a = KafkaEvent_EventID e \<and>
        UserAuditEvent_EventType a = KafkaEvent_EventType e \<and>
        KafkaEvent_EventID e \<notin> set (audited_ids w) \<and>
        db w' = (db w)\<lparr>user_audit_events := user_audit_events (db w) @ [a]\<rparr>"
    and handle_only_db: "db_only (EventHandler_Handle H e sts)"
    and handle_keeps: "keeps (consistent s) (EventHandler_Handle H e sts)"

context audit_store
begin

lemma user_registered_audited:
  "audited_handler (user_registered_handler env)
     \<lparr>TxStores_IdempotencyStore = I, TxStores_UserAuditStore = A\<rparr>"
proof (unfold_locales, unfold user_registered_handler_def EventHandler.simps, goal_cases)
  case (1 e w u w')
  then obtain payload c where
    "audit_CreateUserAuditEvent A \<lparr>UserAuditEvent_ID = 0, UserAuditEvent_SourceEventID = KafkaEvent_EventID e,
        UserAuditEvent_UserID = UserRegistered_UserId payload, UserAuditEvent_EventType = KafkaEvent_EventType e,
        UserAuditEvent_Payload = audit_payload env payload, UserAuditEvent_CreatedAt = 0\<rparr> w = (Inr c, w')"
    by (auto simp: UserRegisteredHandler_Handle_def elim!: andThen_InrE dest!: mapErr_InrD
        split: if_splits sum.splits)
  from audit_Inr [OF this] show ?case by auto
next
  case (2 e)
  then show ?case
    by (auto simp: UserRegisteredHandler_Handle_def intro!: db_only_intros audit_only_db split: sum.split)
next
  case (3 s e)
  then show ?case
    by (auto simp: UserRegisteredHandler_Handle_def intro!: keeps_intros audit_keeps split: sum.split)
qed

end

text \<open>Dispatch keeps the contract of the handlers it dispatches to.\<close>

lemma router_audited:
  assumes "\<And>t h. r t = Some h \<Longrightarrow> audited_handler h sts"
  shows "audited_handler (router_handler r) sts"
proof (unfold_locales, unfold router_handler_def EventHandler.simps Router_Handle_def, goal_cases)
  case (1 e w u w')
  then obtain h where "r (KafkaEvent_EventType e) = Some h" "EventHandler_Handle h e sts w = (Inr u, w')"
    by (auto split: option.splits)
  with audited_handler.handle_Inr [OF assms] show ?case by blast
next
  case (2 e)
  then show ?case using audited_handler.handle_only_db [OF assms]
    by (auto intro!: db_only_intros split: option.split)
next
  case (3 s e)
  then show ?case using audited_handler.handle_keeps [OF assms]
    by (auto intro!: keeps_intros split: option.split)
qed

text \<open>Audit rows and processed rows name the same events, in the same order.\<close>

definition linked :: "world \<Rightarrow> bool" where
  "linked w \<longleftrightarrow> audited_ids w = processed_ids w"

definition exactly_once :: "world \<Rightarrow> bool" where
  "exactly_once w \<longleftrightarrow> linked w \<and> schema_ok (db w) (seqs w)"

locale consumer_deps = idempotency_store I + audited_handler H sts + txf: tx_factory run uncertain
  for I :: IdempotencyStore and H :: EventHandler and sts :: consumer_TxStores
    and run :: "bool prog \<Rightarrow> bool prog" and uncertain :: "go_error \<Rightarrow> bool" +
  fixes c :: Consumer and obs :: Observer
  assumes consumer_wiring: "TxStores_IdempotencyStore sts = I" "Consumer_handler c = H"
      "Consumer_txFactory c = (\<lambda>fn. run (fn sts))" "Consumer_observer c = obs"
    and obs_counts: "event_observer obs"
begin

lemma process_tx_only:
  "db_only (process_tx H e sts)" "keeps (consistent q) (process_tx H e sts)"
proof -
  have "keeps (consistent q) (IdempotencyStore_WasProcessed I i)" for i
    by (rule consistent_frame [OF was_reads])
  then show "keeps (consistent q) (process_tx H e sts)"
    unfolding process_tx_def consumer_wiring by (intro keeps_intros handle_keeps idem_keeps)
  show "db_only (process_tx H e sts)"
    unfolding process_tx_def consumer_wiring by (intro db_only_intros handle_only_db idem_only_db)
qed

text \<open>The effect of the closure: a duplicate changes nothing, a new event adds a row to each table.\<close>

lemma process_tx_Inr:
  assumes "process_tx H e sts w = (Inr dup, w')"
  shows "if dup then KafkaEvent_EventID e \<in> set (processed_ids w) \<and> db w' = db w
    else KafkaEvent_EventID e \<notin> set (processed_ids w) \<and>
      (\<exists>a row. UserAuditEvent_SourceEventID a = KafkaEvent_EventID e \<and>
         UserAuditEvent_EventType a = KafkaEvent_EventType e \<and>
         ProcessedRow_EventID row = KafkaEvent_EventID e \<and>
         db w' = (db w)\<lparr>user_audit_events := user_audit_events (db w) @ [a],
           processed_kafka_events := processed_kafka_events (db w) @ [row]\<rparr>)"
proof -
  from assms obtain b w1 where 1: "IdempotencyStore_WasProcessed I (KafkaEvent_EventID e) w = (Inr b, w1)"
    and 2: "(if b then ret True
        else andThen (EventHandler_Handle H e sts) (\<lambda>_.
             andThen (IdempotencyStore_MarkProcessed I e) (\<lambda>_. ret False))) w1 = (Inr dup, w')"
    unfolding process_tx_def consumer_wiring by (auto elim!: andThen_InrE)
  have d: "db w1 = db w" by (rule frameD [OF was_reads(1) 1])
  note b = was_Inr [OF 1]
  show ?thesis
  proof (cases b)
    case True
    with 2 b d show ?thesis by simp
  next
    case False
    with 2 obtain w2 where 3: "EventHandler_Handle H e sts w1 = (Inr (), w2)"
      and 4: "IdempotencyStore_MarkProcessed I e w2 = (Inr (), w')" and dup: "\<not> dup"
      by (auto elim!: andThen_InrE)
    from handle_Inr [OF 3] obtain a where a: "UserAuditEvent_SourceEventID a = KafkaEvent_EventID e"
      "UserAuditEvent_EventType a = KafkaEvent_EventType e"
      "db w2 = (db w)\<lparr>user_audit_events := user_audit_events (db w) @ [a]\<rparr>" unfolding d by blast
    have "KafkaEvent_EventID e \<notin> set (processed_ids w2)" using False b a(3) by simp
    with mark_Inr [OF 4] obtain row where "ProcessedRow_EventID row = KafkaEvent_EventID e"
      "db w' = (db w2)\<lparr>processed_kafka_events := processed_kafka_events (db w2) @ [row]\<rparr>" by blast
    with a dup False b show ?thesis by auto
  qed
qed

lemma tx_linked:
  assumes "linked w" and "run (process_tx H e sts) w = (r, w')"
  shows "linked w'" and "set (processed_ids w) \<subseteq> set (processed_ids w')"
    and "r = Inr b \<Longrightarrow> KafkaEvent_EventID e \<in> set (processed_ids w')"
proof -
  have fr: "frame tx (process_tx H e sts)" by (rule db_only_frames(1) [OF process_tx_only(1)])
  have "linked w' \<and> set (processed_ids w) \<subseteq> set (processed_ids w')"
    using txf.all_or_nothing [OF fr assms(2)] assms(1)
    by (auto simp: linked_def dest!: process_tx_Inr split: if_splits)
  then show "linked w'" "set (processed_ids w) \<subseteq> set (processed_ids w')" by auto
  assume "r = Inr b"
  with assms(2) txf.run_Inr [of "process_tx H e sts" w b w'] obtain cl p w1 where
    "process_tx H e sts (started cl p w) = (Inr b, w1)" "db w' = db w1" by auto
  then show "KafkaEvent_EventID e \<in> set (processed_ids w')"
    by (auto dest!: process_tx_Inr split: if_splits)
qed

lemma frame_CommitRecords: "frame db (CommitRecords rec)" "frame seqs (CommitRecords rec)"
  unfolding CommitRecords_def by (intro frame_intros; simp add: frame_def modify_def)+

lemma processRecord_linked:
  assumes "linked w" and "Consumer_processRecord c rec w = (r, w')"
  shows "linked w' \<and> set (processed_ids w) \<subseteq> set (processed_ids w') \<and>
    (r = Inr () \<longrightarrow> (\<exists>e. eventFromRecord rec = Inr e \<and> KafkaEvent_EventID e \<in> set (processed_ids w') \<and>
       committed w' (Record_Topic rec, Record_Partition rec) = Some (Record_Offset rec + 1)))"
proof (cases "eventFromRecord rec")
  case (Inl err)
  with assms show ?thesis by (simp add: Consumer_processRecord_def)
next
  case (Inr e)
  obtain q w1 where 1: "run (process_tx H e sts) w = (q, w1)" by (cases "run (process_tx H e sts) w")
  note t = tx_linked [OF assms(1) 1]
  show ?thesis
  proof (cases q)
    case (Inl err)
    with assms(2) Inr 1 have "r = Inl err" "w' = w1"
      by (simp_all add: Consumer_processRecord_def consumer_wiring andThen_def)
    with t(1,2) show ?thesis by simp
  next
    case (Inr dup)
    with assms(2) \<open>eventFromRecord rec = Inr e\<close> 1
    have 2: "mapErr (wrapf ''commit kafka record'') (CommitRecords rec) w1 = (r, w')"
      by (simp add: Consumer_processRecord_def consumer_wiring andThen_def)
    have d: "db w' = db w1" by (rule frameD [OF frame_mapErr [OF frame_CommitRecords(1)] 2])
    have "r = Inr () \<Longrightarrow> committed w' (Record_Topic rec, Record_Partition rec) = Some (Record_Offset rec + 1)"
      using 2 by (auto simp: CommitRecords_def modify_def dest!: mapErr_InrD elim!: external_InrD)
    with t d Inr \<open>eventFromRecord rec = Inr e\<close> show ?thesis by (auto simp: linked_def)
  qed
qed

lemma processRecord_consistent: "keeps (consistent q) (Consumer_processRecord c rec)"
proof -
  have "keeps (consistent q) (CommitRecords rec)" by (rule consistent_frame [OF frame_CommitRecords])
  then have "keeps (consistent q) (andThen (run (process_tx H e sts))
      (\<lambda>dup. mapErr (wrapf ''commit kafka record'') (CommitRecords rec)))" for e
    by (intro keeps_intros txf.run_consistent process_tx_only db_only_frames(1))
  then show ?thesis
    unfolding Consumer_processRecord_def consumer_wiring by (intro keeps_sum) simp_all
qed

lemma observer_frames:
  "frame db (Observer_EventFailed obs x)" "frame db (Observer_EventProcessed obs x)"
  "frame seqs (Observer_EventFailed obs x)" "frame seqs (Observer_EventProcessed obs x)"
  by (rule event_observer.observer_frame [OF obs_counts]; simp)+

lemma processRecord_keeps: "keeps exactly_once (Consumer_processRecord c rec)"
proof (rule keepsI)
  fix w assume w: "exactly_once w"
  obtain r w' where 1: "Consumer_processRecord c rec w = (r, w')" by (cases "Consumer_processRecord c rec w")
  from w have "consistent (seqs w) w" by (simp add: exactly_once_def schema_consistent)
  with keepsD [OF processRecord_consistent 1] have "schema_ok (db w') (seqs w')"
    by (auto dest: consistent_schema)
  with processRecord_linked [OF _ 1] w show "exactly_once (snd (Consumer_processRecord c rec w))"
    by (simp add: exactly_once_def 1)
qed

lemma observer_keeps:
  "keeps exactly_once (Observer_EventFailed obs x)" "keeps exactly_once (Observer_EventProcessed obs x)"
  by (auto simp: keeps_def exactly_once_def linked_def frame_snd [OF observer_frames(1)]
      frame_snd [OF observer_frames(2)] frame_snd [OF observer_frames(3)] frame_snd [OF observer_frames(4)])

lemma processPartition_keeps: "keeps exactly_once (Consumer_processPartition c rs)"
  by (induction rs) (auto simp: consumer_wiring intro!: keeps_intros processRecord_keeps observer_keeps)

lemma processFetches_keeps: "keeps exactly_once (Consumer_processFetches c ps)"
  by (induction ps) (auto intro!: keeps_intros processPartition_keeps)

lemma Run_keeps: "exactly_once w \<Longrightarrow> Consumer_Run c err ps w = (r, w') \<Longrightarrow> exactly_once w'"
proof (induction ps arbitrary: w)
  case (Cons p ps)
  then show ?case by (cases p) (auto dest: keeps_snd [OF processFetches_keeps])
qed simp

end

section \<open>The PostgreSQL implementation\<close>

lemma consumer_stmt_db_only [db_only_intros]:
  "db_only (select_processed i)" "db_only (insert_processed e)"
  "db_only (insert_user_audit_events j a)" "db_only (count_audit_events i)"
  by (rule db_onlyI; simp add: select_processed_def insert_processed_def insert_user_audit_events_def
      count_audit_events_def Let_def db_step_def split: option.split)+

lemma consumer_stmt_readers [frame_intros]:
  "frame db (select_processed i)" "frame seqs (select_processed i)" "frame db (count_audit_events i)"
  by (auto intro!: frameI simp: select_processed_def count_audit_events_def)

lemma keeps_insert_processed [keeps_intros]: "keeps (consistent s) (insert_processed e)"
  by (rule keepsI) (auto simp: insert_processed_def Let_def consistent_def schema_ok_def processed_ok_def)

lemma keeps_insert_audit [keeps_intros]: "keeps (consistent s) (insert_user_audit_events j a)"
  by (rule keepsI)
    (auto simp: insert_user_audit_events_def Let_def consistent_def schema_defs seq_ge_def serial_ok_next
      split: option.split intro: serial_ok_mono)

interpretation pg_idempotency: idempotency_store NewPostgresIdempotencyStore
proof (unfold_locales, unfold NewPostgresIdempotencyStore_def IdempotencyStore.simps, goal_cases)
  case (1 i w b w')
  then show ?case
    unfolding PostgresIdempotencyStore_WasProcessed_def
    by (auto elim!: attemptE sql_InlE sql_InrD simp: select_processed_def bad_text_error_def
        split: sum.splits if_splits)
next
  case (4 e w u w')
  then show ?case
    unfolding PostgresIdempotencyStore_MarkProcessed_def
    by (auto dest!: mapErr_InrD elim!: sql_InrD simp: insert_processed_def Let_def split: if_splits)
      (rule exI, rule conjI [rotated], rule refl, simp)
qed (auto simp: PostgresIdempotencyStore_WasProcessed_def PostgresIdempotencyStore_MarkProcessed_def
    intro!: frame_intros db_only_intros keeps_intros)

lemma length_filter_count: "length (filter (\<lambda>a. k a = i) xs) = count_list (map k xs) i"
  by (induction xs) auto

interpretation pg_audit: audit_store "audit_NewPostgresStore jsonb"
proof (unfold_locales, unfold audit_NewPostgresStore_def audit_Store.simps, goal_cases)
  case (1 e w c w')
  then show ?case
    unfolding audit_PostgresStore_CreateUserAuditEvent_def
    by (auto dest!: mapErr_InrD elim!: sql_InrD simp: insert_user_audit_events_def Let_def
        split: if_splits option.splits)
next
  case (2 i w n w')
  then show ?case
    unfolding audit_PostgresStore_CountBySourceEventID_def
    by (auto dest!: mapErr_InrD elim!: sql_InrD simp: count_audit_events_def length_filter_count)
qed (auto simp: audit_PostgresStore_CreateUserAuditEvent_def audit_PostgresStore_CountBySourceEventID_def
    intro!: db_only_intros keeps_intros)

definition consumer_run :: "'a prog \<Rightarrow> 'a prog" where
  "consumer_run = run_tx (wrapf ''begin kafka consumer tx'') (wrapf ''commit kafka consumer tx'')
     consumer_rollback_error"

fun consumer_commit_error :: "go_error \<Rightarrow> bool" where
  "consumer_commit_error (Errorf p e q) = (p = ''commit kafka consumer tx: '')"
| "consumer_commit_error _ = False"

interpretation consumer_tx: tx_factory "consumer_run :: 'a prog \<Rightarrow> 'a prog" consumer_commit_error
  unfolding consumer_run_def
  by (rule run_tx_factory) (auto simp: wrapf_def consumer_rollback_error_def split: sum.splits)

text \<open>\<open>initKafkaConsumerModule\<close> of internal/app/app.go.\<close>

definition app_router :: "consumer_env \<Rightarrow> Router" where
  "app_router env = Router_Register NewRouter EventTypeUserRegistered (user_registered_handler env)"

definition pg_consumer :: "(string \<Rightarrow> string option) \<Rightarrow> consumer_env \<Rightarrow> int \<Rightarrow> Consumer" where
  "pg_consumer jsonb env timeout = consumer_WithObserver (Some KafkaConsumerObserver)
     \<lparr>Consumer_handler = router_handler (app_router env), Consumer_txFactory = consumer_WithinTx jsonb,
      Consumer_observer = NoopObserver, Consumer_processTimeout = timeout\<rparr>"

abbreviation pg_stores :: "(string \<Rightarrow> string option) \<Rightarrow> consumer_TxStores" where
  "pg_stores jsonb \<equiv> \<lparr>TxStores_IdempotencyStore = NewPostgresIdempotencyStore,
     TxStores_UserAuditStore = audit_NewPostgresStore jsonb\<rparr>"

interpretation pg_handler: audited_handler "router_handler (app_router env)" "pg_stores jsonb"
  by (rule router_audited)
    (auto simp: app_router_def NewRouter_def Router_Register_def intro: pg_audit.user_registered_audited
      split: if_splits)

interpretation pgconsumer: consumer_deps NewPostgresIdempotencyStore "router_handler (app_router env)"
    "pg_stores jsonb" consumer_run consumer_commit_error "pg_consumer jsonb env timeout" KafkaConsumerObserver
  by unfold_locales
    (auto simp: pg_consumer_def consumer_WithObserver_def consumer_WithinTx_def consumer_run_def Let_def
      intro: kafka_obs.counts)

section \<open>A run without failures\<close>

text \<open>An event the application's router can handle and PostgreSQL can store.\<close>

definition handleable :: "(string \<Rightarrow> string option) \<Rightarrow> consumer_env \<Rightarrow> KafkaEvent \<Rightarrow> UserRegistered \<Rightarrow> bool" where
  "handleable jsonb env e payload \<longleftrightarrow>
     KafkaEvent_EventType e = EventTypeUserRegistered \<and> KafkaEvent_ContentType e = ContentTypeProtobuf \<and>
     KafkaEvent_ProtoMessage e = ProtoMessageUserRegistered \<and> KafkaEvent_EventVersion e = EventVersionV1 \<and>
     cenv_unmarshal env (KafkaEvent_Payload e) = Inr payload \<and>
     jsonb (audit_payload env payload) \<noteq> None \<and>
     list_all pg_text [KafkaEvent_EventID e, KafkaEvent_Topic e, audit_payload env payload]"

lemma consumer_run_ok:
  "plan w = [] \<Longrightarrow> body (started (clock w) [] w) = (Inr a, w1) \<Longrightarrow> plan w1 = [] \<Longrightarrow>
     consumer_run body w = (Inr a, w1\<lparr>tx := None\<rparr>)"
  using consumer_tx.run_ok [of w body a] by auto

lemma process_tx_ok:
  assumes "plan w = []" and h: "handleable jsonb env e payload"
    and new: "KafkaEvent_EventID e \<notin> set (processed_ids w)" "KafkaEvent_EventID e \<notin> set (audited_ids w)"
  shows "\<exists>a row q. process_tx (router_handler (app_router env)) e (pg_stores jsonb) w =
      (Inr False, w\<lparr>seqs := q, db := (db w)\<lparr>user_audit_events := user_audit_events (db w) @ [a],
         processed_kafka_events := processed_kafka_events (db w) @ [row]\<rparr>\<rparr>) \<and>
    ProcessedRow_EventID row = KafkaEvent_EventID e \<and> UserAuditEvent_SourceEventID a = KafkaEvent_EventID e \<and>
    UserAuditEvent_UserID a = UserRegistered_UserId payload \<and> UserAuditEvent_EventType a = EventTypeUserRegistered"
proof -
  let ?a = "\<lparr>UserAuditEvent_ID = 0, UserAuditEvent_SourceEventID = KafkaEvent_EventID e,
     UserAuditEvent_UserID = UserRegistered_UserId payload, UserAuditEvent_EventType = KafkaEvent_EventType e,
     UserAuditEvent_Payload = audit_payload env payload, UserAuditEvent_CreatedAt = 0\<rparr>"
  obtain jb where jb: "jsonb (audit_payload env payload) = Some jb" using h by (auto simp: handleable_def)
  let ?i = "user_audit_events_id_seq (seqs w) + 1"
  let ?row = "?a\<lparr>UserAuditEvent_ID := ?i, UserAuditEvent_Payload := jb, UserAuditEvent_CreatedAt := pg_now w\<rparr>"
  let ?w1 = "w\<lparr>seqs := (seqs w)\<lparr>user_audit_events_id_seq := ?i\<rparr>,
     db := (db w)\<lparr>user_audit_events := user_audit_events (db w) @ [?row]\<rparr>\<rparr>"
  have W: "IdempotencyStore_WasProcessed NewPostgresIdempotencyStore (KafkaEvent_EventID e) w = (Inr False, w)"
    using assms(1) new(1) h
    by (simp add: NewPostgresIdempotencyStore_def PostgresIdempotencyStore_WasProcessed_def attempt_def
        sql_empty select_processed_def handleable_def)
  have A: "audit_CreateUserAuditEvent (audit_NewPostgresStore jsonb) ?a w = (Inr ?row, ?w1)"
    using assms(1) new(2) h jb
    by (simp add: audit_NewPostgresStore_def audit_PostgresStore_CreateUserAuditEvent_def mapErr_def
        sql_empty insert_user_audit_events_def Let_def handleable_def event_texts)
  have H: "EventHandler_Handle (router_handler (app_router env)) e (pg_stores jsonb) w = (Inr (), ?w1)"
    using h A
    by (simp add: router_handler_def Router_Handle_def app_router_def Router_Register_def handleable_def
        user_registered_handler_def UserRegisteredHandler_Handle_def UnmarshalUserRegistered_def
        andThen_def mapErr_def ret_def)
  have "\<exists>row. IdempotencyStore_MarkProcessed NewPostgresIdempotencyStore e ?w1 = (Inr (),
      ?w1\<lparr>db := (db ?w1)\<lparr>processed_kafka_events := processed_kafka_events (db w) @ [row]\<rparr>\<rparr>) \<and>
      ProcessedRow_EventID row = KafkaEvent_EventID e"
    using assms(1) new(1) h
    by (simp add: NewPostgresIdempotencyStore_def PostgresIdempotencyStore_MarkProcessed_def mapErr_def
        sql_empty insert_processed_def Let_def handleable_def event_texts)
      (rule exI, rule conjI, rule refl, simp)
  then obtain row where M: "IdempotencyStore_MarkProcessed NewPostgresIdempotencyStore e ?w1 = (Inr (),
      ?w1\<lparr>db := (db ?w1)\<lparr>processed_kafka_events := processed_kafka_events (db w) @ [row]\<rparr>\<rparr>)"
      "ProcessedRow_EventID row = KafkaEvent_EventID e" by blast
  show ?thesis
    by (rule exI [of _ ?row], rule exI [of _ row],
        rule exI [of _ "(seqs w)\<lparr>user_audit_events_id_seq := ?i\<rparr>"])
      (use W H M h in \<open>simp add: process_tx_def andThen_def ret_def handleable_def\<close>)
qed

lemma processRecord_ok:
  assumes "plan w = []" and ev: "eventFromRecord rec = Inr e" and h: "handleable jsonb env e payload"
    and new: "KafkaEvent_EventID e \<notin> set (processed_ids w)" "KafkaEvent_EventID e \<notin> set (audited_ids w)"
  shows "\<exists>w' a. Consumer_processRecord (pg_consumer jsonb env timeout) rec w = (Inr (), w') \<and> plan w' = [] \<and>
    processed_ids w' = processed_ids w @ [KafkaEvent_EventID e] \<and>
    user_audit_events (db w') = user_audit_events (db w) @ [a] \<and>
    UserAuditEvent_SourceEventID a = KafkaEvent_EventID e \<and>
    UserAuditEvent_UserID a = UserRegistered_UserId payload \<and>
    UserAuditEvent_EventType a = EventTypeUserRegistered \<and>
    committed w' = (committed w)((Record_Topic rec, Record_Partition rec) \<mapsto> Record_Offset rec + 1)"
proof -
  let ?w1 = "started (clock w) [] w" and ?H = "router_handler (app_router env)"
  have "\<exists>a row q. process_tx ?H e (pg_stores jsonb) ?w1 =
      (Inr False, ?w1\<lparr>seqs := q, db := (db ?w1)\<lparr>user_audit_events := user_audit_events (db ?w1) @ [a],
         processed_kafka_events := processed_kafka_events (db ?w1) @ [row]\<rparr>\<rparr>) \<and>
    ProcessedRow_EventID row = KafkaEvent_EventID e \<and> UserAuditEvent_SourceEventID a = KafkaEvent_EventID e \<and>
    UserAuditEvent_UserID a = UserRegistered_UserId payload \<and> UserAuditEvent_EventType a = EventTypeUserRegistered"
    using process_tx_ok [OF _ h, of ?w1] new by simp
  then obtain a row q where b: "process_tx ?H e (pg_stores jsonb) ?w1 =
      (Inr False, ?w1\<lparr>seqs := q, db := (db ?w1)\<lparr>user_audit_events := user_audit_events (db ?w1) @ [a],
         processed_kafka_events := processed_kafka_events (db ?w1) @ [row]\<rparr>\<rparr>)"
    and ab: "ProcessedRow_EventID row = KafkaEvent_EventID e" "UserAuditEvent_SourceEventID a = KafkaEvent_EventID e"
    "UserAuditEvent_UserID a = UserRegistered_UserId payload" "UserAuditEvent_EventType a = EventTypeUserRegistered"
    by blast
  let ?w2 = "?w1\<lparr>seqs := q, db := (db ?w1)\<lparr>user_audit_events := user_audit_events (db ?w1) @ [a],
         processed_kafka_events := processed_kafka_events (db ?w1) @ [row]\<rparr>, tx := None\<rparr>"
  have r: "consumer_run (process_tx ?H e (pg_stores jsonb)) w = (Inr False, ?w2)"
    using consumer_run_ok [where w = w and body = "process_tx ?H e (pg_stores jsonb)", OF assms(1) b] by simp
  let ?w3 = "?w2\<lparr>committed :=
     (committed w)((Record_Topic rec, Record_Partition rec) \<mapsto> Record_Offset rec + 1)\<rparr>"
  have "Consumer_processRecord (pg_consumer jsonb env timeout) rec w = (Inr (), ?w3)"
    using ev r unfolding Consumer_processRecord_def pgconsumer.consumer_wiring
    by (simp add: andThen_def mapErr_def CommitRecords_def external_empty modify_def)
  then show ?thesis
    by (rule_tac exI [of _ ?w3], rule_tac exI [of _ a]) (use ab in simp)
qed

section \<open>Properties\<close>

text \<open>
  C7: At most one effect per event. Whatever is polled, in whatever order and however often, and
  whatever fails, the consumer keeps the events it has audited and the events it has marked as
  processed the same, each once.
\<close>

theorem consumer_effectively_once:
  assumes "linked w" and "schema_ok (db w) (seqs w)"
    and "Consumer_Run (pg_consumer jsonb env timeout) ctxErr polls w = (r, w')"
  shows "audited_ids w' = processed_ids w' \<and> distinct (audited_ids w') \<and> schema_ok (db w') (seqs w')"
proof -
  have "exactly_once w" using assms(1,2) by (simp add: exactly_once_def)
  from pgconsumer.Run_keeps [OF this assms(3)] show ?thesis
    by (auto simp: exactly_once_def linked_def schema_defs)
qed


text \<open>
  C35: A valid user.registered record is consumed when the services answer: the record succeeds,
  its event is audited for the user in the payload, marked as processed, and its offset committed.
\<close>

theorem consumer_handles_registration:
  assumes "plan w = []" and "eventFromRecord rec = Inr e" and "handleable jsonb env e payload"
    and "KafkaEvent_EventID e \<notin> set (processed_ids w)" and "KafkaEvent_EventID e \<notin> set (audited_ids w)"
  shows "\<exists>w' a. Consumer_processRecord (pg_consumer jsonb env timeout) rec w = (Inr (), w') \<and>
    processed_ids w' = processed_ids w @ [KafkaEvent_EventID e] \<and>
    user_audit_events (db w') = user_audit_events (db w) @ [a] \<and>
    UserAuditEvent_SourceEventID a = KafkaEvent_EventID e \<and>
    UserAuditEvent_UserID a = UserRegistered_UserId payload \<and>
    UserAuditEvent_EventType a = EventTypeUserRegistered \<and>
    committed w' = (committed w)((Record_Topic rec, Record_Partition rec) \<mapsto> Record_Offset rec + 1)"
  using processRecord_ok [OF assms] by blast

lemma FormatInt_nonempty: "FormatInt n \<noteq> ''''"
  using show_nat_digits by (auto simp: FormatInt_def)

lemma eventFromRecord_published:
  assumes "OutboxEvent_EventType ev \<noteq> ''''" "OutboxEvent_AggregateType ev \<noteq> ''''"
    "OutboxEvent_AggregateID ev \<noteq> ''''" "OutboxEvent_EventVersion ev \<noteq> ''''" and "outbox_row_ok ev"
    and "unplaced rec = publisher_record p ev"
  shows "eventFromRecord rec = Inr \<lparr>KafkaEvent_EventID = FormatInt (OutboxEvent_ID ev),
     KafkaEvent_EventType = OutboxEvent_EventType ev, KafkaEvent_AggregateType = OutboxEvent_AggregateType ev,
     KafkaEvent_AggregateID = OutboxEvent_AggregateID ev, KafkaEvent_ContentType = OutboxEvent_ContentType ev,
     KafkaEvent_ProtoMessage = OutboxEvent_ProtoMessage ev, KafkaEvent_EventVersion = OutboxEvent_EventVersion ev,
     KafkaEvent_Payload = OutboxEvent_Payload ev, KafkaEvent_Topic = KafkaPublisher_topic p,
     KafkaEvent_Partition = Record_Partition rec, KafkaEvent_Offset = Record_Offset rec\<rparr>"
proof -
  have r: "Record_Headers rec = Record_Headers (publisher_record p ev)"
    "Record_Value rec = OutboxEvent_Payload ev" "Record_Topic rec = KafkaPublisher_topic p"
    using assms(6) by (cases rec; simp add: unplaced_def publisher_record_def)+
  have c: "OutboxEvent_ContentType ev \<noteq> ''''"
    "OutboxEvent_ContentType ev = ''application/x-protobuf'' \<longrightarrow> OutboxEvent_ProtoMessage ev \<noteq> ''''"
    using assms(5) by (auto simp: outbox_row_ok_def ContentTypeJSON_def ContentTypeProtobuf_def)
  have h: "header_map (\<lambda>_. '''') (Record_Headers rec) = (\<lambda>_. '''')
     (''event_id'' := FormatInt (OutboxEvent_ID ev), ''event_type'' := OutboxEvent_EventType ev,
      ''aggregate_type'' := OutboxEvent_AggregateType ev, ''aggregate_id'' := OutboxEvent_AggregateID ev,
      ''content_type'' := OutboxEvent_ContentType ev, ''proto_message'' := OutboxEvent_ProtoMessage ev,
      ''event_version'' := OutboxEvent_EventVersion ev)"
    unfolding r by (simp add: publisher_record_def)
  show ?thesis unfolding eventFromRecord_def Let_def h
    using assms(1-4) c r FormatInt_nonempty by simp
qed

text \<open>
  C36: Publisher and consumer agree on the record format: the event the consumer reads from a
  record the publisher made for a stored outbox event, wherever the broker placed it, is that
  event, with its id in decimal.
\<close>

theorem record_roundtrip:
  assumes "OutboxEvent_EventType ev \<noteq> ''''" "OutboxEvent_AggregateType ev \<noteq> ''''"
    "OutboxEvent_AggregateID ev \<noteq> ''''" "OutboxEvent_EventVersion ev \<noteq> ''''" and "outbox_row_ok ev"
    and "kafka_carries p ev rec"
  shows "eventFromRecord rec = Inr \<lparr>KafkaEvent_EventID = FormatInt (OutboxEvent_ID ev),
     KafkaEvent_EventType = OutboxEvent_EventType ev, KafkaEvent_AggregateType = OutboxEvent_AggregateType ev,
     KafkaEvent_AggregateID = OutboxEvent_AggregateID ev, KafkaEvent_ContentType = OutboxEvent_ContentType ev,
     KafkaEvent_ProtoMessage = OutboxEvent_ProtoMessage ev, KafkaEvent_EventVersion = OutboxEvent_EventVersion ev,
     KafkaEvent_Payload = OutboxEvent_Payload ev, KafkaEvent_Topic = KafkaPublisher_topic p,
     KafkaEvent_Partition = Record_Partition rec, KafkaEvent_Offset = Record_Offset rec\<rparr>"
  by (rule eventFromRecord_published [OF assms(1-5)])
    (use assms(6) in \<open>simp add: kafka_carries_def unplaced_def\<close>)

text \<open>
  C37: A failed record is skipped by the next fetch. When a record fails once (here its
  transaction cannot begin) and the next poll delivers the following record of the partition, the
  committed offset passes the failed record although its event was never processed.
\<close>

theorem consumer_skips_failed_record:
  assumes "plan w = [\<lparr>elapsed = d, fault = Lost t\<rparr>]" and "eventFromRecord r1 = Inr e1" and "eventFromRecord r2 = Inr e2"
    and "handleable jsonb env e1 payload1" and "handleable jsonb env e2 payload2"
    and "KafkaEvent_EventID e1 \<noteq> KafkaEvent_EventID e2"
    and "KafkaEvent_EventID e1 \<notin> set (processed_ids w)"
    and "KafkaEvent_EventID e2 \<notin> set (processed_ids w)" and "KafkaEvent_EventID e2 \<notin> set (audited_ids w)"
    and "Record_Topic r1 = Record_Topic r2" and "Record_Partition r1 = Record_Partition r2"
    and "Record_Offset r1 < Record_Offset r2"
  shows "\<exists>w' off. Consumer_Run (pg_consumer jsonb env timeout) ctxErr
      [PollRecords [[r1]], PollRecords [[r2]]] w = (None, w') \<and>
    committed w' (Record_Topic r1, Record_Partition r1) = Some off \<and> Record_Offset r1 < off \<and>
    KafkaEvent_EventID e1 \<notin> set (processed_ids w')"
proof -
  let ?c = "pg_consumer jsonb env timeout"
  let ?w0 = "w\<lparr>clock := clock w + int d, plan := []\<rparr>"
  have "Consumer_processRecord ?c r1 w =
      (Inl (wrapf ''begin kafka consumer tx'' (io_error t)), ?w0)"
    using assms(1,2) unfolding Consumer_processRecord_def pgconsumer.consumer_wiring
    by (simp add: consumer_run_def run_tx_def andThen_def mapErr_def pg_Begin_def next_outcome_def)
  then obtain cn where 1: "Consumer_processFetches ?c [[r1]] w = (Inr (), ?w0\<lparr>counters := cn\<rparr>)"
    by (simp add: attempt_def pgconsumer.consumer_wiring KafkaConsumerObserver_def metric_inc_def modify_def ret_def)
  let ?w1 = "?w0\<lparr>counters := cn\<rparr>"
  have p: "plan ?w1 = []" "KafkaEvent_EventID e2 \<notin> set (processed_ids ?w1)"
    "KafkaEvent_EventID e2 \<notin> set (audited_ids ?w1)" using assms(8,9) by simp_all
  from processRecord_ok [OF p(1) assms(3,5) p(2,3), of timeout] obtain w2 where
    2: "Consumer_processRecord ?c r2 ?w1 = (Inr (), w2)"
      "processed_ids w2 = processed_ids w @ [KafkaEvent_EventID e2]"
      "committed w2 (Record_Topic r2, Record_Partition r2) = Some (Record_Offset r2 + 1)" by auto
  then obtain cn' where "Consumer_processFetches ?c [[r2]] ?w1 = (Inr (), w2\<lparr>counters := cn'\<rparr>)"
    by (simp add: attempt_def pgconsumer.consumer_wiring KafkaConsumerObserver_def metric_inc_def modify_def ret_def)
  with 1 have "Consumer_Run ?c ctxErr [PollRecords [[r1]], PollRecords [[r2]]] w = (None, w2\<lparr>counters := cn'\<rparr>)"
    by simp
  with 2 assms(6,7,10,11,12) show ?thesis
    by (intro exI [of _ "w2\<lparr>counters := cn'\<rparr>"] exI [of _ "Record_Offset r2 + 1"]) simp
qed


section \<open>A concrete run\<close>

definition sample_registered :: UserRegistered where
  "sample_registered = \<lparr>UserRegistered_UserId = 7, UserRegistered_Email = ''a@b.c'', UserRegistered_Role = ''user''\<rparr>"

definition sample_consumer_env :: consumer_env where
  "sample_consumer_env = \<lparr>cenv_unmarshal = (\<lambda>_. Inr sample_registered), cenv_quote = (\<lambda>s. s),
     cenv_time = (\<lambda>_. '''')\<rparr>"

definition sample_record :: "nat \<Rightarrow> KafkaRecord" where
  "sample_record i = (publisher_record sample_publisher (sample_event (int i)))\<lparr>Record_Offset := int i\<rparr>"

definition sample_consumed :: "nat \<Rightarrow> KafkaEvent" where
  "sample_consumed i = \<lparr>KafkaEvent_EventID = FormatInt (int i), KafkaEvent_EventType = EventTypeUserRegistered,
     KafkaEvent_AggregateType = AggregateUser, KafkaEvent_AggregateID = FormatInt (int i),
     KafkaEvent_ContentType = ContentTypeProtobuf, KafkaEvent_ProtoMessage = ProtoMessageUserRegistered,
     KafkaEvent_EventVersion = EventVersionV1, KafkaEvent_Payload = ''payload'',
     KafkaEvent_Topic = ''identity.events'', KafkaEvent_Partition = Record_Partition (sample_record i),
     KafkaEvent_Offset = int i\<rparr>"

lemma sample_event_row: "outbox_row_ok (sample_event i)"
  by (simp add: outbox_row_ok_def sample_outbox_defs event_texts)

lemma sample_event_texts: "OutboxEvent_EventType (sample_event i) \<noteq> ''''"
    "OutboxEvent_AggregateType (sample_event i) \<noteq> ''''" "OutboxEvent_AggregateID (sample_event i) \<noteq> ''''"
    "OutboxEvent_EventVersion (sample_event i) \<noteq> ''''"
  by (simp_all add: sample_outbox_defs FormatInt_nonempty EventTypeUserRegistered_def AggregateUser_def
      EventVersionV1_def del: empty_iff)

lemma sample_record_carries: "kafka_carries sample_publisher (sample_event (int i)) (sample_record i)"
  by (simp add: kafka_carries_def sample_record_def publisher_record_def)

lemma sample_consumed_ok: "eventFromRecord (sample_record i) = Inr (sample_consumed i)"
  by (subst eventFromRecord_published [OF sample_event_texts sample_event_row, of _ sample_publisher])
    (simp_all add: sample_record_def sample_consumed_def unplaced_def publisher_record_def sample_outbox_defs)

lemma FormatInt_7: "FormatInt 7 = ''7''"
  by code_simp

lemma sample_handleable: "handleable Some sample_consumer_env (sample_consumed i) sample_registered"
  by (simp add: handleable_def sample_consumed_def sample_consumer_env_def audit_payload_def
      UserRegisteredPayload_json_def sample_registered_def quoted_def FormatInt_7 escape_char_def
      pg_text_ascii is_ascii_def)

lemma sample_linked: "linked empty_world" "schema_ok (db empty_world) (seqs empty_world)"
  "plan empty_world = []" "audited_ids empty_world = []" "processed_ids empty_world = []"
  by (simp_all add: linked_def empty_world_def empty_tables_def schema_defs seq_ge_def serial_ok_def)

theorem consumer_effectively_once_witness:
  "distinct (audited_ids (snd (Consumer_Run (pg_consumer Some sample_consumer_env 5) (Sentinel ContextCanceled)
     [PollRecords [[sample_record 1, sample_record 1]], PollDone] empty_world)))"
  using consumer_effectively_once [OF sample_linked(1,2) prod.collapse [symmetric]] by blast

lemma sample_processed: "\<exists>w'. Consumer_processRecord (pg_consumer Some sample_consumer_env 5) (sample_record i) empty_world =
    (Inr (), w') \<and> committed w' (''identity.events'', 0) = Some (int i + 1)"
  using processRecord_ok [OF sample_linked(3) sample_consumed_ok sample_handleable, of i 5]
  by (auto simp: sample_linked(4,5) sample_record_def publisher_record_def sample_publisher_def)


theorem consumer_handles_registration_witness:
  "\<exists>w' a. Consumer_processRecord (pg_consumer Some sample_consumer_env 5) (sample_record 1) empty_world =
     (Inr (), w') \<and> user_audit_events (db w') = [a] \<and> UserAuditEvent_UserID a = 7"
proof -
  have "KafkaEvent_EventID (sample_consumed 1) \<notin> set (processed_ids empty_world)"
    "KafkaEvent_EventID (sample_consumed 1) \<notin> set (audited_ids empty_world)"
    by (simp_all add: sample_linked(4,5) del: set_map)
  from consumer_handles_registration [OF sample_linked(3) sample_consumed_ok sample_handleable this, of 5]
  show ?thesis by (auto simp: sample_registered_def empty_world_def empty_tables_def)
qed

theorem record_roundtrip_witness:
  "\<exists>e. eventFromRecord (sample_record 3) = Inr e \<and> KafkaEvent_EventID e = FormatInt 3 \<and>
     KafkaEvent_Payload e = ''payload'' \<and> KafkaEvent_Offset e = 3"
  by (subst record_roundtrip [OF sample_event_texts sample_event_row sample_record_carries])
    (simp add: sample_outbox_defs sample_record_def)

theorem consumer_skips_failed_record_witness:
  "\<exists>w' off. Consumer_Run (pg_consumer Some sample_consumer_env 5) (Sentinel ContextCanceled)
      [PollRecords [[sample_record 1]], PollRecords [[sample_record 2]]]
      (empty_world\<lparr>plan := [\<lparr>elapsed = 1, fault = Lost ''conn''\<rparr>]\<rparr>) = (None, w') \<and>
    committed w' (Record_Topic (sample_record 1), Record_Partition (sample_record 1)) = Some off \<and>
    1 < off \<and> FormatInt 1 \<notin> set (processed_ids w')"
proof -
  let ?w = "empty_world\<lparr>plan := [\<lparr>elapsed = 1, fault = Lost ''conn''\<rparr>]\<rparr>"
  have n: "audited_ids ?w = []" "processed_ids ?w = []" using sample_linked(4,5) by simp_all
  have i: "FormatInt 1 \<noteq> FormatInt 2" by code_simp
  from i have "KafkaEvent_EventID (sample_consumed 1) \<noteq> KafkaEvent_EventID (sample_consumed 2)"
    "KafkaEvent_EventID (sample_consumed 1) \<notin> set (processed_ids ?w)"
    "KafkaEvent_EventID (sample_consumed 2) \<notin> set (processed_ids ?w)"
    "KafkaEvent_EventID (sample_consumed 2) \<notin> set (audited_ids ?w)"
    "Record_Topic (sample_record 1) = Record_Topic (sample_record 2)"
    "Record_Partition (sample_record 1) = Record_Partition (sample_record 2)"
    "Record_Offset (sample_record 1) < Record_Offset (sample_record 2)"
    unfolding n by (simp_all add: sample_consumed_def sample_record_def publisher_record_def)
  from consumer_skips_failed_record [OF _ sample_consumed_ok sample_consumed_ok sample_handleable
      sample_handleable this, of 1 "''conn''" 5 "Sentinel ContextCanceled"]
  show ?thesis by (simp add: sample_consumed_def sample_record_def del: Consumer_Run.simps)
qed

end
