(* ===== verification/Whole_System.thy ===== *)
theory Whole_System
  imports Effects Kafka_Consumer
begin

text \<open>
  The running system: requests over HTTP, calls over gRPC, runs of the outbox worker and of the
  Kafka consumer as internal/app/app.go wires them, and the environment that moves the clock, loses
  Redis entries and decides which external calls fail, in any order, from an empty database. A step
  is one request, call or run, executed as the code executes it; the invariants of the parts meet here.
\<close>

section \<open>The worker and the consumer of the application\<close>

definition publisher_config :: "Config \<Rightarrow> KafkaPublisherConfig" where
  "publisher_config cfg =
     \<lparr>KafkaPublisherConfig_Brokers = BrokerList (Config_Kafka cfg),
      KafkaPublisherConfig_Topic = KafkaConfig_OutboxTopic (Config_Kafka cfg),
      KafkaPublisherConfig_ProducerBatchMaxBytes = KafkaConfig_ProducerBatchMaxBytes (Config_Kafka cfg),
      KafkaPublisherConfig_ProducerLinger = KafkaConfig_ProducerLinger (Config_Kafka cfg),
      KafkaPublisherConfig_ProduceTimeout = TimeoutsConfig_KafkaProduce (Config_Timeouts cfg)\<rparr>"

definition app_publisher :: "Config \<Rightarrow> KafkaPublisher" where
  "app_publisher cfg = \<lparr>KafkaPublisher_topic = KafkaConfig_OutboxTopic (Config_Kafka cfg),
     KafkaPublisher_produceTimeout = TimeoutsConfig_KafkaProduce (Config_Timeouts cfg)\<rparr>"

text \<open>\<open>initOutboxModule\<close>: the worker it starts, or the error it returns.\<close>

definition initOutboxModule ::
  "(kgo_Opt list \<Rightarrow> go_error option) \<Rightarrow> (string \<Rightarrow> int) \<Rightarrow> Config \<Rightarrow> go_error + Worker" where
  "initOutboxModule newClient pt cfg =
     (case NewKafkaPublisher newClient (publisher_config cfg) of
        Inl err \<Rightarrow> Inl (wrapf ''create kafka publisher'' err)
      | Inr kafkaPublisher \<Rightarrow> Inr (NewWorker outbox_NewPostgresRepository (kafka_publisher pt kafkaPublisher)
          (Config_Worker cfg) [WithObserver (Some OutboxObserver)]))"

text \<open>\<open>initKafkaConsumerModule\<close>: the consumer it starts, or the error it returns.\<close>

definition initKafkaConsumerModule ::
  "(kgo_Opt list \<Rightarrow> go_error option) \<Rightarrow> (string \<Rightarrow> string option) \<Rightarrow> consumer_env \<Rightarrow> Config \<Rightarrow> go_error + Consumer" where
  "initKafkaConsumerModule newClient jsonb env cfg =
     (case NewConsumer newClient
         \<lparr>consumer_Brokers = BrokerList (Config_Kafka cfg), consumer_Topic = KafkaConfig_OutboxTopic (Config_Kafka cfg),
          consumer_ConsumerGroup = KafkaConfig_ConsumerGroup (Config_Kafka cfg),
          consumer_ProcessTimeout = TimeoutsConfig_KafkaConsume (Config_Timeouts cfg)\<rparr>
         (Some (router_handler (Router_Register NewRouter EventTypeUserRegistered (user_registered_handler env))))
         (Some (consumer_WithinTx jsonb)) [consumer_WithObserver (Some KafkaConsumerObserver)] of
        Inl err \<Rightarrow> Inl (wrapf ''create kafka consumer'' err)
      | Inr c \<Rightarrow> Inr c)"

lemma outbox_module_worker:
  "initOutboxModule newClient pt cfg = Inr wk \<Longrightarrow> wk = kafka_worker pt (app_publisher cfg) (Config_Worker cfg)"
  by (auto simp: initOutboxModule_def NewKafkaPublisher_def publisher_config_def app_publisher_def kafka_worker_def
      outbox_worker_def Let_def split: sum.splits if_splits option.splits)

lemma consumer_module_consumer:
  "initKafkaConsumerModule newClient jsonb env cfg = Inr c \<Longrightarrow>
     c = pg_consumer jsonb env (TimeoutsConfig_KafkaConsume (Config_Timeouts cfg))"
  by (auto simp: initKafkaConsumerModule_def NewConsumer_def pg_consumer_def app_router_def consumer_WithObserver_def
      split: sum.splits if_splits option.splits)

section \<open>What the worker leaves alone\<close>

lemma worker_keeps:
  assumes "timeless K"
    and "\<And>lim lt. keeps K (Store_FetchBatch S lim lt)" "\<And>i. keeps K (Store_MarkProcessed S i)"
      "\<And>i t m. keeps K (Store_MarkFailed S i t m)" "\<And>e. keeps K (Publisher_Publish P e)"
      "\<And>x. keeps K (Observer_EventFailed obs x)" "\<And>x. keeps K (Observer_EventProcessed obs x)"
  shows "Worker_Run (outbox_worker S P obs cfg) ctxErr its w = (r, w') \<Longrightarrow> K w \<Longrightarrow> K w'"
proof (induction its arbitrary: w)
  case (Cons it its)
  let ?wk = "outbox_worker S P obs cfg"
  have e: "keeps K (Worker_processEvent ?wk ev)" for ev
    unfolding Worker_processEvent_def by (auto intro!: keeps_intros assms)
  have "keeps K (Worker_processBatch ?wk es)" for es
    by (induction es) (auto intro!: keeps_intros e)
  then have "keeps K (Worker_ProcessOnce ?wk)"
    unfolding Worker_ProcessOnce_def by (auto intro!: keeps_intros assms)
  then have "K (snd (Worker_ProcessOnce ?wk w))" using Cons.prems(2) by (rule keeps_snd)
  moreover have "K (u\<lparr>clock := t\<rparr>)" if "K u" for u t
  proof -
    have "K (u\<lparr>clock := t, plan := plan u\<rparr>)" using assms(1) that unfolding timeless_def by blast
    then show ?thesis by simp
  qed
  ultimately have "K ((snd (Worker_ProcessOnce ?wk w))\<lparr>clock := t\<rparr>)" for t by blast
  with Cons show ?case by (auto simp: Let_def split: if_splits)
qed simp

definition beside_outbox :: "world \<Rightarrow> User list \<times> ProcessedRow list \<times> UserAuditEvent list" where
  "beside_outbox w = (users (db w), processed_kafka_events (db w), user_audit_events (db w))"

lemma beside_outbox_update [simp]:
  "beside_outbox (w\<lparr>clock := cl, plan := p\<rparr>) = beside_outbox w"
  by (simp add: beside_outbox_def)

lemma outbox_beside:
  "frame beside_outbox (Store_FetchBatch outbox_NewPostgresRepository lim lt)"
  "frame beside_outbox (Store_MarkProcessed outbox_NewPostgresRepository i)"
  "frame beside_outbox (Store_MarkFailed outbox_NewPostgresRepository i t mx)"
  "frame beside_outbox (Publisher_Publish (kafka_publisher pt p) e)"
proof -
  have c: "frame beside_outbox (claim_batch n b)" "frame beside_outbox (update_outbox q f)" for n b q f
    by (auto simp: frame_def beside_outbox_def claim_batch_def update_outbox_def Let_def)
  have "frame beside_outbox (mapErr (wrapf ''fetch outbox events'') (sql [] (claim_batch n b)))" for n b
    by (intro frame_intros c beside_outbox_update)
  then show "frame beside_outbox (Store_FetchBatch outbox_NewPostgresRepository lim lt)"
    by (simp add: frame_def outbox_NewPostgresRepository_def outbox_PostgresRepository_FetchBatch_def Let_def ret_def)
  show "frame beside_outbox (Store_MarkProcessed outbox_NewPostgresRepository i)"
    "frame beside_outbox (Store_MarkFailed outbox_NewPostgresRepository i t mx)"
    unfolding outbox_NewPostgresRepository_def Store.simps outbox_PostgresRepository_MarkProcessed_def
      outbox_PostgresRepository_MarkFailed_def
    by (intro frame_intros c beside_outbox_update)+
  show "frame beside_outbox (Publisher_Publish (kafka_publisher pt p) e)"
    using kafka_pub.only_log [OF prod.collapse [symmetric]] by (simp add: frame_def log_step_def beside_outbox_def)
qed

text \<open>A run of the worker, all in all.\<close>

lemma worker_run:
  assumes "schema_ok (db w) (seqs w)" and "Worker_Run (kafka_worker pt p cfg) ctxErr its w = (r, w')"
  shows "schema_ok (db w') (seqs w')" "beside_outbox w' = beside_outbox w"
    "worker_step (kafka_carries p) (WorkerConfig_MaxAttempts cfg) w w'"
proof -
  note run = assms(2) [unfolded kafka_worker_def]
  have obs: "frame v (Observer_EventFailed OutboxObserver x)" "frame v (Observer_EventProcessed OutboxObserver x)"
    if "\<And>w c. v (w\<lparr>counters := c\<rparr>) = v w" for v :: "world \<Rightarrow> 'v" and x
    using that by (simp_all add: OutboxObserver_def frame_def metric_inc_def modify_def)
  have fk: "keeps (\<lambda>w'. beside_outbox w' = beside_outbox w) m" if "frame beside_outbox m" for m :: "'x prog"
    by (rule frame_keeps [where v = beside_outbox and J = "\<lambda>b. b = beside_outbox w", OF that])
  have bo: "frame beside_outbox (Observer_EventFailed OutboxObserver x)"
    "frame beside_outbox (Observer_EventProcessed OutboxObserver x)" for x
    by (rule obs; simp add: beside_outbox_def)+
  show "beside_outbox w' = beside_outbox w"
    by (rule worker_keeps [where K = "\<lambda>w'. beside_outbox w' = beside_outbox w", OF _ _ _ _ _ _ _ run refl])
      (rule timelessI fk outbox_beside bo, simp?)+
  have co: "keeps (consistent q) (Observer_EventFailed OutboxObserver x)"
    "keeps (consistent q) (Observer_EventProcessed OutboxObserver x)" for q x
    by (intro consistent_frame obs; simp)+
  have pub: "keeps (consistent q) (Publisher_Publish (kafka_publisher pt p) e)" for q e
    using kafka_pub.only_log [OF prod.collapse [symmetric]]
    by (simp add: consistent_frame frame_def log_step_def)
  have "consistent (seqs w) w'"
    by (rule worker_keeps [where K = "consistent (seqs w)", OF timeless_consistent pg_outbox.keeps_schema(1-3) pub co run])
      (rule schema_consistent [OF assms(1)])
  then show "schema_ok (db w') (seqs w')" by (rule consistent_schema)
  show "worker_step (kafka_carries p) (WorkerConfig_MaxAttempts cfg) w w'"
    by (rule kafka_Run_step [OF schema_consistent [OF assms(1)] assms(2)])
qed


section \<open>What the consumer leaves alone\<close>

fun polled :: "poll list \<Rightarrow> KafkaRecord list" where
  "polled [] = []"
| "polled (PollRecords fs # ps) = concat fs @ polled ps"
| "polled (PollDone # ps) = polled ps"
| "polled (PollErrors # ps) = polled ps"

lemma consumer_keeps:
  assumes "\<And>rec. rec \<in> R \<Longrightarrow> keeps K (Consumer_processRecord c rec)"
    and "\<And>x. keeps K (Observer_EventFailed (Consumer_observer c) x)" "\<And>x. keeps K (Observer_EventProcessed (Consumer_observer c) x)"
  shows "set (polled ps) \<subseteq> R \<Longrightarrow> Consumer_Run c ctxErr ps w = (r, w') \<Longrightarrow> K w \<Longrightarrow> K w'"
proof (induction ps arbitrary: w)
  case (Cons p ps)
  have part: "set rs \<subseteq> R \<Longrightarrow> keeps K (Consumer_processPartition c rs)" for rs
    by (induction rs) (auto intro!: keeps_intros assms)
  have fetch: "set (concat fs) \<subseteq> R \<Longrightarrow> keeps K (Consumer_processFetches c fs)" for fs
    by (induction fs) (auto intro!: keeps_intros part)
  show ?case
  proof (cases p)
    case (PollRecords fs)
    with Cons.prems have "K (snd (Consumer_processFetches c fs w))" by (intro keeps_snd [OF fetch]) simp_all
    with Cons PollRecords show ?thesis by simp
  qed (use Cons in auto)
qed simp

text \<open>The events a set of records names.\<close>

definition named_ids :: "KafkaRecord set \<Rightarrow> string set" where
  "named_ids R = {KafkaEvent_EventID e | e rec. rec \<in> R \<and> eventFromRecord rec = Inr e}"

definition beside_audit :: "world \<Rightarrow> User list \<times> OutboxEvent list \<times> KafkaRecord list" where
  "beside_audit w = (users (db w), outbox_events (db w), topic_log w)"

definition consumed :: "KafkaRecord set \<Rightarrow> world \<Rightarrow> world \<Rightarrow> bool" where
  "consumed R w w' \<longleftrightarrow> beside_audit w' = beside_audit w \<and>
     set (processed_ids w') \<subseteq> set (processed_ids w) \<union> named_ids R"

lemma processRecord_consumed:
  assumes "rec \<in> R"
  shows "keeps (consumed R w) (Consumer_processRecord (pg_consumer jsonb env timeout) rec)"
proof (rule keepsI)
  fix u assume u: "consumed R w u"
  let ?H = "router_handler (app_router env)" and ?c = "pg_consumer jsonb env timeout"
  show "consumed R w (snd (Consumer_processRecord ?c rec u))"
  proof (cases "eventFromRecord rec")
    case (Inl err)
    with u show ?thesis by (simp add: Consumer_processRecord_def throw_def)
  next
    case (Inr e)
    obtain q u1 where 1: "consumer_run (process_tx ?H e (pg_stores jsonb)) u = (q, u1)" by (rule prod.exhaust)
    have only: "db_only (process_tx ?H e (pg_stores jsonb))" by (rule pgconsumer.process_tx_only)
    have "topic_log u1 = topic_log u"
      using frameD [OF run_tx_apart [OF db_only_apart [OF only], THEN apart_topic]] 1
      unfolding consumer_run_def by blast
    moreover from consumer_tx.all_or_nothing [OF db_only_frames(1) [OF only] 1]
    have "users (db u1) = users (db u) \<and> outbox_events (db u1) = outbox_events (db u) \<and>
      set (processed_ids u1) \<subseteq> insert (KafkaEvent_EventID e) (set (processed_ids u))"
      by (auto dest!: pgconsumer.process_tx_Inr split: if_splits)
    moreover have "KafkaEvent_EventID e \<in> named_ids R" using assms Inr by (auto simp: named_ids_def)
    ultimately have c: "consumed R w u1"
      using u by (simp add: consumed_def beside_audit_def del: set_map) blast
    have "frame beside_audit (CommitRecords rec)" "frame processed_ids (CommitRecords rec)"
      unfolding CommitRecords_def by (intro frame_intros; simp add: frame_def modify_def beside_audit_def)+
    then have k: "keeps (consumed R w) (CommitRecords rec)"
      by (simp add: keeps_def frame_def consumed_def)
    have "Consumer_processRecord ?c rec u = andThen (consumer_run (process_tx ?H e (pg_stores jsonb)))
        (\<lambda>dup. mapErr (wrapf ''commit kafka record'') (CommitRecords rec)) u"
      using Inr by (simp add: Consumer_processRecord_def pgconsumer.consumer_wiring)
    with 1 c keeps_snd [OF keeps_mapErr [OF k] c] show ?thesis
      by (cases q) (auto simp: andThen_def)
  qed
qed

lemma consumer_run_effect:
  assumes "exactly_once w" and "Consumer_Run (pg_consumer jsonb env timeout) ctxErr ps w = (r, w')"
  shows "exactly_once w'" "consumed (set (polled ps)) w w'"
proof -
  show "exactly_once w'" by (rule pgconsumer.Run_keeps [OF assms])
  let ?c = "pg_consumer jsonb env timeout" and ?K = "consumed (set (polled ps)) w"
  have obs: "keeps ?K (Observer_EventFailed KafkaConsumerObserver x)" "keeps ?K (Observer_EventProcessed KafkaConsumerObserver x)" for x
    by (simp_all add: KafkaConsumerObserver_def keeps_def metric_inc_def modify_def consumed_def beside_audit_def)
  have "Consumer_observer ?c = KafkaConsumerObserver" by (rule pgconsumer.consumer_wiring)
  then show "?K w'"
    using consumer_keeps [OF processRecord_consumed _ _ subset_refl assms(2)] obs
    by (simp add: consumed_def)
qed


section \<open>What a request or a call leaves behind\<close>

lemma request_effect_trans:
  assumes "request_effect a b" "request_effect b c"
  shows "request_effect a c"
proof -
  from assms(1) obtain es where es: "outbox_events b = outbox_events a @ es" "\<forall>ev \<in> set es. OutboxEvent_Status ev = StatusNew"
    "\<forall>i \<in> set (map User_ID (users b)) - set (map User_ID (users a)). \<exists>ev \<in> set es. announces_user i ev"
    unfolding request_effect_def by blast
  from assms(2) obtain fs where fs: "outbox_events c = outbox_events b @ fs" "\<forall>ev \<in> set fs. OutboxEvent_Status ev = StatusNew"
    "\<forall>i \<in> set (map User_ID (users c)) - set (map User_ID (users b)). \<exists>ev \<in> set fs. announces_user i ev"
    unfolding request_effect_def by blast
  have "\<forall>i \<in> set (map User_ID (users c)) - set (map User_ID (users a)). \<exists>ev \<in> set (es @ fs). announces_user i ev"
    using es(3) fs(3) by (simp del: set_map) blast
  then show ?thesis
    unfolding request_effect_def using assms es(1,2) fs(1,2)
    by (intro conjI exI [of _ "es @ fs"]) (auto simp: request_effect_def)
qed

definition request_step :: "world \<Rightarrow> world \<Rightarrow> bool" where
  "request_step w w' \<longleftrightarrow> request_effect (db w) (db w') \<and> topic_log w' = topic_log w \<and> consistent (seqs w) w'"

lemma keeps_request_step:
  assumes "request_effects m" "frame topic_log m" "\<And>q. keeps (consistent q) m"
  shows "keeps (request_step w) m"
  using assms unfolding keeps_def request_step_def request_effects_def frame_def
  by (blast intro: request_effect_trans dest: trans)

lemma keeps_request_step_frame:
  assumes "frame (\<lambda>w. (db w, seqs w, topic_log w)) m"
  shows "keeps (request_step w) m"
  using assms by (simp add: keeps_def frame_def request_step_def consistent_def)

lemma neutral_request_step: "neutral (request_step w)"
  by (simp add: neutral_def request_step_def consistent_def)

text \<open>The parts that are not in the repository leave the tables and the topic alone.\<close>

definition bystanders :: "libs \<Rightarrow> bool" where
  "bystanders L \<longleftrightarrow> (\<forall>r. frame (\<lambda>c. (db (conn_world c), seqs (conn_world c), topic_log (conn_world c))) (lib_metrics_handler L r)) \<and>
     (\<forall>m \<in> {lib_ping_db L, lib_ping_redis L, lib_ping_kafka L}. frame (\<lambda>w. (db w, seqs w, topic_log w)) m)"

lemma app_request_ops:
  assumes "bystanders L"
  shows "request_ops L cfg (request_step w)"
proof -
  let ?a = "app_auth_service L cfg" and ?u = "app_user_service L cfg"
  obtain pg h tm ttl env where a: "?a = pg_auth pg h tm ttl env"
    by (auto simp: app_auth_handler_def auth_NewHandler_def Let_def)
  obtain pg' h' env' timeout errText ttl' where u: "?u = app_user pg' h' env' timeout errText ttl'"
    by (auto simp: app_user_service_def)
  have auth: "keeps (request_step w) (auth_Register ?a x1)" "keeps (request_step w) (auth_Login ?a x2)"
    "keeps (request_step w) (auth_Refresh ?a x3)" "keeps (request_step w) (auth_Logout ?a x4)"
    "keeps (request_step w) (auth_Me ?a x5)" for x1 x2 x3 x4 x5
    by (intro keeps_request_step auth_effects [OF a] auth_apart [OF a, THEN apart_topic];
        simp add: a pgauth.Register_only pgauth.Login_only pgauth.Refresh_only pgauth.Logout_only pgauth.Me_only)+
  have user: "keeps (request_step w) (CreateUser ?u x1)" "keeps (request_step w) (CreateUserWithProfile ?u x2)"
    "keeps (request_step w) (GetUser ?u i)" "keeps (request_step w) (ListUsers ?u x3)"
    "keeps (request_step w) (UpdateUser ?u i x4)" "keeps (request_step w) (DeleteUser ?u i)"
    "keeps (request_step w) (GetUserByEmail ?u m)" for x1 x2 x3 x4 i m
    by (intro keeps_request_step user_effects [OF u] user_apart [OF uncached_totals(1) u, THEN apart_topic];
        simp add: u pguser.user_ops_only)+
  have lim: "keeps (request_step w) (RateLimiter_Allow (redis_limiter l) k n win)" for l k n win
    using redis_limiter.allow_frames limiter_apart [THEN apart_topic]
    by (intro keeps_request_step_frame) (simp add: frame_def)
  have ping: "keeps (request_step w) m" if "m \<in> {lib_ping_db L, lib_ping_redis L, lib_ping_kafka L}" for m
    using assms that by (auto simp: bystanders_def intro!: keeps_request_step_frame)
  have mh: "keeps (\<lambda>c. request_step w (conn_world c)) (lib_metrics_handler L r)" for r
    using assms by (simp add: bystanders_def keeps_def frame_def request_step_def consistent_def)
  show ?thesis unfolding request_ops_def using auth user lim ping mh by simp
qed

lemma http_step:
  assumes "bystanders L" and "schema_ok (db w) (seqs w)"
    and "app_handler (Run_app L cfg sd) r c = (res, c')" and "conn_world c = w"
  shows "request_step w (conn_world c')"
proof (rule keepsD [OF app_handler_keeps [OF neutral_request_step app_request_ops [OF assms(1)]] assms(3)])
  show "request_step w (conn_world c)"
    using assms(2,4) by (simp add: request_step_def request_effect_refl schema_consistent)
qed

lemma keeps_reading:
  "keeps K m \<Longrightarrow> (\<And>a. keeps K (k a)) \<Longrightarrow> keeps K (reading m k)"
  by (auto simp: keeps_def reading_def throw_def split: prod.split sum.split)

lemma grpc_step:
  assumes "bystanders L" and "schema_ok (db w) (seqs w)" and "initGRPCModule L cfg md req w = (res, w')"
  shows "request_step w w'"
proof -
  let ?s = "app_user_service L cfg" and ?K = "request_step w"
  note ops = app_request_ops [OF assms(1), unfolded request_ops_def]
  have "keeps ?K (GetUser ?s i)" "keeps ?K (ListUsers ?s inp)" for i inp using ops by blast+
  then have h: "keeps ?K (UserService_handler (service_reader ?s) ctx req)" for ctx
    unfolding UserService_handler_def UserService_GetUser_def UserService_ListUsers_def Let_def service_reader_def
    by (cases req; simp only: rpc_request.case UserReader.simps) (intro keeps_intros keeps_reading; assumption)+
  have K: "?K w" using assms(2) by (simp add: request_step_def request_effect_refl schema_consistent)
  obtain r w1 where 1: "rpc_answer (app_interceptor L cfg) (service_reader ?s) md req w = (r, w1)" by (rule prod.exhaust)
  then have "?K w1"
    using K keepsD [OF h _ K] by (auto simp: rpc_answer_def Let_def split: sum.splits)
  moreover have "w' = count_rpc req (grpc_Code res) w1"
    using assms(3) 1 by (auto simp: initGRPCModule_def grpc_serve_answer)
  ultimately show ?thesis
    by (simp add: count_rpc_def metric_inc_def modify_def request_step_def consistent_def)
qed


section \<open>The system and its states\<close>

record system =
  sys_libs :: libs
  sys_config :: Config
  sys_newClient :: "kgo_Opt list \<Rightarrow> go_error option"
  sys_partitioner :: "string \<Rightarrow> int"
  sys_jsonb :: "string \<Rightarrow> string option"
  sys_consumer_env :: consumer_env

abbreviation sys_worker :: "system \<Rightarrow> go_error + Worker" where
  "sys_worker S \<equiv> initOutboxModule (sys_newClient S) (sys_partitioner S) (sys_config S)"

abbreviation sys_consumer :: "system \<Rightarrow> go_error + Consumer" where
  "sys_consumer S \<equiv> initKafkaConsumerModule (sys_newClient S) (sys_jsonb S) (sys_consumer_env S) (sys_config S)"

text \<open>
  One step. The environment gives Kafka's consumer only records of the topic, and never turns the
  clock back; it may do anything else to what the program reads from outside: drop or forge Redis
  entries, and choose the outcomes of the coming calls and of the random source.
\<close>

inductive system_step :: "system \<Rightarrow> world \<Rightarrow> world \<Rightarrow> bool" for S where
  http_request: "app_handler (Run_app (sys_libs S) (sys_config S) shuttingDown) r c = (res, c') \<Longrightarrow>
    conn_world c = w \<Longrightarrow> conn_status c = None \<Longrightarrow> system_step S w (conn_world c')"
| grpc_call: "initGRPCModule (sys_libs S) (sys_config S) md req w = (rpc, w') \<Longrightarrow> system_step S w w'"
| worker_runs: "sys_worker S = Inr wk \<Longrightarrow> Worker_Run wk ctxErr its w = (stopped, w') \<Longrightarrow> system_step S w w'"
| consumer_runs: "sys_consumer S = Inr cons \<Longrightarrow> set (polled ps) \<subseteq> set (topic_log w) \<Longrightarrow>
    Consumer_Run cons ctxErr ps w = (stopped, w') \<Longrightarrow> system_step S w w'"
| environment: "clock w \<le> t \<Longrightarrow> system_step S w (w\<lparr>clock := t, plan := pl, entropy := en, redis := rd\<rparr>)"

inductive system_reach :: "system \<Rightarrow> world \<Rightarrow> bool" for S where
  deployed: "system_reach S empty_world"
| moved: "system_reach S w \<Longrightarrow> system_step S w w' \<Longrightarrow> system_reach S w'"

definition recorded_as :: "Config \<Rightarrow> OutboxEvent \<Rightarrow> KafkaRecord \<Rightarrow> bool" where
  "recorded_as cfg = kafka_carries (app_publisher cfg)"

definition system_inv :: "Config \<Rightarrow> world \<Rightarrow> bool" where
  "system_inv cfg w \<longleftrightarrow> exactly_once w \<and> sent_ok (recorded_as cfg) w \<and>
     (\<forall>u \<in> set (users (db w)). \<exists>ev \<in> set (rows w). announces_user (User_ID u) ev) \<and>
     (\<forall>rec \<in> set (topic_log w). \<exists>ev \<in> set (rows w). recorded_as cfg ev rec) \<and>
     (\<forall>i \<in> set (processed_ids w). \<exists>ev \<in> set (rows w). i = FormatInt (OutboxEvent_ID ev) \<and>
        (\<exists>rec \<in> set (topic_log w). recorded_as cfg ev rec))"

lemma system_inv_empty: "system_inv cfg empty_world"
  using empty_world_schema
  by (simp add: system_inv_def exactly_once_def linked_def sent_ok_def rows_def)
    (simp add: empty_world_def empty_tables_def)

lemma inv_request_step:
  assumes I: "system_inv cfg w" and r: "request_step w w'"
  shows "system_inv cfg w'"
proof -
  from r obtain evs where e: "rows w' = rows w @ evs" "\<forall>ev \<in> set evs. OutboxEvent_Status ev = StatusNew"
    "\<forall>i \<in> set (map User_ID (users (db w'))) - set (map User_ID (users (db w))). \<exists>ev \<in> set evs. announces_user i ev"
    unfolding request_step_def request_effect_def rows_def by blast
  have same: "processed_kafka_events (db w') = processed_kafka_events (db w)"
    "user_audit_events (db w') = user_audit_events (db w)" "topic_log w' = topic_log w" "schema_ok (db w') (seqs w')"
    using r by (auto simp: request_step_def request_effect_def intro: consistent_schema)
  have "exactly_once w'" using I same by (simp add: system_inv_def exactly_once_def linked_def)
  moreover have "sent_ok (recorded_as cfg) w'" using I e(1,2) same by (auto simp: system_inv_def sent_ok_def)
  moreover have "\<forall>u \<in> set (users (db w')). \<exists>ev \<in> set (rows w'). announces_user (User_ID u) ev"
  proof
    fix u assume "u \<in> set (users (db w'))"
    then have u: "User_ID u \<in> set (map User_ID (users (db w')))" by simp
    show "\<exists>ev \<in> set (rows w'). announces_user (User_ID u) ev"
    proof (cases "User_ID u \<in> set (map User_ID (users (db w)))")
      case True
      then obtain v where v: "v \<in> set (users (db w))" "User_ID u = User_ID v" by auto
      from I v(1) have "\<exists>ev \<in> set (rows w). announces_user (User_ID v) ev" by (simp add: system_inv_def)
      then show ?thesis unfolding v(2) e(1) by auto
    next
      case False
      with u e(3) show ?thesis by (simp add: e(1) del: set_map) blast
    qed
  qed
  moreover have "\<forall>rec \<in> set (topic_log w'). \<exists>ev \<in> set (rows w'). recorded_as cfg ev rec"
    using I unfolding system_inv_def same e(1) set_append by blast
  moreover have "\<forall>i \<in> set (processed_ids w'). \<exists>ev \<in> set (rows w'). i = FormatInt (OutboxEvent_ID ev) \<and>
      (\<exists>rec \<in> set (topic_log w'). recorded_as cfg ev rec)"
    using I unfolding system_inv_def same e(1) set_append by blast
  ultimately show ?thesis by (simp add: system_inv_def)
qed

lemma inv_worker_step:
  assumes I: "system_inv cfg w" and s: "worker_step (recorded_as cfg) mx w w'"
    and b: "beside_outbox w' = beside_outbox w" and sch: "schema_ok (db w') (seqs w')"
  shows "system_inv cfg w'"
proof -
  have ev: "evolves mx (rows w) (rows w')" and t: "set (topic_log w) \<subseteq> set (topic_log w')"
    using s by (simp_all add: worker_step_def)
  have moved: "\<exists>f \<in> set (rows w'). content f = content e" if "e \<in> set (rows w)" for e
  proof -
    from that have "content e \<in> set (map content (rows w'))" by (simp add: evolves_content [OF ev])
    then show ?thesis by auto
  qed
  have carr: "recorded_as cfg f rec" if "recorded_as cfg e rec" "content f = content e" for e f rec
    using that kafka_pub.carries_content unfolding recorded_as_def by blast
  have same: "users (db w') = users (db w)" "processed_kafka_events (db w') = processed_kafka_events (db w)"
    "user_audit_events (db w') = user_audit_events (db w)" using b by (simp_all add: beside_outbox_def)
  have "exactly_once w'" using I same sch by (simp add: system_inv_def exactly_once_def linked_def)
  moreover have "sent_ok (recorded_as cfg) w'" using I s by (simp add: system_inv_def worker_step_def)
  moreover have "\<forall>u \<in> set (users (db w')). \<exists>f \<in> set (rows w'). announces_user (User_ID u) f"
    using I moved unfolding same system_inv_def announces_user_def by (metis content_eqD(2,4))
  moreover have "\<forall>rec \<in> set (topic_log w'). \<exists>f \<in> set (rows w'). recorded_as cfg f rec"
  proof
    fix rec assume rec: "rec \<in> set (topic_log w')"
    show "\<exists>f \<in> set (rows w'). recorded_as cfg f rec"
    proof (cases "rec \<in> set (topic_log w)")
      case True
      with I obtain e where "e \<in> set (rows w)" "recorded_as cfg e rec" by (auto simp: system_inv_def)
      with moved carr show ?thesis by blast
    qed (use s rec in \<open>simp add: worker_step_def\<close>)
  qed
  moreover have "\<forall>i \<in> set (processed_ids w'). \<exists>f \<in> set (rows w'). i = FormatInt (OutboxEvent_ID f) \<and>
      (\<exists>rec \<in> set (topic_log w'). recorded_as cfg f rec)"
  proof
    fix i assume "i \<in> set (processed_ids w')"
    then have "i \<in> set (processed_ids w)" by (simp add: same)
    with I obtain e rec where e: "e \<in> set (rows w)" "i = FormatInt (OutboxEvent_ID e)" "rec \<in> set (topic_log w)"
      "recorded_as cfg e rec" unfolding system_inv_def by blast
    from moved [OF e(1)] obtain f where f: "f \<in> set (rows w')" "content f = content e" by blast
    have "rec \<in> set (topic_log w')" "recorded_as cfg f rec" "i = FormatInt (OutboxEvent_ID f)"
      using e carr [OF e(4) f(2)] t content_eqD(1) [OF f(2)] by auto
    with f(1) show "\<exists>f \<in> set (rows w'). i = FormatInt (OutboxEvent_ID f) \<and>
        (\<exists>rec \<in> set (topic_log w'). recorded_as cfg f rec)" by blast
  qed
  ultimately show ?thesis by (simp add: system_inv_def)
qed


lemma recorded_id:
  assumes "recorded_as cfg ev rec" and "eventFromRecord rec = Inr e"
  shows "KafkaEvent_EventID e = FormatInt (OutboxEvent_ID ev)"
proof -
  have "Record_Headers (rec\<lparr>Record_Partition := 0, Record_Offset := 0\<rparr>) =
      Record_Headers (publisher_record (app_publisher cfg) ev)"
    using assms(1) unfolding recorded_as_def kafka_carries_def by (rule arg_cong)
  then have "Record_Headers rec = Record_Headers (publisher_record (app_publisher cfg) ev)" by simp
  with assms(2) show ?thesis
    by (auto simp: eventFromRecord_def Let_def publisher_record_def split: if_splits)
qed

lemma inv_consumer_run:
  assumes I: "system_inv cfg w" and one: "exactly_once w'" and c: "consumed R w w'" and R: "R \<subseteq> set (topic_log w)"
  shows "system_inv cfg w'"
proof -
  have same: "users (db w') = users (db w)" "rows w' = rows w" "topic_log w' = topic_log w"
    using c by (simp_all add: consumed_def beside_audit_def rows_def)
  have "\<exists>ev \<in> set (rows w). i = FormatInt (OutboxEvent_ID ev) \<and> (\<exists>rec \<in> set (topic_log w). recorded_as cfg ev rec)"
    if "i \<in> set (processed_ids w')" for i
  proof (cases "i \<in> set (processed_ids w)")
    case True
    with I show ?thesis unfolding system_inv_def by blast
  next
    case False
    with that c obtain e rec where e: "rec \<in> R" "eventFromRecord rec = Inr e" "i = KafkaEvent_EventID e"
      unfolding consumed_def named_ids_def by blast
    with R have rec: "rec \<in> set (topic_log w)" by blast
    with I obtain ev where "ev \<in> set (rows w)" "recorded_as cfg ev rec" by (auto simp: system_inv_def)
    with recorded_id [OF _ e(2)] e(3) rec show ?thesis by blast
  qed
  with I one same show ?thesis by (simp add: system_inv_def sent_ok_def)
qed

lemma system_inv_step:
  assumes libs: "bystanders (sys_libs S)" and "system_step S w w'" and I: "system_inv (sys_config S) w"
  shows "system_inv (sys_config S) w'"
proof -
  have sch: "schema_ok (db w) (seqs w)" and one: "exactly_once w" using I by (simp_all add: system_inv_def exactly_once_def)
  from assms(2) show ?thesis
  proof cases
    case (http_request sd r c res c')
    from http_step [OF libs sch http_request(2,3)] http_request(1) inv_request_step [OF I] show ?thesis by simp
  next
    case (grpc_call md req rpc)
    from grpc_step [OF libs sch this] show ?thesis by (rule inv_request_step [OF I])
  next
    case (worker_runs wk ctxErr its stopped)
    from worker_run [OF sch worker_runs(2) [unfolded outbox_module_worker [OF worker_runs(1)]]]
    show ?thesis by (intro inv_worker_step [OF I]) (simp_all add: recorded_as_def)
  next
    case (consumer_runs cons ps ctxErr stopped)
    from consumer_run_effect [OF one consumer_runs(3) [unfolded consumer_module_consumer [OF consumer_runs(1)]]]
    show ?thesis by (rule inv_consumer_run [OF I _ _ consumer_runs(2)])
  next
    case (environment t pl en rd)
    then show ?thesis using I by (simp add: system_inv_def exactly_once_def linked_def sent_ok_def rows_def)
  qed
qed

lemma system_inv_reach:
  assumes "system_reach S w" and "bystanders (sys_libs S)"
  shows "system_inv (sys_config S) w"
  using assms(1) by induction (auto intro: system_inv_empty system_inv_step [OF assms(2)])


section \<open>Properties\<close>

text \<open>
  C1: The invariant of the running system. However requests, calls, runs of the worker and of the
  consumer, failures and losses are interleaved: the tables satisfy every constraint of the schema;
  every user is announced by a user.registered event of the outbox; an event marked PROCESSED has
  its record in the topic; every record of the topic was made from an event of the outbox; the events
  audited are those marked as processed, each once; and each of them is an event of the outbox whose
  record is in the topic.
\<close>

theorem system_invariant:
  assumes "system_reach S w" and "bystanders (sys_libs S)"
  shows "schema_ok (db w) (seqs w) \<and>
    (\<forall>u \<in> set (users (db w)). \<exists>ev \<in> set (outbox_events (db w)).
       OutboxEvent_EventType ev = EventTypeUserRegistered \<and> OutboxEvent_AggregateID ev = FormatInt (User_ID u)) \<and>
    (\<forall>ev \<in> set (outbox_events (db w)). OutboxEvent_Status ev = StatusProcessed \<longrightarrow>
       (\<exists>rec \<in> set (topic_log w). recorded_as (sys_config S) ev rec)) \<and>
    (\<forall>rec \<in> set (topic_log w). \<exists>ev \<in> set (outbox_events (db w)). recorded_as (sys_config S) ev rec) \<and>
    audited_ids w = processed_ids w \<and> distinct (audited_ids w) \<and>
    (\<forall>i \<in> set (audited_ids w). \<exists>ev \<in> set (outbox_events (db w)). i = FormatInt (OutboxEvent_ID ev) \<and>
       (\<exists>rec \<in> set (topic_log w). recorded_as (sys_config S) ev rec))"
proof -
  have I: "system_inv (sys_config S) w" by (rule system_inv_reach [OF assms])
  then have s: "schema_ok (db w) (seqs w)" and l: "audited_ids w = processed_ids w"
    by (simp_all add: system_inv_def exactly_once_def linked_def)
  from s have d: "distinct (audited_ids w)" by (simp add: schema_defs)
  show ?thesis
    using I s d unfolding l
    by (simp add: system_inv_def sent_ok_def rows_def announces_user_def del: set_map)
qed

text \<open>An event of the outbox that the application's consumer can handle and PostgreSQL can store.\<close>

definition announced_event :: "Config \<Rightarrow> OutboxEvent \<Rightarrow> KafkaRecord \<Rightarrow> KafkaEvent" where
  "announced_event cfg ev rec = \<lparr>KafkaEvent_EventID = FormatInt (OutboxEvent_ID ev),
     KafkaEvent_EventType = OutboxEvent_EventType ev, KafkaEvent_AggregateType = OutboxEvent_AggregateType ev,
     KafkaEvent_AggregateID = OutboxEvent_AggregateID ev, KafkaEvent_ContentType = OutboxEvent_ContentType ev,
     KafkaEvent_ProtoMessage = OutboxEvent_ProtoMessage ev, KafkaEvent_EventVersion = OutboxEvent_EventVersion ev,
     KafkaEvent_Payload = OutboxEvent_Payload ev, KafkaEvent_Topic = KafkaConfig_OutboxTopic (Config_Kafka cfg),
     KafkaEvent_Partition = Record_Partition rec, KafkaEvent_Offset = Record_Offset rec\<rparr>"

definition deliverable :: "system \<Rightarrow> OutboxEvent \<Rightarrow> UserRegistered \<Rightarrow> bool" where
  "deliverable S ev payload \<longleftrightarrow>
     OutboxEvent_EventType ev = EventTypeUserRegistered \<and> OutboxEvent_AggregateType ev \<noteq> '''' \<and>
     OutboxEvent_AggregateID ev \<noteq> '''' \<and> OutboxEvent_ContentType ev = ContentTypeProtobuf \<and>
     OutboxEvent_ProtoMessage ev = ProtoMessageUserRegistered \<and> OutboxEvent_EventVersion ev = EventVersionV1 \<and>
     cenv_unmarshal (sys_consumer_env S) (OutboxEvent_Payload ev) = Inr payload \<and>
     sys_jsonb S (audit_payload (sys_consumer_env S) payload) \<noteq> None \<and>
     list_all pg_text [FormatInt (OutboxEvent_ID ev), KafkaConfig_OutboxTopic (Config_Kafka (sys_config S)),
       audit_payload (sys_consumer_env S) payload]"

lemma deliverable_handleable:
  "deliverable S ev payload \<Longrightarrow>
     handleable (sys_jsonb S) (sys_consumer_env S) (announced_event (sys_config S) ev rec) payload"
  by (simp add: deliverable_def handleable_def announced_event_def)

lemma deliverable_event:
  assumes "deliverable S ev payload" and "recorded_as (sys_config S) ev rec" and "outbox_row_ok ev"
  shows "eventFromRecord rec = Inr (announced_event (sys_config S) ev rec)"
proof -
  have ne: "OutboxEvent_EventType ev \<noteq> ''''" "OutboxEvent_AggregateType ev \<noteq> ''''"
    "OutboxEvent_AggregateID ev \<noteq> ''''" "OutboxEvent_EventVersion ev \<noteq> ''''"
    using assms(1) by (simp_all add: deliverable_def EventTypeUserRegistered_def EventVersionV1_def)
  have "unplaced rec = publisher_record (app_publisher (sys_config S)) ev"
    using assms(2) by (simp add: recorded_as_def kafka_carries_def unplaced_def)
  from eventFromRecord_published [OF ne assms(3) this]
  show ?thesis by (simp add: announced_event_def app_publisher_def)
qed

lemma iteration_publishes:
  assumes "exactly_once w" and "plan w = []" and wk: "sys_worker S = Inr wk"
    and batch: "0 < WorkerConfig_BatchSize (Config_Worker (sys_config S))"
      "length (filter (fetchable (clock w - WorkerConfig_LockTimeout (Config_Worker (sys_config S)))) (rows w))
         \<le> nat (WorkerConfig_BatchSize (Config_Worker (sys_config S)))"
    and ev: "ev \<in> set (rows w)" "fetchable (clock w - WorkerConfig_LockTimeout (Config_Worker (sys_config S))) ev"
    and it: "\<not> done_first it" "\<not> done_waiting it"
  obtains w1 rec where "Worker_Run wk ctxErr [it] w = (None, w1)" "plan w1 = []" "beside_outbox w1 = beside_outbox w"
    "rec \<in> set (topic_log w1)" "recorded_as (sys_config S) ev rec"
    "\<exists>f \<in> set (rows w1). content f = content ev \<and> OutboxEvent_Status f = StatusProcessed"
proof -
  let ?wc = "Config_Worker (sys_config S)" and ?p = "app_publisher (sys_config S)" and ?pt = "sys_partitioner S"
  let ?old = "fetchable (clock w - WorkerConfig_LockTimeout ?wc)"
  have sch: "schema_ok (db w) (seqs w)" using assms(1) by (simp add: exactly_once_def)
  have wk': "wk = kafka_worker ?pt ?p ?wc" by (rule outbox_module_worker [OF wk])
  have dist: "distinct (map OutboxEvent_ID (rows w))" by (rule consistent_rows [OF schema_consistent [OF sch]])
  obtain v where v: "Worker_ProcessOnce (kafka_worker ?pt ?p ?wc) w = (Inr (), v)"
    "rows v = update_where ?old (\<lambda>e. mark_processed (pg_now w) (claim (pg_now w) e)) (rows w)"
    "map unplaced (topic_log v) = map unplaced (topic_log w) @ map (publisher_record ?p) (filter ?old (rows w))"
    "plan v = []"
    using ProcessOnce_ok [OF assms(2) dist batch] by blast
  let ?w1 = "v\<lparr>clock := clock v + int (waited it)\<rparr>"
  have run: "Worker_Run wk ctxErr [it] w = (None, ?w1)" using v(1) it by (simp add: wk' Let_def)
  have b: "beside_outbox ?w1 = beside_outbox w" by (rule worker_run(2) [OF sch run [unfolded wk']])
  have f: "mark_processed (pg_now w) (claim (pg_now w) ev) \<in> set (rows ?w1)"
    using ev v(2) by (simp add: rows_def set_update_where)
  have "publisher_record ?p ev \<in> set (map unplaced (topic_log v))" using ev by (simp add: v(3))
  then obtain rec where rec: "rec \<in> set (topic_log v)" "unplaced rec = publisher_record ?p ev" by auto
  then have "recorded_as (sys_config S) ev rec" by (simp add: recorded_as_def kafka_carries_def unplaced_def)
  moreover have "OutboxEvent_Status (mark_processed (pg_now w) (claim (pg_now w) ev)) = StatusProcessed"
    by (simp add: mark_processed_def)
  ultimately show thesis
    using rec(1) b v(4) by (intro that [OF run] bexI [OF _ f] conjI) simp_all
qed

lemma poll_audits:
  assumes "plan w = []" and cons: "sys_consumer S = Inr cons"
    and d: "deliverable S ev payload" "recorded_as (sys_config S) ev rec" "outbox_row_ok ev"
    and new: "FormatInt (OutboxEvent_ID ev) \<notin> set (processed_ids w)" "FormatInt (OutboxEvent_ID ev) \<notin> set (audited_ids w)"
  obtains w' a where "Consumer_Run cons ctxErr [PollRecords [[rec]]] w = (None, w')"
    "user_audit_events (db w') = user_audit_events (db w) @ [a]"
    "UserAuditEvent_SourceEventID a = FormatInt (OutboxEvent_ID ev)" "UserAuditEvent_UserID a = UserRegistered_UserId payload"
    "processed_ids w' = processed_ids w @ [FormatInt (OutboxEvent_ID ev)]"
    "committed w' (Record_Topic rec, Record_Partition rec) = Some (Record_Offset rec + 1)"
proof -
  let ?e = "announced_event (sys_config S) ev rec"
  have i: "KafkaEvent_EventID ?e = FormatInt (OutboxEvent_ID ev)" by (simp add: announced_event_def)
  obtain w2 a where c: "Consumer_processRecord cons rec w = (Inr (), w2)"
    "processed_ids w2 = processed_ids w @ [KafkaEvent_EventID ?e]" "user_audit_events (db w2) = user_audit_events (db w) @ [a]"
    "UserAuditEvent_SourceEventID a = KafkaEvent_EventID ?e" "UserAuditEvent_UserID a = UserRegistered_UserId payload"
    "committed w2 = (committed w)((Record_Topic rec, Record_Partition rec) \<mapsto> Record_Offset rec + 1)"
    using processRecord_ok [OF assms(1) deliverable_event [OF d] deliverable_handleable [OF d(1)],
        of "TimeoutsConfig_KafkaConsume (Config_Timeouts (sys_config S))"] new
    by (auto simp: consumer_module_consumer [OF cons] i)
  obtain w3 where w3: "Observer_EventProcessed (Consumer_observer cons) (eventTypeFromRecord rec) w2 = (Inr (), w3)"
    "db w3 = db w2" "committed w3 = committed w2"
    by (simp add: consumer_module_consumer [OF cons] pgconsumer.consumer_wiring KafkaConsumerObserver_def metric_inc_def modify_def)
  have "Consumer_Run cons ctxErr [PollRecords [[rec]]] w = (None, w3)" by (simp add: attempt_def ret_def c(1) w3(1))
  then show thesis by (rule that) (use c w3 in \<open>simp_all add: i\<close>)
qed


section \<open>A run\<close>

definition sample_system :: system where
  "sample_system = \<lparr>sys_libs = sample_libs, sys_config = sample_settings, sys_newClient = (\<lambda>_. None),
     sys_partitioner = (\<lambda>_. 0), sys_jsonb = Some, sys_consumer_env = sample_consumer_env\<rparr>"

lemma sample_libs_bystanders: "bystanders sample_libs"
  by (simp add: bystanders_def sample_libs_def frame_def ret_def Write_world [THEN frame_snd])

definition served :: world where
  "served = conn_world (snd (app_handler (Run_app sample_libs sample_settings False) sample_delete
     (sample_conn ''DELETE'' empty_world)))"

lemma served_reach: "system_reach sample_system served"
proof (rule moved [OF deployed])
  let ?c = "sample_conn ''DELETE'' empty_world"
  have "app_handler (Run_app (sys_libs sample_system) (sys_config sample_system) False) sample_delete ?c =
      (fst (app_handler (Run_app sample_libs sample_settings False) sample_delete ?c),
       snd (app_handler (Run_app sample_libs sample_settings False) sample_delete ?c))"
    by (simp add: sample_system_def)
  from http_request [OF this] show "system_step sample_system empty_world served"
    by (simp add: served_def) (simp add: sample_conn_def)
qed

theorem system_invariant_witness:
  "schema_ok (db served) (seqs served) \<and> audited_ids served = processed_ids served"
  using system_invariant [OF served_reach] sample_libs_bystanders by (simp add: sample_system_def)


definition sample_deployment :: system where
  "sample_deployment = sample_system\<lparr>sys_config := sample_settings\<lparr>Config_Worker := sample_cfg\<rparr>\<rparr>"

lemma sample_brokers: "BrokerList (Config_Kafka sample_settings) = [''localhost:9092'']"
  unfolding sample_settings_def default_config_def by code_simp

lemma sample_modules:
  "sys_worker sample_deployment = Inr (kafka_worker (\<lambda>_. 0) (app_publisher sample_settings) sample_cfg)"
  "sys_consumer sample_deployment =
     Inr (pg_consumer Some sample_consumer_env (TimeoutsConfig_KafkaConsume (Config_Timeouts sample_settings)))"
proof -
  have k: "KafkaConfig_OutboxTopic (Config_Kafka sample_settings) \<noteq> ''''"
    "KafkaConfig_ConsumerGroup (Config_Kafka sample_settings) \<noteq> ''''"
    by (simp_all add: sample_settings_def default_config_def)
  show "sys_worker sample_deployment = Inr (kafka_worker (\<lambda>_. 0) (app_publisher sample_settings) sample_cfg)"
    using k by (simp add: initOutboxModule_def NewKafkaPublisher_def publisher_config_def Let_def sample_deployment_def
        sample_system_def sample_brokers kafka_worker_def outbox_worker_def app_publisher_def)
  show "sys_consumer sample_deployment =
     Inr (pg_consumer Some sample_consumer_env (TimeoutsConfig_KafkaConsume (Config_Timeouts sample_settings)))"
    using k by (simp add: initKafkaConsumerModule_def NewConsumer_def sample_deployment_def sample_system_def
        sample_brokers pg_consumer_def app_router_def consumer_WithObserver_def)
qed

lemma sample_deliverable: "deliverable sample_deployment (sample_event 1) sample_registered"
  using sample_handleable [of 1]
  by (simp add: deliverable_def handleable_def sample_consumed_def sample_deployment_def sample_system_def
      sample_outbox_defs sample_settings_def default_config_def FormatInt_nonempty AggregateUser_def pg_text_ascii is_ascii_def)


end
