(* ===== verification/Startup.thy ===== *)
theory Startup
  imports Config
begin

text \<open>
  The parts that only the start and the stop of the process use: internal/telemetry, internal/postgres,
  internal/redisclient, internal/httpserver, internal/logger, internal/timex, and the
  program cmd/healthcheck. What they open and close is a trace of steps, how long they wait is the
  time of the process; what the libraries answer while the process starts and stops is a parameter
  (\<open>host\<close>).
\<close>

section \<open>The process\<close>

datatype part = Telemetry | DbPool | RedisClient | HealthClient | KafkaConsumer | OutboxWorker | GrpcServer | HttpServer

datatype step =
    Opened part                                  \<comment> \<open>the resource exists, the goroutine runs\<close>
  | Cancelled part                               \<comment> \<open>its context is cancelled, \<open>GracefulStop\<close> or \<open>Shutdown\<close> called\<close>
  | Closed part                                  \<comment> \<open>\<open>Close\<close>, \<open>Stop\<close> or the return of its goroutine\<close>
  | Draining                                     \<comment> \<open>\<open>shuttingDown.Store(true)\<close>\<close>
  | Logged string

record proc =
  proc_now :: int
  proc_trace :: "step list"
  proc_once :: "part set"                        \<comment> \<open>the \<open>sync.Once\<close> that have run\<close>

text \<open>A function of the process returns, returns an error, or is still running for ever.\<close>

datatype halt = Failed go_error | Running

type_synonym 'a life = "(proc, halt, 'a) program"

definition step :: "step \<Rightarrow> unit life" where
  "step st = modify (\<lambda>p. p\<lparr>proc_trace := proc_trace p @ [st]\<rparr>)"

definition pass :: "int \<Rightarrow> unit life" where
  "pass d = modify (\<lambda>p. p\<lparr>proc_now := proc_now p + max 0 d\<rparr>)"

text \<open>\<open>if err != nil { return ..., fmt.Errorf("<prefix>: %w", err) }\<close> on what a library answered\<close>

definition checked :: "string \<Rightarrow> go_error option \<Rightarrow> unit life" where
  "checked what answer = (case answer of None \<Rightarrow> ret () | Some err \<Rightarrow> throw (Failed (wrapf what err)))"

text \<open>\<open>defer fin()\<close> around the rest of a function; it does not run while the function does.\<close>

definition deferred :: "unit life \<Rightarrow> 'a life \<Rightarrow> 'a life" where
  "deferred fin m p = (case m p of
       (Inl Running, p1) \<Rightarrow> (Inl Running, p1)
     | (r, p1) \<Rightarrow> (r, snd (fin p1)))"

text \<open>
  \<open>select\<close> on a channel that is closed after some time, if ever, and on \<open>time.After(timeout)\<close>
  or a context with that timeout: whether the channel came first.
\<close>

definition await :: "int option \<Rightarrow> int \<Rightarrow> bool life" where
  "await finished timeout = (case finished of
       Some d \<Rightarrow> if max 0 d \<le> max 0 timeout then andThen (pass d) (\<lambda>_. ret True) else andThen (pass timeout) (\<lambda>_. ret False)
     | None \<Rightarrow> andThen (pass timeout) (\<lambda>_. ret False))"

text \<open>\<open>shutdownOnce.Do(m)\<close>\<close>

definition once :: "part \<Rightarrow> unit life \<Rightarrow> unit life" where
  "once c m p = (if c \<in> proc_once p then (Inr (), p) else m (p\<lparr>proc_once := insert c (proc_once p)\<rparr>))"

section \<open>Telemetry\<close>

datatype exporter = StdoutExporter | OtlpExporter string bool   \<comment> \<open>endpoint, \<open>WithInsecure\<close>\<close>

record pool_config =
  pool_URL :: string
  pool_MaxConns :: int
  pool_MinConns :: int
  pool_MaxConnLifetime :: int
  pool_MaxConnIdleTime :: int
  pool_HealthCheckPeriod :: int

record redis_options =
  redis_Addr :: string
  redis_Password :: string
  redis_DB :: int

datatype serving_end = ListenFailed go_error | ServerClosed | ContextDone

record host =
  host_exporter :: "exporter \<Rightarrow> go_error option"
  host_resource :: "(string \<times> string) list \<Rightarrow> go_error option"
  host_telemetry_flush :: "int option \<times> go_error option"   \<comment> \<open>how long \<open>Shutdown\<close> takes, its error\<close>
  host_parse_url :: "string \<Rightarrow> go_error option"
  host_new_pool :: "pool_config \<Rightarrow> go_error option"
  host_ping_db :: "go_error option"
  host_pool_idle :: int                          \<comment> \<open>until the connections are back and \<open>Close\<close> returns\<close>
  host_ping_redis :: "redis_options \<Rightarrow> go_error option"
  host_close_redis :: "go_error option"
  host_listen :: "string \<Rightarrow> go_error option"
  host_consumer_done :: "int option"             \<comment> \<open>from the cancellation to the return of \<open>Run\<close>\<close>
  host_worker_done :: "int option"
  host_grpc_drained :: "int option"              \<comment> \<open>how long \<open>GracefulStop\<close> takes\<close>
  host_grpc_served :: int                        \<comment> \<open>from the stop to the return of \<open>Serve\<close>\<close>
  host_http_drained :: "int option"              \<comment> \<open>how long the open requests take\<close>
  host_http_close :: "go_error option"           \<comment> \<open>an error of closing the listeners\<close>
  host_end :: "(int \<times> serving_end) option"       \<comment> \<open>when and how the serving ends, if ever\<close>

definition newTraceExporter :: "host \<Rightarrow> TelemetryConfig \<Rightarrow> unit life" where
  "newTraceExporter h cfg =
     (if TelemetryConfig_Exporter cfg = ''stdout''
      then checked ''create stdout trace exporter'' (host_exporter h StdoutExporter)
      else if TelemetryConfig_Exporter cfg = ''otlp''
      then checked ''create otlp trace exporter''
             (host_exporter h (OtlpExporter (TelemetryConfig_Endpoint cfg) (TelemetryConfig_Insecure cfg)))
      else throw (Failed (NewError (''unsupported telemetry exporter: '' @ TelemetryConfig_Exporter cfg))))"

definition newResource :: "host \<Rightarrow> AppConfig \<Rightarrow> unit life" where
  "newResource h appCfg = checked ''create telemetry resource''
     (host_resource h [(''service.name'', AppConfig_Name appCfg), (''service.version'', AppConfig_Version appCfg),
        (''deployment.environment'', AppConfig_Environment appCfg)])"

text \<open>
  \<open>Init\<close> returns the function that shuts telemetry down under a context with a timeout; the
  error of the provider, or of the context, is its result.
\<close>

definition telemetry_shutdown :: "host \<Rightarrow> int \<Rightarrow> unit life" where
  "telemetry_shutdown h timeout =
     andThen (await (fst (host_telemetry_flush h)) timeout) (\<lambda>flushed.
     andThen (step (Closed Telemetry)) (\<lambda>_.
     if \<not> flushed then throw (Failed (Sentinel DeadlineExceeded))
     else case snd (host_telemetry_flush h) of Some err \<Rightarrow> throw (Failed err) | None \<Rightarrow> ret ()))"

definition telemetry_Init :: "host \<Rightarrow> AppConfig \<Rightarrow> TelemetryConfig \<Rightarrow> (int \<Rightarrow> unit life) life" where
  "telemetry_Init h appCfg telemetryCfg =
     (if \<not> TelemetryConfig_Enabled telemetryCfg
      then andThen (step (Logged ''telemetry disabled'')) (\<lambda>_. ret (\<lambda>timeout. ret ()))
      else andThen (newTraceExporter h telemetryCfg) (\<lambda>_.
           andThen (newResource h appCfg) (\<lambda>_.
           andThen (step (Opened Telemetry)) (\<lambda>_.
           andThen (step (Logged ''telemetry initialized'')) (\<lambda>_. ret (telemetry_shutdown h))))))"

section \<open>PostgreSQL, Redis and the HTTP server\<close>

definition pool_settings :: "DatabaseConfig \<Rightarrow> pool_config" where
  "pool_settings cfg = \<lparr>pool_URL = DatabaseUrlWithSSL cfg, pool_MaxConns = PoolConfig_MaxCons (DatabaseConfig_Pool cfg),
     pool_MinConns = PoolConfig_MinCons (DatabaseConfig_Pool cfg),
     pool_MaxConnLifetime = PoolConfig_MaxConLifeTime (DatabaseConfig_Pool cfg),
     pool_MaxConnIdleTime = PoolConfig_MaxConIdleTime (DatabaseConfig_Pool cfg),
     pool_HealthCheckPeriod = PoolConfig_HealthCheckPeriod (DatabaseConfig_Pool cfg)\<rparr>"

text \<open>\<open>Close\<close> of a pool blocks until its connections are returned.\<close>

definition close_pool :: "host \<Rightarrow> unit life" where
  "close_pool h = andThen (pass (host_pool_idle h)) (\<lambda>_. step (Closed DbPool))"

definition NewPool :: "host \<Rightarrow> DatabaseConfig \<Rightarrow> unit life" where
  "NewPool h cfg =
     andThen (checked ''parse database url'' (host_parse_url h (DatabaseUrlWithSSL cfg))) (\<lambda>_.
     andThen (checked ''create pgx pool'' (host_new_pool h (pool_settings cfg))) (\<lambda>_.
     andThen (step (Opened DbPool)) (\<lambda>_.
     case host_ping_db h of
       Some err \<Rightarrow> andThen (close_pool h) (\<lambda>_. throw (Failed (wrapf ''ping postgres'' err)))
     | None \<Rightarrow> ret ())))"

definition redisclient_New :: "host \<Rightarrow> RedisConfig \<Rightarrow> unit life" where
  "redisclient_New h cfg =
     andThen (step (Opened RedisClient)) (\<lambda>_.
     case host_ping_redis h \<lparr>redis_Addr = Redis_Address cfg, redis_Password = RedisConfig_Password cfg,
         redis_DB = RedisConfig_DB cfg\<rparr> of
       Some err \<Rightarrow> andThen (step (Closed RedisClient)) (\<lambda>_. throw (Failed (wrapf ''redis client ping failed'' err)))
     | None \<Rightarrow> ret ())"

text \<open>The server without its handler, which \<open>Requests\<close> and \<open>Answers\<close> are about.\<close>

record http_Server =
  Server_Addr :: string
  Server_ReadTimeout :: int
  Server_WriteTimeout :: int
  Server_IdleTimeout :: int
  Server_ReadHeaderTimeout :: int

definition httpserver_New :: "HTTPConfig \<Rightarrow> http_Server" where
  "httpserver_New cfg = \<lparr>Server_Addr = HTTP_Address cfg, Server_ReadTimeout = HTTPConfig_ReadTimeout cfg,
     Server_WriteTimeout = HTTPConfig_WriteTimeout cfg, Server_IdleTimeout = HTTPConfig_IdleTimeout cfg,
     Server_ReadHeaderTimeout = HTTPConfig_ReadHeaderTimeout cfg\<rparr>"

section \<open>The logger's level and contexts with a timeout\<close>

datatype Level = LevelDebug | LevelInfo | LevelWarn | LevelError

definition parseLogLevel :: "(string \<Rightarrow> string) \<Rightarrow> string \<Rightarrow> Level" where
  "parseLogLevel u level =
     (let l = ToLower u (TrimSpace level)
      in if l = ''info'' \<or> l = '''' then LevelInfo
         else if l = ''debug'' then LevelDebug
         else if l = ''error'' then LevelError
         else if l = ''warn'' \<or> l = ''warning'' then LevelWarn
         else LevelInfo)"

text \<open>The levels are ordered as the numbers of slog; a handler writes what is not below its level.\<close>

fun Level_number :: "Level \<Rightarrow> int" where
  "Level_number LevelDebug = - 4"
| "Level_number LevelInfo = 0"
| "Level_number LevelWarn = 4"
| "Level_number LevelError = 8"

instantiation Level :: linorder
begin

definition less_eq_Level :: "Level \<Rightarrow> Level \<Rightarrow> bool" where
  "a \<le> b \<longleftrightarrow> Level_number a \<le> Level_number b"

definition less_Level :: "Level \<Rightarrow> Level \<Rightarrow> bool" where
  "a < b \<longleftrightarrow> Level_number a < Level_number b"

instance
proof
  fix a b :: Level
  show "a \<le> b \<Longrightarrow> b \<le> a \<Longrightarrow> a = b" by (cases a; cases b) (simp_all add: less_eq_Level_def)
qed (auto simp: less_eq_Level_def less_Level_def)

end

definition logger_New :: "(string \<Rightarrow> string) \<Rightarrow> string \<Rightarrow> Level \<Rightarrow> bool" where
  "logger_New u level l \<longleftrightarrow> parseLogLevel u level \<le> l"

text \<open>Whatever the setting says, errors are written.\<close>

lemma logger_errors: "logger_New u level LevelError"
  by (cases "parseLogLevel u level") (simp_all add: logger_New_def less_eq_Level_def)

text \<open>
  \<open>timex.WithTimeout\<close>: the deadline of the context it returns, from the parent's. A context of
  \<open>context.WithTimeout\<close> never outlives its parent.
\<close>

definition timex_WithTimeout :: "int \<Rightarrow> int option \<Rightarrow> int \<Rightarrow> int option" where
  "timex_WithTimeout now parent timeout =
     (if timeout \<le> 0 then parent
      else case parent of None \<Rightarrow> Some (now + timeout) | Some d \<Rightarrow> Some (min d (now + timeout)))"

section \<open>cmd/healthcheck\<close>

text \<open>The exit code, from the answer of \<open>GET http://127.0.0.1:8080/health\<close>: an error or a status.\<close>

definition healthcheck_main :: "(string \<Rightarrow> go_error + int) \<Rightarrow> int" where
  "healthcheck_main get =
     (case get ''http://127.0.0.1:8080/health'' of
        Inl err \<Rightarrow> 1
      | Inr status \<Rightarrow> if status < 200 \<or> status \<ge> 300 then 1 else 0)"

end
