(* ===== verification/Lifecycle.thy ===== *)
theory Lifecycle
  imports Whole_System Startup
begin

text \<open>
  internal/app/app.go: \<open>Run\<close> from the start of the parts to the end of the process, with the modules'
  shutdown functions, the compensation of a start that fails half-way and the deferred closers, and
  the programs cmd/api around it and cmd/migrate. The handlers that \<open>Run\<close> builds are in \<open>Authorization\<close> (\<open>Run_app\<close>) and the
  modules' worker, consumer and server in \<open>Whole_System\<close> and \<open>Grpc_Api\<close>.
\<close>

section \<open>The modules\<close>

text \<open>What the shutdown functions of the two Kafka modules share: cancel, wait, warn, close.\<close>

definition stop_loop :: "part \<Rightarrow> int option \<Rightarrow> int \<Rightarrow> string \<Rightarrow> unit life" where
  "stop_loop c finished waitTimeout warning =
     once c (
       andThen (step (Cancelled c)) (\<lambda>_.
       andThen (await finished waitTimeout) (\<lambda>done.
       andThen (if done then ret () else step (Logged warning)) (\<lambda>_. step (Closed c)))))"

definition consumer_shutdown :: "host \<Rightarrow> Config \<Rightarrow> unit life" where
  "consumer_shutdown h cfg = stop_loop KafkaConsumer (host_consumer_done h)
     (WorkerConfig_ProcessTimeout (Config_Worker cfg) + TimeoutsConfig_KafkaConsume (Config_Timeouts cfg))
     ''timeout waiting for kafka consumer to stop''"

definition start_consumer :: "host \<Rightarrow> system \<Rightarrow> (unit life) life" where
  "start_consumer h S = (case sys_consumer S of
       Inl err \<Rightarrow> throw (Failed err)
     | Inr _ \<Rightarrow> andThen (step (Opened KafkaConsumer)) (\<lambda>_. ret (consumer_shutdown h (sys_config S))))"

definition outbox_shutdown :: "host \<Rightarrow> Config \<Rightarrow> unit life" where
  "outbox_shutdown h cfg = stop_loop OutboxWorker (host_worker_done h)
     (WorkerConfig_ProcessTimeout (Config_Worker cfg) + TimeoutsConfig_KafkaProduce (Config_Timeouts cfg))
     ''timeout waiting for outbox worker to stop''"

definition start_outbox :: "host \<Rightarrow> system \<Rightarrow> (unit life) life" where
  "start_outbox h S = (case sys_worker S of
       Inl err \<Rightarrow> throw (Failed err)
     | Inr _ \<Rightarrow> andThen (step (Opened OutboxWorker)) (\<lambda>_. ret (outbox_shutdown h (sys_config S))))"

definition grpc_shutdown :: "host \<Rightarrow> Config \<Rightarrow> unit life" where
  "grpc_shutdown h cfg =
     once GrpcServer (
       andThen (step (Cancelled GrpcServer)) (\<lambda>_.
       andThen (await (host_grpc_drained h) (GRPCConfig_ShutdownTimeout (Config_GRPC cfg))) (\<lambda>stopped.
       andThen (if stopped then ret () else step (Logged ''timeout waiting for grpc graceful stop'')) (\<lambda>_.
       andThen (pass (host_grpc_served h)) (\<lambda>_. step (Closed GrpcServer))))))"

definition start_grpc :: "host \<Rightarrow> Config \<Rightarrow> (unit life) life" where
  "start_grpc h cfg =
     andThen (checked ''create gRPC listener'' (host_listen h (GRPC_Address (Config_GRPC cfg)))) (\<lambda>_.
     andThen (step (Opened GrpcServer)) (\<lambda>_. ret (grpc_shutdown h cfg)))"

definition newKafkaHealthClient :: "system \<Rightarrow> unit life" where
  "newKafkaHealthClient S =
     (let brokers = BrokerList (Config_Kafka (sys_config S))
      in if brokers = [] then throw (Failed (NewError ''kafka brokers are required''))
         else andThen (checked ''create kafka health client''
                (sys_newClient S [SeedBrokers brokers, ClientID ''identity-service-health''])) (\<lambda>_.
              step (Opened HealthClient)))"

section \<open>Run\<close>

text \<open>The modules are stopped in the order gRPC, worker, consumer.\<close>

definition stop_modules :: "unit life \<Rightarrow> unit life \<Rightarrow> unit life \<Rightarrow> unit life" where
  "stop_modules grpcShutdown outboxShutdown consumerShutdown =
     andThen (step (Logged ''stopping grpc server'')) (\<lambda>_. andThen grpcShutdown (\<lambda>_.
     andThen (step (Logged ''stopping outbox worker'')) (\<lambda>_. andThen outboxShutdown (\<lambda>_.
     andThen (step (Logged ''stopping kafka consumer'')) (\<lambda>_. consumerShutdown)))))"

text \<open>\<open>http.Server.Shutdown\<close> under a context with a timeout.\<close>

definition server_Shutdown :: "host \<Rightarrow> int \<Rightarrow> unit life" where
  "server_Shutdown h timeout =
     andThen (step (Cancelled HttpServer)) (\<lambda>_.
     andThen (await (host_http_drained h) timeout) (\<lambda>drained.
     andThen (step (Closed HttpServer)) (\<lambda>_.
     if \<not> drained then throw (Failed (Sentinel DeadlineExceeded))
     else case host_http_close h of Some err \<Rightarrow> throw (Failed err) | None \<Rightarrow> ret ())))"

definition wrapped :: "string \<Rightarrow> 'a life \<Rightarrow> 'a life" where
  "wrapped what m = mapErr (\<lambda>e. case e of Failed err \<Rightarrow> Failed (wrapf what err) | Running \<Rightarrow> Running) m"

definition serve :: "host \<Rightarrow> Config \<Rightarrow> unit life \<Rightarrow> unit life" where
  "serve h cfg stops =
     andThen (step (Opened HttpServer)) (\<lambda>_.
     case host_end h of None \<Rightarrow> throw Running
     | Some (d, e) \<Rightarrow> andThen (pass d) (\<lambda>_. case e of
         ContextDone \<Rightarrow>
           andThen (step (Logged ''shutdown signal received'')) (\<lambda>_. andThen (step Draining) (\<lambda>_.
           attempt (wrapped ''shutdown server'' (server_Shutdown h (HTTPConfig_ShutdownTimeout (Config_HTTP cfg)))) (\<lambda>r.
             case r of
               Inl err \<Rightarrow> andThen (step Draining) (\<lambda>_. andThen stops (\<lambda>_. throw err))
             | Inr _ \<Rightarrow> andThen (step (Logged ''server stopped gracefully'')) (\<lambda>_. andThen stops (\<lambda>_.
                 step (Logged ''application stopped gracefully''))))))
       | _ \<Rightarrow>
           andThen (step (Closed HttpServer)) (\<lambda>_. andThen (step Draining) (\<lambda>_. andThen stops (\<lambda>_.
             case e of ListenFailed err \<Rightarrow> throw (Failed (wrapf ''listen and serve'' err)) | _ \<Rightarrow> ret ())))))"

text \<open>What is deferred for telemetry, with its five seconds, and for Redis: errors are logged.\<close>

definition telemetry_closer :: "(int \<Rightarrow> unit life) \<Rightarrow> unit life" where
  "telemetry_closer telemetryShutdown = attempt (telemetryShutdown 5000000000) (\<lambda>r. case r of
       Inl _ \<Rightarrow> step (Logged ''shutdown telemetry'') | Inr _ \<Rightarrow> ret ())"

definition redis_closer :: "host \<Rightarrow> unit life" where
  "redis_closer h = andThen (step (Closed RedisClient)) (\<lambda>_. case host_close_redis h of
       Some _ \<Rightarrow> step (Logged ''closing redis connection'') | None \<Rightarrow> ret ())"

text \<open>From the start of the modules on, with the compensation of a module that does not start.\<close>

definition run_modules :: "host \<Rightarrow> system \<Rightarrow> unit life" where
  "run_modules h S =
     andThen (start_consumer h S) (\<lambda>consumerShutdown.
     attempt (start_outbox h S) (\<lambda>r. case r of
       Inl err \<Rightarrow> andThen (step (Logged ''stopping kafka consumer'')) (\<lambda>_. andThen consumerShutdown (\<lambda>_. throw err))
     | Inr outboxShutdown \<Rightarrow> attempt (start_grpc h (sys_config S)) (\<lambda>r. case r of
         Inl err \<Rightarrow> andThen (step (Logged ''stopping outbox worker'')) (\<lambda>_. andThen outboxShutdown (\<lambda>_.
           andThen (step (Logged ''stopping kafka consumer'')) (\<lambda>_. andThen consumerShutdown (\<lambda>_. throw err))))
       | Inr grpcShutdown \<Rightarrow> serve h (sys_config S) (stop_modules grpcShutdown outboxShutdown consumerShutdown))))"

definition app_Run :: "host \<Rightarrow> system \<Rightarrow> unit life" where
  "app_Run h S =
     (let cfg = sys_config S
      in andThen (wrapped ''init telemetry'' (telemetry_Init h (Config_App cfg) (Config_Telemetry cfg))) (\<lambda>telemetryShutdown.
         deferred (telemetry_closer telemetryShutdown) (
         andThen (NewPool h (Config_Database cfg)) (\<lambda>_. deferred (close_pool h) (
         andThen (redisclient_New h (Config_Redis cfg)) (\<lambda>_. deferred (redis_closer h) (
         andThen (newKafkaHealthClient S) (\<lambda>_. deferred (step (Closed HealthClient)) (
           run_modules h S)))))))))"

definition new_proc :: proc where
  "new_proc = \<lparr>proc_now = 0, proc_trace = [], proc_once = {}\<rparr>"

section \<open>cmd/api\<close>

text \<open>The exit code of \<open>main\<close>; the configuration is that of \<open>Load\<close>.\<close>

definition api_main :: "host \<Rightarrow> (Config \<Rightarrow> system) \<Rightarrow> go_error + Config \<Rightarrow> int option" where
  "api_main h deploy loaded = (case loaded of
       Inl err \<Rightarrow> Some 1
     | Inr cfg \<Rightarrow> (case fst (app_Run h (deploy cfg) new_proc) of
           Inl Running \<Rightarrow> None
         | Inl (Failed err) \<Rightarrow> if errors_Is err ContextCanceled then Some 0 else Some 1
         | Inr _ \<Rightarrow> Some 0))"


text \<open>
  The exit code of cmd/migrate. Its parameters are what \<open>LoadDatabase\<close> returned and the answers of
  \<open>sql.Open\<close>, of goose, and of the deferred \<open>Close\<close>, which \<open>os.Exit\<close> passes over.
\<close>

definition migrate_main ::
  "go_error + DatabaseConfig \<Rightarrow> (string \<Rightarrow> go_error option) \<Rightarrow> (string \<Rightarrow> go_error option) \<Rightarrow> (string \<Rightarrow> go_error option) \<Rightarrow>
     go_error option \<Rightarrow> int" where
  "migrate_main loaded sqlOpen setDialect up dbClose =
     (case loaded of Inl err \<Rightarrow> 1
      | Inr cfg \<Rightarrow>
          if sqlOpen (DatabaseUrlWithSSL cfg) \<noteq> None then 1
          else if setDialect ''postgres'' \<noteq> None then 1
          else if up ''migrations'' \<noteq> None then 1
          else if dbClose \<noteq> None then 1 else 0)"

section \<open>Orderly traces\<close>

text \<open>
  What is open, the last opened first, and whether the modules may be stopped: while the HTTP server
  serves they may not, until the process reports that it is draining. A trace is orderly if only
  what is not open is opened, only what was opened last is closed, and no module is closed before
  its time.
\<close>

fun move :: "step \<Rightarrow> part list \<times> bool \<Rightarrow> (part list \<times> bool) option" where
  "move (Opened c) (st, ok) = (if c \<in> set st then None else Some (c # st, ok \<and> c \<noteq> HttpServer))"
| "move (Closed c) (d # st, ok) =
     (if c = d \<and> (c \<in> {GrpcServer, OutboxWorker, KafkaConsumer} \<longrightarrow> ok) then Some (st, ok) else None)"
| "move (Closed c) ([], ok) = None"
| "move Draining (st, ok) = Some (st, True)"
| "move (Cancelled c) s = Some s"
| "move (Logged l) s = Some s"

definition unwind :: "step list \<Rightarrow> (part list \<times> bool) option" where
  "unwind ts = foldl (\<lambda>s x. Option.bind s (move x)) (Some ([], True)) ts"

lemma unwind_simps [simp]:
  "unwind [] = Some ([], True)" "unwind (ts @ [x]) = Option.bind (unwind ts) (move x)"
  "unwind (ts @ [x, y]) = Option.bind (Option.bind (unwind ts) (move x)) (move y)"
  by (simp_all add: unwind_def)

definition at_stage :: "part list \<Rightarrow> bool \<Rightarrow> part set \<Rightarrow> int \<Rightarrow> proc \<Rightarrow> bool" where
  "at_stage st ok dn t p \<longleftrightarrow> unwind (proc_trace p) = Some (st, ok) \<and> proc_once p = dn \<and> proc_now p \<le> t"

text \<open>A function that fails has come back to a stage by a certain time, and has failed for good.\<close>

definition back_at :: "part list \<Rightarrow> int \<Rightarrow> proc \<Rightarrow> bool" where
  "back_at st t p \<longleftrightarrow> (\<exists>ok. unwind (proc_trace p) = Some (st, ok)) \<and> proc_now p \<le> t"

definition fails_at :: "part list \<Rightarrow> int \<Rightarrow> halt \<Rightarrow> proc \<Rightarrow> bool" where
  "fails_at st t e p \<longleftrightarrow> e \<noteq> Running \<and> back_at st t p"

named_theorems stages "how the operations move the process"

lemma triple_if [stages]:
  "(c \<Longrightarrow> triple P m Q E) \<Longrightarrow> (\<not> c \<Longrightarrow> triple P n Q E) \<Longrightarrow> triple P (if c then m else n) Q E"
  by simp

lemma triple_option [stages]:
  "(x = None \<Longrightarrow> triple P m Q E) \<Longrightarrow> (\<And>a. x = Some a \<Longrightarrow> triple P (n a) Q E) \<Longrightarrow>
     triple P (case x of None \<Rightarrow> m | Some a \<Rightarrow> n a) Q E"
  by (cases x) simp_all

lemma step_stages [stages]:
  "c \<notin> set st \<Longrightarrow> triple (at_stage st ok dn t) (step (Opened c)) (\<lambda>_. at_stage (c # st) (ok \<and> c \<noteq> HttpServer) dn t) E"
  "(c \<in> {GrpcServer, OutboxWorker, KafkaConsumer} \<longrightarrow> ok) \<Longrightarrow>
     triple (at_stage (c # st) ok dn t) (step (Closed c)) (\<lambda>_. at_stage st ok dn t) E"
  "triple (at_stage st ok dn t) (step (Cancelled c)) (\<lambda>_. at_stage st ok dn t) E"
  "triple (at_stage st ok dn t) (step (Logged l)) (\<lambda>_. at_stage st ok dn t) E"
  "triple (at_stage st ok dn t) (step Draining) (\<lambda>_. at_stage st True dn t) E"
  by (auto simp: triple_def step_def modify_def at_stage_def)

lemma pass_stage [stages]:
  "triple (at_stage st ok dn t) (pass d) (\<lambda>_. at_stage st ok dn (t + max 0 d)) E"
  by (auto simp: triple_def pass_def modify_def at_stage_def)

lemma await_stage [stages]:
  "triple (at_stage st ok dn t) (await fin d) (\<lambda>_. at_stage st ok dn (t + max 0 d)) E"
  by (auto simp: triple_def await_def pass_def prog_defs at_stage_def split: option.split)

lemma ret_stage [stages]: "triple (at_stage st ok dn t) (ret a) (\<lambda>_. at_stage st ok dn t) E"
  by (simp add: triple_ret)

lemma checked_stage [stages]:
  "triple (at_stage st ok dn t) (checked what err) (\<lambda>_. at_stage st ok dn t) (fails_at st t)"
  by (auto simp: triple_def checked_def prog_defs at_stage_def fails_at_def back_at_def split: option.split)

lemma once_stage:
  "c \<notin> dn \<Longrightarrow> triple (at_stage st ok (insert c dn) t) m Q E \<Longrightarrow> triple (at_stage st ok dn t) (once c m) Q E"
  by (auto simp: triple_def once_def at_stage_def)

lemma stop_loop_stage:
  assumes "c \<notin> dn" and ok
  shows "triple (at_stage (c # st) ok dn t) (stop_loop c fin d w) (\<lambda>_. at_stage st ok (insert c dn) (t + max 0 d)) E"
  unfolding stop_loop_def
  by (rule once_stage [OF assms(1)]) (rule triple_andThen stages | use assms(2) in simp)+

lemma grpc_shutdown_stage:
  assumes "GrpcServer \<notin> dn" and ok
  shows "triple (at_stage (GrpcServer # st) ok dn t) (grpc_shutdown h cfg)
    (\<lambda>_. at_stage st ok (insert GrpcServer dn)
       (t + max 0 (GRPCConfig_ShutdownTimeout (Config_GRPC cfg)) + max 0 (host_grpc_served h))) E"
  unfolding grpc_shutdown_def
  by (rule once_stage [OF assms(1)]) (rule triple_andThen stages | use assms(2) in simp)+


lemma back_intros:
  "t \<le> T \<Longrightarrow> triple (at_stage st ok dn t) (ret a) (\<lambda>_. back_at st T) E"
  "t \<le> T \<Longrightarrow> triple (at_stage st ok dn t) (step (Logged l)) (\<lambda>_. back_at st T) E"
  "t \<le> T \<Longrightarrow> e \<noteq> Running \<Longrightarrow> triple (at_stage st ok dn t) (throw e) Q (fails_at st T)"
  by (auto simp: triple_def prog_defs step_def at_stage_def fails_at_def back_at_def)

lemma triple_attempt:
  assumes "triple P m R E'" and a: "\<And>a. triple (R a) (k (Inr a)) Q E" and e: "\<And>e. triple (E' e) (k (Inl e)) Q E"
  shows "triple P (attempt m k) Q E"
proof (rule tripleI)
  fix w x w' assume w: "P w" and run: "attempt m k w = (Inr x, w')"
  from run obtain q w1 where 1: "m w = (q, w1)" "k q w1 = (Inr x, w')" by (rule attemptE)
  with assms(1) w show "Q x w'"
    by (cases q) (auto dest: triple_Inl triple_Inr intro: triple_Inr [OF a] triple_Inr [OF e])
next
  fix w x w' assume w: "P w" and run: "attempt m k w = (Inl x, w')"
  from run obtain q w1 where 1: "m w = (q, w1)" "k q w1 = (Inl x, w')" by (rule attemptE)
  with assms(1) w show "E x w'"
    by (cases q) (auto dest: triple_Inl triple_Inr intro: triple_Inl [OF a] triple_Inl [OF e])
qed

lemma triple_given: "(c \<Longrightarrow> triple P m Q E) \<Longrightarrow> triple (\<lambda>p. c \<and> P p) m Q E"
  by (auto simp: triple_def)

lemma triple_or: "triple P m Q E \<Longrightarrow> triple P' m Q E \<Longrightarrow> triple (\<lambda>p. P p \<or> P' p) m Q E"
  by (auto simp: triple_def)

definition stop_time :: "host \<Rightarrow> Config \<Rightarrow> int" where
  "stop_time h cfg = max 0 (GRPCConfig_ShutdownTimeout (Config_GRPC cfg)) + max 0 (host_grpc_served h) +
     max 0 (WorkerConfig_ProcessTimeout (Config_Worker cfg) + TimeoutsConfig_KafkaProduce (Config_Timeouts cfg)) +
     max 0 (WorkerConfig_ProcessTimeout (Config_Worker cfg) + TimeoutsConfig_KafkaConsume (Config_Timeouts cfg))"

lemma stop_modules_stage:
  "triple (at_stage (GrpcServer # OutboxWorker # KafkaConsumer # st) True {} t)
     (stop_modules (grpc_shutdown h cfg) (outbox_shutdown h cfg) (consumer_shutdown h cfg))
     (\<lambda>_. at_stage st True {KafkaConsumer, OutboxWorker, GrpcServer} (t + stop_time h cfg)) E"
proof -
  let ?t1 = "t + max 0 (GRPCConfig_ShutdownTimeout (Config_GRPC cfg)) + max 0 (host_grpc_served h)"
  let ?t2 = "?t1 + max 0 (WorkerConfig_ProcessTimeout (Config_Worker cfg) + TimeoutsConfig_KafkaProduce (Config_Timeouts cfg))"
  have g: "triple (at_stage (GrpcServer # OutboxWorker # KafkaConsumer # st) True {} t) (grpc_shutdown h cfg)
      (\<lambda>_. at_stage (OutboxWorker # KafkaConsumer # st) True {GrpcServer} ?t1) E"
    by (rule grpc_shutdown_stage) simp_all
  have w: "triple (at_stage (OutboxWorker # KafkaConsumer # st) True {GrpcServer} ?t1) (outbox_shutdown h cfg)
      (\<lambda>_. at_stage (KafkaConsumer # st) True {OutboxWorker, GrpcServer} ?t2) E"
    unfolding outbox_shutdown_def by (rule stop_loop_stage) simp_all
  have "triple (at_stage (KafkaConsumer # st) True {OutboxWorker, GrpcServer} ?t2) (consumer_shutdown h cfg)
      (\<lambda>_. at_stage st True {KafkaConsumer, OutboxWorker, GrpcServer}
         (?t2 + max 0 (WorkerConfig_ProcessTimeout (Config_Worker cfg) + TimeoutsConfig_KafkaConsume (Config_Timeouts cfg)))) E"
    unfolding consumer_shutdown_def by (rule stop_loop_stage) simp_all
  then have c: "triple (at_stage (KafkaConsumer # st) True {OutboxWorker, GrpcServer} ?t2) (consumer_shutdown h cfg)
      (\<lambda>_. at_stage st True {KafkaConsumer, OutboxWorker, GrpcServer} (t + stop_time h cfg)) E"
    by (simp only: stop_time_def add.assoc)
  show ?thesis
    unfolding stop_modules_def
    by (rule triple_andThen [OF step_stages(4)] triple_andThen [OF g] triple_andThen [OF w] c)+
qed

lemma server_Shutdown_stage:
  "triple (at_stage (HttpServer # st) ok dn t) (server_Shutdown h d)
     (\<lambda>_. at_stage st ok dn (t + max 0 d)) (\<lambda>e p. e \<noteq> Running \<and> at_stage st ok dn (t + max 0 d) p)"
proof -
  have f: "triple (at_stage st ok dn t) (throw (Failed err)) Q (\<lambda>e p. e \<noteq> Running \<and> at_stage st ok dn t p)"
    for st ok dn t err Q by (simp add: triple_throw)
  show ?thesis unfolding server_Shutdown_def
    by (rule triple_andThen stages f | simp; fail)+
qed


lemma wrapped_stage:
  assumes "triple P m Q (\<lambda>e p. e \<noteq> Running \<and> F p)"
  shows "triple P (wrapped what m) Q (\<lambda>e p. e \<noteq> Running \<and> F p)"
  unfolding wrapped_def
  by (rule triple_mapErr, rule triple_weaken [OF assms]) (auto split: halt.split)

lemma serve_stage:
  assumes "host_end h = Some (d, e)" and st: "HttpServer \<notin> set st"
    and stops: "\<And>t. triple (at_stage st True dn t) stops (\<lambda>_. at_stage st' True dn' (t + m)) (fails_at st' T)"
    and T: "t + max 0 d + max 0 (HTTPConfig_ShutdownTimeout (Config_HTTP cfg)) + m \<le> T"
  shows "triple (at_stage st ok dn t) (serve h cfg stops) (\<lambda>_. back_at st' T) (fails_at st' T)"
proof -
  let ?s = "max 0 (HTTPConfig_ShutdownTimeout (Config_HTTP cfg))"
  have T1: "t + max 0 d + m \<le> T" using T by linarith
  have down: "triple (at_stage (HttpServer # st) True dn (t + max 0 d))
      (wrapped what (server_Shutdown h (HTTPConfig_ShutdownTimeout (Config_HTTP cfg))))
      (\<lambda>_. at_stage st True dn (t + max 0 d + ?s)) (\<lambda>e p. e \<noteq> Running \<and> at_stage st True dn (t + max 0 d + ?s) p)" for what
    by (rule wrapped_stage [OF server_Shutdown_stage])
  have closed: "triple (at_stage (HttpServer # st) ok' dn t') (step (Closed HttpServer)) (\<lambda>_. at_stage st ok' dn t') E"
    for ok' t' E by (rule step_stages(2)) simp
  note chain = triple_andThen [OF step_stages(4)] triple_andThen [OF step_stages(5)] triple_andThen [OF stops]
    triple_andThen [OF closed] triple_attempt [OF down] triple_given back_intros [OF T] back_intros [OF T1]
  show ?thesis
    unfolding serve_def assms(1) option.case prod.case
    by (rule triple_andThen [OF step_stages(1) [OF st]], rule triple_andThen [OF pass_stage], cases e;
        simp only: serving_end.case;
        (rule chain | simp only: sum.case halt.distinct not_False_eq_True)+)
qed


text \<open>A module starts and returns its shutdown function, or fails before anything is open.\<close>

lemma start_stages:
  "KafkaConsumer \<notin> set st \<Longrightarrow> triple (at_stage st ok dn t) (start_consumer h S)
     (\<lambda>f p. f = consumer_shutdown h (sys_config S) \<and> at_stage (KafkaConsumer # st) ok dn t p)
     (\<lambda>e p. e \<noteq> Running \<and> at_stage st ok dn t p)"
  "OutboxWorker \<notin> set st \<Longrightarrow> triple (at_stage st ok dn t) (start_outbox h S)
     (\<lambda>f p. f = outbox_shutdown h (sys_config S) \<and> at_stage (OutboxWorker # st) ok dn t p)
     (\<lambda>e p. e \<noteq> Running \<and> at_stage st ok dn t p)"
  "GrpcServer \<notin> set st \<Longrightarrow> triple (at_stage st ok dn t) (start_grpc h cfg)
     (\<lambda>f p. f = grpc_shutdown h cfg \<and> at_stage (GrpcServer # st) ok dn t p)
     (\<lambda>e p. e \<noteq> Running \<and> at_stage st ok dn t p)"
  by (auto simp: triple_def start_consumer_def start_outbox_def start_grpc_def checked_def step_def prog_defs at_stage_def
      split: sum.split option.split)

definition run_time :: "host \<Rightarrow> Config \<Rightarrow> int" where
  "run_time h cfg = (case host_end h of None \<Rightarrow> 0 | Some (d, _) \<Rightarrow> max 0 d) +
     max 0 (HTTPConfig_ShutdownTimeout (Config_HTTP cfg)) + stop_time h cfg"

lemma run_modules_stage:
  assumes "host_end h \<noteq> None" and st: "KafkaConsumer \<notin> set st" "OutboxWorker \<notin> set st" "GrpcServer \<notin> set st" "HttpServer \<notin> set st"
  shows "triple (at_stage st True {} t) (run_modules h S) (\<lambda>_. back_at st (t + run_time h (sys_config S)))
     (fails_at st (t + run_time h (sys_config S)))"
proof -
  let ?cfg = "sys_config S" and ?T = "t + run_time h (sys_config S)"
  let ?c = "WorkerConfig_ProcessTimeout (Config_Worker ?cfg) + TimeoutsConfig_KafkaConsume (Config_Timeouts ?cfg)"
  let ?w = "WorkerConfig_ProcessTimeout (Config_Worker ?cfg) + TimeoutsConfig_KafkaProduce (Config_Timeouts ?cfg)"
  obtain d e where e: "host_end h = Some (d, e)" using assms(1) by auto
  have T: "t \<le> ?T" "t + max 0 ?c \<le> ?T" "t + max 0 ?w + max 0 ?c \<le> ?T"
    "t + max 0 d + max 0 (HTTPConfig_ShutdownTimeout (Config_HTTP ?cfg)) + stop_time h ?cfg \<le> ?T"
    by (simp_all add: run_time_def stop_time_def e)
  have cons: "triple (at_stage (KafkaConsumer # st) True dn t') (consumer_shutdown h ?cfg)
      (\<lambda>_. at_stage st True (insert KafkaConsumer dn) (t' + max 0 ?c)) E" if "KafkaConsumer \<notin> dn" for dn t' E
    unfolding consumer_shutdown_def by (rule stop_loop_stage [OF that]) simp
  have work: "triple (at_stage (OutboxWorker # KafkaConsumer # st) True {} t) (outbox_shutdown h ?cfg)
      (\<lambda>_. at_stage (KafkaConsumer # st) True {OutboxWorker} (t + max 0 ?w)) E" for E
    unfolding outbox_shutdown_def by (rule stop_loop_stage) simp_all
  have none: "triple (\<lambda>p. e \<noteq> Running \<and> at_stage st ok dn t p) (throw e) Q (fails_at st ?T)" for ok dn Q e
    using back_intros(3) [OF T(1)] by (rule triple_given)
  have serving: "triple (at_stage (GrpcServer # OutboxWorker # KafkaConsumer # st) True {} t)
      (serve h ?cfg (stop_modules (grpc_shutdown h ?cfg) (outbox_shutdown h ?cfg) (consumer_shutdown h ?cfg)))
      (\<lambda>_. back_at st ?T) (fails_at st ?T)"
    by (rule serve_stage [OF e _ stop_modules_stage T(4)]) (use st in simp)
  have c: "triple (at_stage st True {} t) (start_consumer h S)
      (\<lambda>f p. f = consumer_shutdown h ?cfg \<and> at_stage (KafkaConsumer # st) True {} t p) (fails_at st ?T)"
    by (rule triple_weaken [OF start_stages(1) [OF st(1)]]) (use T(1) in \<open>auto simp: fails_at_def back_at_def at_stage_def\<close>)
  have o: "triple (at_stage (KafkaConsumer # st) True {} t) (start_outbox h S)
      (\<lambda>f p. f = outbox_shutdown h ?cfg \<and> at_stage (OutboxWorker # KafkaConsumer # st) True {} t p)
      (\<lambda>e p. e \<noteq> Running \<and> at_stage (KafkaConsumer # st) True {} t p)"
    by (rule start_stages(2)) (use st in simp)
  have g: "triple (at_stage (OutboxWorker # KafkaConsumer # st) True {} t) (start_grpc h ?cfg)
      (\<lambda>f p. f = grpc_shutdown h ?cfg \<and> at_stage (GrpcServer # OutboxWorker # KafkaConsumer # st) True {} t p)
      (\<lambda>e p. e \<noteq> Running \<and> at_stage (OutboxWorker # KafkaConsumer # st) True {} t p)"
    by (rule start_stages(3)) (use st in simp)
  note chain = triple_andThen [OF c] triple_attempt [OF o] triple_attempt [OF g] triple_given triple_andThen [OF step_stages(4)]
    triple_andThen [OF cons] triple_andThen [OF work] serving back_intros(3) [OF T(2)] back_intros(3) [OF T(3)]
  show ?thesis
    unfolding run_modules_def
    by (rule chain | hypsubst | simp only: sum.case | simp; fail)+
qed


section \<open>The deferred closers\<close>

lemma deferred_back:
  assumes "triple P m (\<lambda>_. back_at st t) (fails_at st t)" and fin: "\<And>p. back_at st t p \<Longrightarrow> back_at st' t' (snd (fin p))"
  shows "triple P (deferred fin m) (\<lambda>_. back_at st' t') (fails_at st' t')"
  unfolding triple_def
proof (intro allI impI)
  fix p assume "P p"
  obtain r p1 where 1: "m p = (r, p1)" by (rule prod.exhaust)
  show "case deferred fin m p of (Inl e, q) \<Rightarrow> fails_at st' t' e q | (Inr a, q) \<Rightarrow> back_at st' t' q"
  proof (cases r)
    case (Inl e)
    with triple_Inl [OF assms(1) \<open>P p\<close>] 1 have "e \<noteq> Running" "back_at st t p1" by (auto simp: fails_at_def)
    with 1 Inl fin show ?thesis by (cases e) (simp_all add: deferred_def fails_at_def)
  next
    case (Inr a)
    with triple_Inr [OF assms(1) \<open>P p\<close>] 1 have "back_at st t p1" by simp
    with 1 Inr fin show ?thesis by (simp add: deferred_def)
  qed
qed

lemma closers_back:
  "back_at (HealthClient # st) t p \<Longrightarrow> back_at st t (snd (step (Closed HealthClient) p))"
  "back_at (RedisClient # st) t p \<Longrightarrow> back_at st t (snd (redis_closer h p))"
  "back_at (DbPool # st) t p \<Longrightarrow> back_at st (t + max 0 (host_pool_idle h)) (snd (close_pool h p))"
  "back_at st t p \<Longrightarrow> back_at st (t + max 0 d) (snd (telemetry_closer (\<lambda>timeout. ret ()) p))"
  by (auto simp: back_at_def redis_closer_def close_pool_def telemetry_closer_def step_def pass_def prog_defs
      split: option.split)

lemma telemetry_back:
  "back_at (Telemetry # st) t p \<Longrightarrow>
     back_at st (t + max 0 5000000000) (snd (telemetry_closer (telemetry_shutdown h) p))"
  by (auto simp: back_at_def telemetry_closer_def telemetry_shutdown_def await_def step_def pass_def prog_defs
      split: option.split)

lemma back_weaken:
  assumes "triple P m Q (fails_at st t)" and "t \<le> T"
  shows "triple P m Q (fails_at st T)"
  by (rule triple_weaken [OF assms(1)]) (use assms(2) in \<open>auto simp: fails_at_def back_at_def\<close>)

lemma open_stages:
  "DbPool \<notin> set st \<Longrightarrow> triple (at_stage st True dn t) (NewPool h dbc) (\<lambda>_. at_stage (DbPool # st) True dn t)
     (fails_at st (t + max 0 (host_pool_idle h)))"
  "RedisClient \<notin> set st \<Longrightarrow> triple (at_stage st True dn t) (redisclient_New h rc) (\<lambda>_. at_stage (RedisClient # st) True dn t)
     (fails_at st t)"
  "HealthClient \<notin> set st \<Longrightarrow> triple (at_stage st True dn t) (newKafkaHealthClient S) (\<lambda>_. at_stage (HealthClient # st) True dn t)
     (fails_at st t)"
  by (auto simp: triple_def NewPool_def redisclient_New_def newKafkaHealthClient_def close_pool_def checked_def Let_def
      step_def pass_def prog_defs at_stage_def fails_at_def back_at_def split: option.split)

lemma telemetry_stage:
  "triple (at_stage [] True {} t) (wrapped what (telemetry_Init h ac tc))
     (\<lambda>f p. f = telemetry_shutdown h \<and> at_stage [Telemetry] True {} t p \<or> f = (\<lambda>timeout. ret ()) \<and> at_stage [] True {} t p)
     (fails_at [] t)"
  by (auto simp: triple_def wrapped_def telemetry_Init_def newTraceExporter_def newResource_def checked_def
      step_def prog_defs at_stage_def fails_at_def back_at_def split: option.split)

definition exit_time :: "host \<Rightarrow> Config \<Rightarrow> int" where
  "exit_time h cfg = run_time h cfg + max 0 (host_pool_idle h) + 5000000000"

lemma run_opened:
  assumes "host_end h \<noteq> None" and st: "set st \<subseteq> {Telemetry}"
  shows "triple (at_stage st True {} 0)
     (andThen (NewPool h (Config_Database (sys_config S))) (\<lambda>_. deferred (close_pool h) (
      andThen (redisclient_New h (Config_Redis (sys_config S))) (\<lambda>_. deferred (redis_closer h) (
      andThen (newKafkaHealthClient S) (\<lambda>_. deferred (step (Closed HealthClient)) (run_modules h S)))))))
     (\<lambda>_. back_at st (run_time h (sys_config S) + max 0 (host_pool_idle h)))
     (fails_at st (run_time h (sys_config S) + max 0 (host_pool_idle h)))"
proof -
  let ?T = "run_time h (sys_config S)"
  have T: "0 \<le> ?T" by (simp add: run_time_def stop_time_def split: option.split)
  have new: "DbPool \<notin> set st" "RedisClient \<notin> set (DbPool # st)" "HealthClient \<notin> set (RedisClient # DbPool # st)"
    using st by auto
  have modules: "triple (at_stage (HealthClient # RedisClient # DbPool # st) True {} 0) (run_modules h S)
      (\<lambda>_. back_at (HealthClient # RedisClient # DbPool # st) ?T) (fails_at (HealthClient # RedisClient # DbPool # st) ?T)"
    using run_modules_stage [OF assms(1), of "HealthClient # RedisClient # DbPool # st" 0 S] st by auto
  show ?thesis
    by (rule triple_andThen [OF back_weaken [OF open_stages(1) [OF new(1)]]], use T in simp,
        rule deferred_back [OF _ closers_back(3)],
        rule triple_andThen [OF back_weaken [OF open_stages(2) [OF new(2)] T]],
        rule deferred_back [OF _ closers_back(2)],
        rule triple_andThen [OF back_weaken [OF open_stages(3) [OF new(3)] T]],
        rule deferred_back [OF modules closers_back(1)])
qed

lemma app_Run_stage:
  assumes "host_end h \<noteq> None"
  shows "triple (at_stage [] True {} 0) (app_Run h S) (\<lambda>_. back_at [] (exit_time h (sys_config S)))
     (fails_at [] (exit_time h (sys_config S)))"
proof -
  let ?T = "run_time h (sys_config S) + max 0 (host_pool_idle h)"
  have T: "exit_time h (sys_config S) = ?T + max 0 5000000000" "0 \<le> exit_time h (sys_config S)"
    by (simp_all add: exit_time_def run_time_def stop_time_def split: option.split)
  let ?rest = "\<lambda>f. deferred (telemetry_closer f) (
      andThen (NewPool h (Config_Database (sys_config S))) (\<lambda>_. deferred (close_pool h) (
      andThen (redisclient_New h (Config_Redis (sys_config S))) (\<lambda>_. deferred (redis_closer h) (
      andThen (newKafkaHealthClient S) (\<lambda>_. deferred (step (Closed HealthClient)) (run_modules h S)))))))"
  have on: "triple (at_stage [Telemetry] True {} 0) (?rest (telemetry_shutdown h))
      (\<lambda>_. back_at [] (?T + max 0 5000000000)) (fails_at [] (?T + max 0 5000000000))"
    by (rule deferred_back [OF run_opened [OF assms] telemetry_back]) simp
  have off: "triple (at_stage [] True {} 0) (?rest (\<lambda>timeout. ret ()))
      (\<lambda>_. back_at [] (?T + max 0 5000000000)) (fails_at [] (?T + max 0 5000000000))"
    by (rule deferred_back [OF run_opened [OF assms] closers_back(4)]) simp
  have "triple (\<lambda>p. f = telemetry_shutdown h \<and> at_stage [Telemetry] True {} 0 p \<or> f = (\<lambda>timeout. ret ()) \<and> at_stage [] True {} 0 p)
      (?rest f) (\<lambda>_. back_at [] (exit_time h (sys_config S))) (fails_at [] (exit_time h (sys_config S)))" for f
    unfolding T(1) by (rule triple_or; rule triple_given, hypsubst) (rule on, rule off)
  then show ?thesis
    unfolding app_Run_def Let_def
    by (rule triple_andThen [OF back_weaken [OF telemetry_stage T(2)]])
qed


section \<open>Properties\<close>


section \<open>A run of the process\<close>

definition sample_host :: host where
  "sample_host = \<lparr>host_exporter = (\<lambda>_. None), host_resource = (\<lambda>_. None), host_telemetry_flush = (Some 1, None),
     host_parse_url = (\<lambda>_. None), host_new_pool = (\<lambda>_. None), host_ping_db = None, host_pool_idle = 2,
     host_ping_redis = (\<lambda>_. None), host_close_redis = None, host_listen = (\<lambda>_. None),
     host_consumer_done = None, host_worker_done = Some 3, host_grpc_drained = Some 4, host_grpc_served = 5,
     host_http_drained = Some 6, host_http_close = None, host_end = Some (100, ContextDone)\<rparr>"

lemma sample_starts:
  "start_consumer h sample_deployment = andThen (step (Opened KafkaConsumer)) (\<lambda>_. ret (consumer_shutdown h (sys_config sample_deployment)))"
  "start_outbox h sample_deployment = andThen (step (Opened OutboxWorker)) (\<lambda>_. ret (outbox_shutdown h (sys_config sample_deployment)))"
  "newKafkaHealthClient sample_deployment = step (Opened HealthClient)"
  "TelemetryConfig_Enabled (Config_Telemetry (sys_config sample_deployment)) = False"
  "6 \<le> HTTPConfig_ShutdownTimeout (Config_HTTP (sys_config sample_deployment))"
proof -
  have n: "BrokerList (Config_Kafka (sys_config sample_deployment)) = [''localhost:9092'']" "sys_newClient sample_deployment = (\<lambda>_. None)"
    by (simp_all add: sample_deployment_def sample_system_def sample_brokers)
  show "start_consumer h sample_deployment = andThen (step (Opened KafkaConsumer)) (\<lambda>_. ret (consumer_shutdown h (sys_config sample_deployment)))"
    unfolding start_consumer_def sample_modules by simp
  show "start_outbox h sample_deployment = andThen (step (Opened OutboxWorker)) (\<lambda>_. ret (outbox_shutdown h (sys_config sample_deployment)))"
    unfolding start_outbox_def sample_modules by simp
  show "newKafkaHealthClient sample_deployment = step (Opened HealthClient)"
    by (simp add: newKafkaHealthClient_def n checked_def fun_eq_iff prog_defs)
  show "TelemetryConfig_Enabled (Config_Telemetry (sys_config sample_deployment)) = False"
    "6 \<le> HTTPConfig_ShutdownTimeout (Config_HTTP (sys_config sample_deployment))"
    by (simp_all add: sample_deployment_def sample_settings_def sample_system_def default_config_def)
qed

lemma sample_Run: "fst (app_Run sample_host sample_deployment new_proc) = Inr ()"
  by (simp add: sample_host_def app_Run_def telemetry_Init_def wrapped_def NewPool_def redisclient_New_def run_modules_def sample_starts
   start_grpc_def serve_def prog_defs step_def pass_def checked_def deferred_def telemetry_closer_def redis_closer_def close_pool_def new_proc_def
  Let_def stop_modules_def grpc_shutdown_def stop_loop_def consumer_shutdown_def outbox_shutdown_def once_def await_def server_Shutdown_def le_max_iff_disj)


end
