(* ===== verification/Decoding.thy ===== *)
theory Decoding
  imports Answers
begin

text \<open>
  What a handler gets from a request body: either a value of the type the handler asked for, from
  a body that is one JSON object of known fields, or nothing, and then the refusal has been sent.
\<close>

lemma JSON_status:
  assumes "in_step n c" "conn_status c = None" "answer_status code" and "JSON code data c = (r, c')"
  shows "conn_status c' = Some code"
proof -
  have "c' = json_answer code data c" using JSON_in_step [OF assms(1,3), of data] assms(4) by simp
  then show ?thesis
    using assms(2) by (simp add: json_answer_def Let_def sent_header_def sent_doc_def split: option.split if_split)
qed

lemma SendError_status:
  assumes "in_step n c" "conn_status c = None" "answer_status code" and "SendError code e m c = (r, c')"
  shows "conn_status c' = Some code"
  using JSON_status [OF assms(1-3)] assms(4) by (simp add: SendError_def)

lemma writeDecodeError_status:
  assumes "in_step n c" "conn_status c = None" and "writeDecodeError pr err c = (r, c')"
  shows "conn_status c' = Some (if err = MaxBytesError then 413 else 400)"
proof -
  have s: "answer_status 400" "answer_status 413" by (simp_all add: answer_status_def)
  note st = SendError_status [OF assms(1,2) s(1)] SendError_status [OF assms(1,2) s(2)]
  show ?thesis using assms(3) st
    by (cases err) (auto simp: writeDecodeError_def Let_def split: if_splits)
qed

lemma decoder_next_Inr:
  "decoder_next len items = Inr (j, rest) \<Longrightarrow> \<exists>off. items = (Inr j, off) # rest \<and> off \<le> maxBodySize"
  by (auto simp: decoder_next_def split: list.splits sum.splits if_splits)

lemma decoder_next_EOF:
  "decoder_next len items = Inl IoEOF \<Longrightarrow> items = [] \<and> len \<le> maxBodySize \<or> (\<exists>off rest. items = (Inl IoEOF, off) # rest)"
  by (auto simp: decoder_next_def split: list.splits sum.splits if_splits)


lemma decode_struct_no_limit: "decode_struct quote strict schema j = Inl err \<Longrightarrow> err \<noteq> MaxBytesError"
proof (cases j)
  case (JObject kvs)
  have "decode_fields quote strict schema m e kvs = Inl err \<Longrightarrow> e \<noteq> Some MaxBytesError \<Longrightarrow> err \<noteq> MaxBytesError" for m e
    by (induction kvs arbitrary: m e)
      (force simp: first_error_def split: option.splits if_splits)+
  moreover assume "decode_struct quote strict schema j = Inl err"
  ultimately show ?thesis using JObject by simp
qed auto

text \<open>What a struct decoded from a request body stands for.\<close>

definition decoded_from :: "struct_schema \<Rightarrow> (assignment \<Rightarrow> 'a) \<Rightarrow> body \<Rightarrow> 'a \<Rightarrow> bool" where
  "decoded_from schema struct b a \<longleftrightarrow>
     (\<exists>j off rest m. body_items b = (Inr j, off) # rest \<and> off \<le> maxBodySize \<and>
        decoder_next (body_length b) rest = Inl IoEOF \<and> a = struct m \<and> well_kinded schema m \<and>
        (j = JNull \<or> (\<exists>kvs. j = JObject kvs \<and> (\<forall>(k, v) \<in> set kvs. find_field schema k \<noteq> None))))"

lemma decode_struct_object:
  assumes "decode_struct quote True schema j = Inr m"
  shows "j = JNull \<or> (\<exists>kvs. j = JObject kvs \<and> (\<forall>(k, v) \<in> set kvs. find_field schema k \<noteq> None))"
  using assms by (cases j) (auto dest: decode_fields_known)

text \<open>
  C40: Request bodies are typed. What \<open>DecodeJSON\<close> returns is a struct whose fields have the
  types of the schema (an integer of \<open>w\<close> bits is in its range), taken from a body whose first
  value is an object with known keys only, or null, within the first MiB, and whose end follows;
  nothing has been sent then. Otherwise it returns nothing and has sent 400, or 413 for a body
  that is too large.
\<close>

theorem decoded_request_typed:
  assumes "DecodeJSON pr schema struct r c = (res, c')" and "in_step n c" "conn_status c = None"
  shows "(\<exists>a. res = Inr (Some a) \<and> decoded_from schema struct (Req_Body r) a \<and> c' = c) \<or>
    res = Inr None \<and> (conn_status c' = Some 400 \<or>
      conn_status c' = Some 413 \<and> decoder_next (body_length (Req_Body r)) (body_items (Req_Body r)) = Inl MaxBytesError)"
proof -
  have s: "answer_status 400" by (simp add: answer_status_def)
  have refuse: "res = Inr None \<and> conn_status c' = Some code"
    if "answering send" "andThen send (\<lambda>_. ret None) c = (res, c')"
      and "\<And>p c1. send c = (p, c1) \<Longrightarrow> conn_status c1 = Some code" for send code
    by (rule answeringE [OF that(1) assms(2)]) (use that(2,3) in \<open>auto simp: andThen_def ret_def\<close>)
  show ?thesis
  proof (cases "decoder_next (body_length (Req_Body r)) (body_items (Req_Body r))")
    case (Inl err)
    then have "andThen (writeDecodeError pr err) (\<lambda>_. ret None) c = (res, c')"
      using assms(1) by (simp add: DecodeJSON_def Let_def)
    from refuse [OF answering_decode(1) this writeDecodeError_status [OF assms(2,3)]] Inl
    show ?thesis by auto
  next
    case (Inr x)
    obtain j rest where x: "x = (j, rest)" by (cases x)
    obtain off where items: "body_items (Req_Body r) = (Inr j, off) # rest" "off \<le> maxBodySize"
      using decoder_next_Inr [OF Inr [unfolded x]] by blast
    show ?thesis
    proof (cases "decode_struct (Quote pr) True schema j")
      case (Inl err)
      then have "andThen (writeDecodeError pr err) (\<lambda>_. ret None) c = (res, c')"
        using assms(1) Inr x by (simp add: DecodeJSON_def Let_def)
      moreover have "err \<noteq> MaxBytesError" using Inl by (rule decode_struct_no_limit)
      ultimately show ?thesis
        using refuse [OF answering_decode(1) _ writeDecodeError_status [OF assms(2,3)]] by fastforce
    next
      case m: (Inr m)
      show ?thesis
      proof (cases "decoder_next (body_length (Req_Body r)) rest = Inl IoEOF")
        case True
        with assms(1) Inr x m have "res = Inr (Some (struct m))" "c' = c"
          by (simp_all add: DecodeJSON_def Let_def ret_def)
        moreover have "decoded_from schema struct (Req_Body r) (struct m)"
          unfolding decoded_from_def using items True decode_struct_kinds [OF m] decode_struct_object [OF m] by blast
        ultimately show ?thesis by blast
      next
        case False
        then have "andThen (SendError 400 ''invalid_json'' ''Request body must contain only one JSON object'')
            (\<lambda>_. ret None) c = (res, c')"
          using assms(1) Inr x m by (simp add: DecodeJSON_def Let_def)
        from refuse [OF answering_send(1) [OF s] this] SendError_status [OF assms(2,3) s]
        show ?thesis by blast
      qed
    qed
  qed
qed


definition sample_put :: request where
  "sample_put = sample_delete
     \<lparr>Req_Method := ''PUT'',
      Req_Body := \<lparr>body_items = [(Inr (JObject [(''name'', JString ''Anna''), (''age'', JInt 31)]), 24)],
                   body_length = 24\<rparr>\<rparr>"

theorem decoded_request_typed_witness:
  "decoded_from UpdateUserRequest_schema UpdateUserRequest_of (Req_Body sample_put)
     \<lparr>UpdateUserRequest_Name = ''Anna'', UpdateUserRequest_Email = '''', UpdateUserRequest_Age = 31\<rparr>"
proof -
  let ?c = "sample_conn ''PUT'' sample_member"
  have f: "find_field UpdateUserRequest_schema ''name'' = Some (''name'', KString)"
    "find_field UpdateUserRequest_schema ''age'' = Some (''age'', KInt 32)"
    by (simp_all add: find_field_def UpdateUserRequest_schema_def)
  have run: "DecodeJSON (\<lambda>_. True) UpdateUserRequest_schema UpdateUserRequest_of sample_put ?c =
      (Inr (Some \<lparr>UpdateUserRequest_Name = ''Anna'', UpdateUserRequest_Email = '''', UpdateUserRequest_Age = 31\<rparr>), ?c)"
    by (simp add: DecodeJSON_def sample_put_def decoder_next_def maxBodySize_def f UpdateUserRequest_of_def
        string_field_def int_field_def ret_def)
  have "in_step 0 ?c" "conn_status ?c = None" by (simp_all add: sample_conn_def in_step_def)
  from decoded_request_typed [OF run this] show ?thesis by auto
qed

end
